(* ===== verification/Prelude.thy ===== *)
theory Prelude
  imports Main "HOL-Library.Word" "HOL-Library.Sublist" "HOL-Library.Char_ord"
    "HOL-Library.List_Lexorder"
begin

text \<open>
  What the components share: the exceptions the code throws and catches, calls that run
  against an outside world (they return, throw, or never return), the parts of the C++
  standard library the sources use on \<open>std::string\<close> (\<open>find\<close>, \<open>compare\<close> at the end of
  a string, \<open>std::stoi\<close>, \<open>std::to_string\<close>, \<open>std::tolower\<close>, \<open>c_str\<close>), and the collections
  of rewrite rules the component proofs use.

  A \<open>std::string\<close> is a list of bytes (\<open>char\<close> has the 256 values of C++'s \<open>unsigned char\<close>);
  \<open>unsigned int\<close> is a 32 bit word and \<open>size_t\<close> a 64 bit word.
\<close>

named_theorems io_simps \<open>evaluation of sequenced calls\<close>
named_theorems sum_simps \<open>evaluation of sequenced fallible computations\<close>
named_theorems str_simps \<open>facts on the string operations\<close>

type_synonym u32 = "32 word"
type_synonym u64 = "64 word"

section \<open>Exceptions\<close>

text \<open>
  The exception classes of the program, with the text of \<open>what()\<close>. \<open>Json_exn\<close> stands for
  every class below \<open>nlohmann::json::exception\<close>, which derives from \<open>std::exception\<close>
  directly; \<open>std::invalid_argument\<close> and \<open>std::out_of_range\<close> are \<open>std::logic_error\<close>s.
\<close>

datatype exn =
    Invalid_argument string
  | Out_of_range string
  | Runtime_error string
  | Json_exn string
  | Bad_alloc

text \<open>The handler \<open>catch (const std::runtime_error&)\<close> takes only these.\<close>

fun is_runtime_error :: "exn \<Rightarrow> bool" where
  "is_runtime_error (Runtime_error m) = True"
| "is_runtime_error _ = False"

type_synonym 'a result = "exn + 'a"

definition bind_sum :: "'e + 'a \<Rightarrow> ('a \<Rightarrow> 'e + 'b) \<Rightarrow> 'e + 'b" where
  "bind_sum m f = (case m of Inl e \<Rightarrow> Inl e | Inr a \<Rightarrow> f a)"

lemma bind_sum_simps [simp, sum_simps]:
  "bind_sum (Inl e) f = Inl e"
  "bind_sum (Inr a) f = f a"
  by (simp_all add: bind_sum_def)

lemma bind_sum_Inr_iff [sum_simps]:
  "bind_sum m f = Inr b \<longleftrightarrow> (\<exists>a. m = Inr a \<and> f a = Inr b)"
  by (cases m) auto

lemma bind_sum_Inl_iff [sum_simps]:
  "bind_sum m f = Inl e \<longleftrightarrow> m = Inl e \<or> (\<exists>a. m = Inr a \<and> f a = Inl e)"
  by (cases m) auto

text \<open>A loop that pushes back one converted element per turn and stops at the first throw.\<close>

fun mapE :: "('a \<Rightarrow> 'e + 'b) \<Rightarrow> 'a list \<Rightarrow> 'e + 'b list" where
  "mapE f [] = Inr []"
| "mapE f (x # xs) = bind_sum (f x) (\<lambda>y. bind_sum (mapE f xs) (\<lambda>ys. Inr (y # ys)))"

lemma mapE_Inr: "(\<And>x. x \<in> set xs \<Longrightarrow> f x = Inr (g x)) \<Longrightarrow> mapE f xs = Inr (map g xs)"
  by (induction xs) auto

lemma mapE_Inl:
  assumes "mapE f xs = Inl e"
  obtains x where "x \<in> set xs" "f x = Inl e"
  using assms by (induction xs) (auto simp: sum_simps)

lemma mapE_throws: "x \<in> set xs \<Longrightarrow> f x = Inl e \<Longrightarrow> \<exists>e'. mapE f xs = Inl e'"
proof (induction xs)
  case (Cons y ys)
  then show ?case by (cases "f y") auto
qed simp

lemma mapE_append:
  "mapE f (xs @ ys) = bind_sum (mapE f xs) (\<lambda>as. bind_sum (mapE f ys) (\<lambda>bs. Inr (as @ bs)))"
proof (induction xs)
  case Nil
  show ?case by (cases "mapE f ys") auto
next
  case (Cons x xs)
  then show ?case by (cases "f x"; cases "mapE f xs"; cases "mapE f ys") auto
qed

lemma mapE_length: "mapE f xs = Inr ys \<Longrightarrow> length ys = length xs"
  by (induction xs arbitrary: ys) (auto simp: sum_simps)

section \<open>Calls against the outside world\<close>

text \<open>
  A call returns a value, throws, or blocks for ever (\<open>Hang\<close>), and leaves a state behind.
\<close>

datatype 'a outcome = Ret 'a | Exc exn | Hang

type_synonym ('s, 'a) io = "'s \<Rightarrow> 'a outcome \<times> 's"

definition ret_io :: "'a \<Rightarrow> ('s, 'a) io" where
  "ret_io a = (\<lambda>s. (Ret a, s))"

definition throw_io :: "exn \<Rightarrow> ('s, 'a) io" where
  "throw_io e = (\<lambda>s. (Exc e, s))"

definition bind_io :: "('s, 'a) io \<Rightarrow> ('a \<Rightarrow> ('s, 'b) io) \<Rightarrow> ('s, 'b) io" where
  "bind_io m f = (\<lambda>s. case m s of
       (Ret a, t) \<Rightarrow> f a t
     | (Exc e, t) \<Rightarrow> (Exc e, t)
     | (Hang, t) \<Rightarrow> (Hang, t))"

text \<open>A pure computation that may throw, run as a call.\<close>

definition lift_sum :: "'a result \<Rightarrow> ('s, 'a) io" where
  "lift_sum r = (case r of Inl e \<Rightarrow> throw_io e | Inr a \<Rightarrow> ret_io a)"

text \<open>\<open>try { m } catch (C) { h }\<close>: \<open>c\<close> says which exceptions the clause takes.\<close>

definition catch_io :: "(exn \<Rightarrow> bool) \<Rightarrow> ('s, 'a) io \<Rightarrow> (exn \<Rightarrow> ('s, 'a) io) \<Rightarrow> ('s, 'a) io" where
  "catch_io c m h = (\<lambda>s. case m s of
       (Exc e, t) \<Rightarrow> if c e then h e t else (Exc e, t)
     | r \<Rightarrow> r)"

lemma io_eval [simp, io_simps]:
  "ret_io a s = (Ret a, s)"
  "throw_io e s = (Exc e, s)"
  "lift_sum (Inl e) s = (Exc e, s)"
  "lift_sum (Inr a) s = (Ret a, s)"
  by (simp_all add: ret_io_def throw_io_def lift_sum_def)

lemma bind_io_eval [io_simps]:
  "m s = (Ret a, t) \<Longrightarrow> bind_io m f s = f a t"
  "m s = (Exc e, t) \<Longrightarrow> bind_io m f s = (Exc e, t)"
  "m s = (Hang, t) \<Longrightarrow> bind_io m f s = (Hang, t)"
  by (simp_all add: bind_io_def)

lemma bind_io_ret [simp, io_simps]:
  "bind_io (ret_io a) f = f a"
  "bind_io (throw_io e) f = throw_io e"
  by (simp_all add: bind_io_def fun_eq_iff)

lemma bind_io_Exc_cases [consumes 1, case_names first second]:
  assumes "bind_io m f s = (Exc e, u)"
  obtains "m s = (Exc e, u)" | a t where "m s = (Ret a, t)" "f a t = (Exc e, u)"
  using assms by (auto simp: bind_io_def split: prod.splits outcome.splits)

lemma bind_io_Ret_cases [consumes 1, case_names both]:
  assumes "bind_io m f s = (Ret b, u)"
  obtains a t where "m s = (Ret a, t)" "f a t = (Ret b, u)"
  using assms by (auto simp: bind_io_def split: prod.splits outcome.splits)

lemma catch_io_eval [io_simps]:
  "m s = (Ret a, t) \<Longrightarrow> catch_io c m h s = (Ret a, t)"
  "m s = (Hang, t) \<Longrightarrow> catch_io c m h s = (Hang, t)"
  "m s = (Exc e, t) \<Longrightarrow> c e \<Longrightarrow> catch_io c m h s = h e t"
  "m s = (Exc e, t) \<Longrightarrow> \<not> c e \<Longrightarrow> catch_io c m h s = (Exc e, t)"
  by (simp_all add: catch_io_def)

lemma lift_sum_Exc [simp]: "lift_sum r s = (Exc e, t) \<longleftrightarrow> r = Inl e \<and> t = s"
  by (cases r) auto

lemma lift_sum_Ret [simp]: "lift_sum r s = (Ret a, t) \<longleftrightarrow> r = Inr a \<and> t = s"
  by (cases r) auto

end
