(* ===== verification/Std_String.thy ===== *)
theory Std_String
  imports Prelude
begin

text \<open>
  The operations of \<open>std::string\<close> and of the number conversions that the sources call, as the
  C++ standard defines them in the "C" locale: \<open>find\<close>, comparison with the end of a string,
  \<open>std::tolower\<close>, the \<open>char*\<close> view \<open>c_str()\<close>, \<open>std::to_string\<close> and \<open>std::stoi\<close>.
\<close>

section \<open>Character classes\<close>

abbreviation code_of :: "char \<Rightarrow> nat" where
  "code_of c \<equiv> of_char c"

definition is_digit :: "char \<Rightarrow> bool" where
  "is_digit c \<longleftrightarrow> 48 \<le> code_of c \<and> code_of c \<le> 57"

text \<open>\<open>std::isspace\<close>: blank, tab, newline, vertical tab, form feed, carriage return.\<close>

definition is_space :: "char \<Rightarrow> bool" where
  "is_space c \<longleftrightarrow> code_of c = 32 \<or> (9 \<le> code_of c \<and> code_of c \<le> 13)"

definition to_lower :: "char \<Rightarrow> char" where
  "to_lower c = (if 65 \<le> code_of c \<and> code_of c \<le> 90 then char_of (code_of c + 32) else c)"

lemma is_digit_not_space: "is_digit c \<Longrightarrow> \<not> is_space c"
  by (auto simp: is_digit_def is_space_def)

lemma of_char_char_of_small: "n < 256 \<Longrightarrow> code_of (char_of n) = n"
  by simp

lemma to_lower_idem [simp]: "to_lower (to_lower c) = to_lower c"
proof (cases "65 \<le> code_of c \<and> code_of c \<le> 90")
  case True
  then have "code_of (char_of (code_of c + 32)) = code_of c + 32"
    by (intro of_char_char_of_small) simp
  with True show ?thesis by (simp add: to_lower_def del: of_char_of)
qed (auto simp: to_lower_def)

lemma map_to_lower_idem [simp]: "map to_lower (map to_lower s) = map to_lower s"
  by simp

lemma code_to_lower:
  "code_of (to_lower c) = (if 65 \<le> code_of c \<and> code_of c \<le> 90 then code_of c + 32 else code_of c)"
proof (cases "65 \<le> code_of c \<and> code_of c \<le> 90")
  case True
  then have "code_of (char_of (code_of c + 32)) = code_of c + 32"
    by (intro of_char_char_of_small) simp
  with True show ?thesis by (simp add: to_lower_def del: of_char_of)
qed (auto simp: to_lower_def)

text \<open>Lower-casing touches no character outside the capital letters.\<close>

lemma to_lower_eq_iff:
  assumes "\<not> (97 \<le> code_of d \<and> code_of d \<le> 122)" "\<not> (65 \<le> code_of d \<and> code_of d \<le> 90)"
  shows "to_lower c = d \<longleftrightarrow> c = d"
proof
  assume "to_lower c = d"
  then have "code_of d = code_of (to_lower c)" by simp
  with assms(1) have "\<not> (65 \<le> code_of c \<and> code_of c \<le> 90)"
    by (auto simp: code_to_lower)
  with \<open>to_lower c = d\<close> show "c = d" by (auto simp: to_lower_def)
next
  assume "c = d"
  with assms(2) show "to_lower c = d" by (auto simp: to_lower_def)
qed

section \<open>Searching and comparing\<close>

text \<open>\<open>s.find(p)\<close>: the first position at which \<open>p\<close> occurs, \<open>None\<close> for \<open>npos\<close>.\<close>

fun str_find :: "string \<Rightarrow> string \<Rightarrow> nat option" where
  "str_find p [] = (if p = [] then Some 0 else None)"
| "str_find p (c # cs) =
     (if prefix p (c # cs) then Some 0 else map_option Suc (str_find p cs))"

lemma str_find_Some:
  "str_find p s = Some i \<Longrightarrow> \<exists>u v. s = u @ p @ v \<and> length u = i"
proof (induction s arbitrary: i)
  case (Cons c cs)
  show ?case
  proof (cases "prefix p (c # cs)")
    case True
    with Cons.prems show ?thesis by (auto simp: prefix_def)
  next
    case False
    with Cons.prems obtain j where "str_find p cs = Some j" "i = Suc j" by auto
    with Cons.IH obtain u v where "cs = u @ p @ v" "length u = j" by blast
    with \<open>i = Suc j\<close> have "c # cs = (c # u) @ p @ v \<and> length (c # u) = i" by simp
    then show ?thesis by blast
  qed
qed (auto split: if_splits)

lemma str_find_least:
  "str_find p s = Some i \<Longrightarrow> s = u @ p @ v \<Longrightarrow> i \<le> length u"
proof (induction s arbitrary: i u)
  case (Cons c cs)
  show ?case
  proof (cases u)
    case Nil
    with Cons.prems(2) have "prefix p (c # cs)" by (auto simp: prefix_def)
    with Cons.prems(1) show ?thesis by simp
  next
    case (Cons d u')
    with Cons.prems(2) have "cs = u' @ p @ v" by simp
    with Cons.IH Cons.prems(1) show ?thesis
      by (auto simp: Cons split: if_splits)
  qed
qed (auto split: if_splits)

lemma str_find_None_iff: "str_find p s = None \<longleftrightarrow> \<not> sublist p s"
proof
  show "str_find p s = None \<Longrightarrow> \<not> sublist p s"
    by (induction s) (auto simp: sublist_Cons_right split: if_splits)
  show "\<not> sublist p s \<Longrightarrow> str_find p s = None"
    using str_find_Some[of p s] by (cases "str_find p s") (auto simp: sublist_def)
qed

lemma str_find_bound: "str_find p s = Some i \<Longrightarrow> i + length p \<le> length s"
  using str_find_Some[of p s i] by auto

text \<open>
  \<open>s.size() > suf.size() && s.compare(s.size() - suf.size(), suf.size(), suf) == 0\<close>.
\<close>

definition proper_suffix :: "string \<Rightarrow> string \<Rightarrow> bool" where
  "proper_suffix suf s \<longleftrightarrow>
     length suf < length s \<and> drop (length s - length suf) s = suf"

lemma proper_suffix_iff: "proper_suffix suf s \<longleftrightarrow> (\<exists>h. h \<noteq> [] \<and> s = h @ suf)"
proof
  assume p: "proper_suffix suf s"
  let ?n = "length s - length suf"
  from p have "s = take ?n s @ suf"
    by (metis append_take_drop_id proper_suffix_def)
  moreover from p have "take ?n s \<noteq> []"
    by (auto simp: proper_suffix_def)
  ultimately show "\<exists>h. h \<noteq> [] \<and> s = h @ suf" by blast
qed (auto simp: proper_suffix_def)

lemma proper_suffix_append [simp]: "proper_suffix suf (h @ suf) \<longleftrightarrow> h \<noteq> []"
  by (auto simp: proper_suffix_def)

text \<open>\<open>c_str()\<close> read by C code: the bytes before the first NUL.\<close>

definition c_str :: "string \<Rightarrow> string" where
  "c_str s = takeWhile (\<lambda>c. code_of c \<noteq> 0) s"

lemma c_str_id: "\<forall>c \<in> set s. code_of c \<noteq> 0 \<Longrightarrow> c_str s = s"
  by (simp add: c_str_def takeWhile_eq_all_conv)

section \<open>Decimal numbers\<close>

definition digit_val :: "char \<Rightarrow> nat" where
  "digit_val c = code_of c - 48"

definition digit_char :: "nat \<Rightarrow> char" where
  "digit_char d = char_of (48 + d)"

definition dec_val :: "string \<Rightarrow> nat" where
  "dec_val ds = foldl (\<lambda>n c. 10 * n + digit_val c) 0 ds"

fun nat_digits :: "nat \<Rightarrow> string" where
  "nat_digits n = (if n < 10 then [digit_char n] else nat_digits (n div 10) @ [digit_char (n mod 10)])"

declare nat_digits.simps [simp del]

text \<open>\<open>std::to_string\<close> on a signed integer.\<close>

definition to_string :: "int \<Rightarrow> string" where
  "to_string i = (if i < 0 then CHR ''-'' # nat_digits (nat (- i)) else nat_digits (nat i))"

lemma code_digit_char: "d < 10 \<Longrightarrow> code_of (digit_char d) = 48 + d"
  unfolding digit_char_def by (intro of_char_char_of_small) simp

lemma digit_char_props [simp]:
  "d < 10 \<Longrightarrow> is_digit (digit_char d)"
  "d < 10 \<Longrightarrow> digit_val (digit_char d) = d"
  by (auto simp: is_digit_def digit_val_def code_digit_char)

lemma dec_val_snoc: "dec_val (ds @ [c]) = 10 * dec_val ds + digit_val c"
  by (simp add: dec_val_def)

lemma nat_digits_digits: "c \<in> set (nat_digits n) \<Longrightarrow> is_digit c"
proof (induction n rule: nat_digits.induct)
  case (1 n)
  then show ?case
    by (cases "n < 10") (auto simp: nat_digits.simps[of n])
qed

lemma dec_val_nat_digits [simp]: "dec_val (nat_digits n) = n"
proof (induction n rule: nat_digits.induct)
  case (1 n)
  show ?case
  proof (cases "n < 10")
    case True
    then show ?thesis by (simp add: nat_digits.simps[of n] dec_val_def)
  next
    case False
    with 1 have "dec_val (nat_digits (n div 10)) = n div 10" by simp
    with False show ?thesis by (simp add: nat_digits.simps[of n] dec_val_snoc)
  qed
qed

lemma nat_digits_nonempty [simp]: "nat_digits n \<noteq> []"
  by (simp add: nat_digits.simps[of n])

lemma hd_nat_digits: "is_digit (hd (nat_digits n))"
  using nat_digits_digits[of "hd (nat_digits n)" n] by simp

text \<open>
  \<open>std::stoi(s)\<close>, base 10: leading white space is skipped, one sign is taken, then the
  longest run of digits; what follows is ignored. No digit throws \<open>std::invalid_argument\<close>,
  a value outside \<open>int\<close> throws \<open>std::out_of_range\<close>.
\<close>

abbreviation int_min :: int where "int_min \<equiv> - (2 ^ 31)"
abbreviation int_max :: int where "int_max \<equiv> 2 ^ 31 - 1"

definition stoi_value :: "bool \<Rightarrow> string \<Rightarrow> int result" where
  "stoi_value neg ds =
     (if ds = [] then Inl (Invalid_argument ''stoi'')
      else let v = (if neg then - int (dec_val ds) else int (dec_val ds))
           in if v < int_min \<or> int_max < v then Inl (Out_of_range ''stoi'') else Inr v)"

definition stoi :: "string \<Rightarrow> int result" where
  "stoi s =
     (case dropWhile is_space s of
        [] \<Rightarrow> stoi_value False []
      | c # cs \<Rightarrow>
          if c = CHR ''-'' then stoi_value True (takeWhile is_digit cs)
          else if c = CHR ''+'' then stoi_value False (takeWhile is_digit cs)
          else stoi_value False (takeWhile is_digit (c # cs)))"

lemma stoi_value_bounds: "stoi_value neg ds = Inr v \<Longrightarrow> int_min \<le> v \<and> v \<le> int_max"
  by (auto simp: stoi_value_def Let_def split: if_splits)

lemma stoi_bounds: "stoi s = Inr v \<Longrightarrow> int_min \<le> v \<and> v \<le> int_max"
  by (auto simp: stoi_def dest: stoi_value_bounds split: list.splits if_splits)

lemma stoi_errors:
  "stoi s = Inl e \<Longrightarrow> e = Invalid_argument ''stoi'' \<or> e = Out_of_range ''stoi''"
  by (auto simp: stoi_def stoi_value_def Let_def split: list.splits if_splits)

lemma is_digit_not_sign: "is_digit c \<Longrightarrow> c \<noteq> CHR ''-'' \<and> c \<noteq> CHR ''+''"
  by (auto simp: is_digit_def)

lemma stoi_digits:
  assumes "ds \<noteq> []" "\<forall>c \<in> set ds. is_digit c" "rest = [] \<or> \<not> is_digit (hd rest)"
  shows "stoi (ds @ rest) = stoi_value False ds"
proof -
  obtain c cs where ds: "ds = c # cs" using assms(1) by (cases ds) auto
  with assms(2) have c: "is_digit c" by simp
  have "takeWhile is_digit (ds @ rest) = ds"
    using assms(2,3) by (cases rest) (auto simp: takeWhile_append)
  with ds c show ?thesis
    by (auto simp: stoi_def is_digit_not_space is_digit_not_sign dest: is_digit_not_sign)
qed

lemma stoi_nat_digits:
  assumes "int n \<le> int_max" "rest = [] \<or> \<not> is_digit (hd rest)"
  shows "stoi (nat_digits n @ rest) = Inr (int n)"
proof -
  have "stoi (nat_digits n @ rest) = stoi_value False (nat_digits n)"
    by (intro stoi_digits) (use assms nat_digits_digits in auto)
  with assms(1) show ?thesis by (simp add: stoi_value_def)
qed

lemma stoi_nat_digits_overflow:
  assumes "int_max < int n" "rest = [] \<or> \<not> is_digit (hd rest)"
  shows "stoi (nat_digits n @ rest) = Inl (Out_of_range ''stoi'')"
proof -
  have "stoi (nat_digits n @ rest) = stoi_value False (nat_digits n)"
    by (intro stoi_digits) (use assms nat_digits_digits in auto)
  with assms(1) show ?thesis by (simp add: stoi_value_def)
qed

text \<open>\<open>std::stoi\<close> reads back what \<open>std::to_string\<close> prints, for every \<open>int\<close>.\<close>

lemma stoi_to_string:
  assumes "int_min \<le> i" "i \<le> int_max"
  shows "stoi (to_string i) = Inr i"
proof (cases "i < 0")
  case True
  have "takeWhile is_digit (nat_digits (nat (- i))) = nat_digits (nat (- i))"
    using nat_digits_digits by (simp only: takeWhile_eq_all_conv) blast
  moreover have "\<not> is_space (CHR ''-'')" by (simp add: is_space_def)
  ultimately have "stoi (to_string i) = stoi_value True (nat_digits (nat (- i)))"
    using True by (simp add: stoi_def to_string_def del: takeWhile_eq_all_conv)
  with assms True show ?thesis by (simp add: stoi_value_def Let_def)
next
  case False
  with assms stoi_nat_digits[of "nat i" "[]"] show ?thesis by (simp add: to_string_def)
qed

end
