(* ===== verification/Regex.thy ===== *)
theory Regex
  imports Std_String
begin

text \<open>
  The part of \<open>std::regex\<close> (ECMAScript grammar) that the sources use. Every pattern of the
  program is a sequence of character classes, each taken once or repeated greedily (\<open>*\<close>;
  \<open>x+\<close> is \<open>x x*\<close>), with capture groups around whole items, so a pattern is a list of
  items and each item carries the number of its group (0 for none). \<open>rx_match\<close> is the
  backtracking match at one position, \<open>rx_search\<close> the leftmost match and \<open>rx_all\<close> the walk
  of \<open>std::sregex_iterator\<close>. \<open>rx_lang\<close> says which texts a pattern matches at all, and the
  matcher is sound and complete for it.
\<close>

section \<open>Patterns and matches\<close>

datatype quant = Once | Star

datatype rx_item = Item quant "char \<Rightarrow> bool" nat

type_synonym rx = "rx_item list"

text \<open>A match: the matched characters in order, each with the group that captured it.\<close>

type_synonym rx_tags = "(nat \<times> char) list"

abbreviation matched :: "rx_tags \<Rightarrow> string" where
  "matched m \<equiv> map snd m"

text \<open>\<open>(*it)[n].str()\<close>\<close>

definition capture :: "nat \<Rightarrow> rx_tags \<Rightarrow> string" where
  "capture n m = map snd (filter (\<lambda>p. fst p = n) m)"

lemma capture_simps [simp]:
  "capture n [] = []"
  "capture n ((g, c) # m) = (if g = n then c # capture n m else capture n m)"
  "capture n (m @ m') = capture n m @ capture n m'"
  by (simp_all add: capture_def)

lemma capture_map_Pair [simp]: "capture n (map (Pair g) u) = (if g = n then u else [])"
  by (induction u) auto

definition rx_lit :: "char \<Rightarrow> nat \<Rightarrow> rx_item" where
  "rx_lit d g = Item Once (\<lambda>c. c = d) g"

definition rx_plus :: "(char \<Rightarrow> bool) \<Rightarrow> nat \<Rightarrow> rx" where
  "rx_plus p g = [Item Once p g, Item Star p g]"

fun rx_match :: "rx \<Rightarrow> string \<Rightarrow> (rx_tags \<times> string) option" where
  "rx_match [] s = Some ([], s)"
| "rx_match (Item Once p g # rs) [] = None"
| "rx_match (Item Once p g # rs) (c # cs) =
     (if p c then map_option (apfst (Cons (g, c))) (rx_match rs cs) else None)"
| "rx_match (Item Star p g # rs) [] = rx_match rs []"
| "rx_match (Item Star p g # rs) (c # cs) =
     (if p c
      then (case rx_match (Item Star p g # rs) cs of
              Some (m, rest) \<Rightarrow> Some ((g, c) # m, rest)
            | None \<Rightarrow> rx_match rs (c # cs))
      else rx_match rs (c # cs))"

fun rx_search :: "rx \<Rightarrow> string \<Rightarrow> (rx_tags \<times> string) option" where
  "rx_search r [] = rx_match r []"
| "rx_search r (c # cs) =
     (case rx_match r (c # cs) of Some x \<Rightarrow> Some x | None \<Rightarrow> rx_search r cs)"

text \<open>
  The iterator goes on behind the last match. Every pattern of the program consumes at
  least one character (\<open>rx_consuming\<close>), so the branch for an empty match is not reached.
\<close>

function rx_all :: "rx \<Rightarrow> string \<Rightarrow> rx_tags list" where
  "rx_all r s =
     (case rx_search r s of
        None \<Rightarrow> []
      | Some (m, rest) \<Rightarrow> if length rest < length s then m # rx_all r rest else [m])"
  by pat_completeness auto
termination
  by (relation "measure (\<lambda>(r, s). length s)") auto

declare rx_all.simps [simp del]

section \<open>What a pattern matches\<close>

inductive rx_lang :: "rx \<Rightarrow> rx_tags \<Rightarrow> bool" where
  lang_Nil: "rx_lang [] []"
| lang_Once: "p c \<Longrightarrow> rx_lang rs m \<Longrightarrow> rx_lang (Item Once p g # rs) ((g, c) # m)"
| lang_stop: "rx_lang rs m \<Longrightarrow> rx_lang (Item Star p g # rs) m"
| lang_more: "p c \<Longrightarrow> rx_lang (Item Star p g # rs) m \<Longrightarrow>
     rx_lang (Item Star p g # rs) ((g, c) # m)"

inductive_cases rx_lang_NilE: "rx_lang [] m"
inductive_cases rx_lang_OnceE: "rx_lang (Item Once p g # rs) m"
inductive_cases rx_lang_StarE: "rx_lang (Item Star p g # rs) m"

lemma rx_match_sound:
  "rx_match r s = Some (m, rest) \<Longrightarrow> rx_lang r m \<and> s = matched m @ rest"
proof (induction r s arbitrary: m rest rule: rx_match.induct)
  case (5 p g rs c cs)
  let ?more = "rx_match (Item Star p g # rs) cs"
  consider (more) m' rest' where "p c" "?more = Some (m', rest')"
    | (none) "p c" "?more = None" | (stop) "\<not> p c"
    by (cases ?more) auto
  then show ?case
  proof cases
    case more
    with 5 show ?thesis by (auto intro: rx_lang.intros)
  next
    case none
    with "5.prems" "5.IH"(2)[of m rest] show ?thesis by (auto intro: rx_lang.intros)
  next
    case stop
    with "5.prems" "5.IH"(3)[of m rest] show ?thesis by (auto intro: rx_lang.intros)
  qed
qed (auto intro: rx_lang.intros split: if_splits)

lemma rx_match_complete:
  "rx_lang r m \<Longrightarrow> rx_match r (matched m @ rest) \<noteq> None"
proof (induction r m rule: rx_lang.induct)
  case (lang_stop rs m p g)
  then show ?case
    by (cases "matched m @ rest") (auto split: option.splits)
qed (auto split: option.splits)

text \<open>A match at a position exists exactly if some prefix of the text is in the language.\<close>

lemma rx_match_None_iff:
  "rx_match r s = None \<longleftrightarrow> (\<forall>m rest. rx_lang r m \<longrightarrow> s \<noteq> matched m @ rest)"
proof
  show "rx_match r s = None \<Longrightarrow> \<forall>m rest. rx_lang r m \<longrightarrow> s \<noteq> matched m @ rest"
    using rx_match_complete by blast
  show "\<forall>m rest. rx_lang r m \<longrightarrow> s \<noteq> matched m @ rest \<Longrightarrow> rx_match r s = None"
    using rx_match_sound[of r s] by (cases "rx_match r s") auto
qed

lemma rx_search_sound:
  "rx_search r s = Some (m, rest) \<Longrightarrow> \<exists>pre. s = pre @ matched m @ rest \<and> rx_lang r m"
proof (induction s)
  case Nil
  then have "rx_match r [] = Some (m, rest)" by simp
  then show ?case using rx_match_sound by fastforce
next
  case (Cons c cs)
  show ?case
  proof (cases "rx_match r (c # cs)")
    case None
    with Cons obtain pre where "cs = pre @ matched m @ rest" "rx_lang r m" by auto
    then have "c # cs = (c # pre) @ matched m @ rest \<and> rx_lang r m" by simp
    then show ?thesis by blast
  next
    case (Some x)
    with Cons.prems have "rx_match r (c # cs) = Some (m, rest)" by simp
    from rx_match_sound[OF this] show ?thesis by (intro exI[of _ "[]"]) simp
  qed
qed

lemma rx_search_None_iff:
  "rx_search r s = None \<longleftrightarrow> (\<forall>pre m rest. rx_lang r m \<longrightarrow> s \<noteq> pre @ matched m @ rest)"
proof
  assume n: "rx_search r s = None"
  have "rx_match r v = None" if "s = u @ v" for u v
    using n that
  proof (induction s arbitrary: u)
    case Nil
    then show ?case by simp
  next
    case (Cons c cs)
    then show ?case by (cases u) (auto split: option.splits)
  qed
  then show "\<forall>pre m rest. rx_lang r m \<longrightarrow> s \<noteq> pre @ matched m @ rest"
    using rx_match_complete by blast
next
  assume none: "\<forall>pre m rest. rx_lang r m \<longrightarrow> s \<noteq> pre @ matched m @ rest"
  show "rx_search r s = None"
  proof (rule ccontr)
    assume "rx_search r s \<noteq> None"
    then obtain m rest where "rx_search r s = Some (m, rest)" by auto
    from rx_search_sound[OF this] none show False by blast
  qed
qed

text \<open>Patterns that never match the empty text.\<close>

definition rx_consuming :: "rx \<Rightarrow> bool" where
  "rx_consuming r \<longleftrightarrow> (\<exists>i \<in> set r. case i of Item q p g \<Rightarrow> q = Once)"

lemma rx_lang_consuming: "rx_lang r m \<Longrightarrow> rx_consuming r \<Longrightarrow> m \<noteq> []"
  by (induction rule: rx_lang.induct) (auto simp: rx_consuming_def)

lemma rx_search_shrinks:
  "rx_search r s = Some (m, rest) \<Longrightarrow> rx_consuming r \<Longrightarrow> length rest < length s"
  using rx_search_sound[of r s m rest] rx_lang_consuming[of r m] by auto

lemma rx_all_unfold:
  "rx_consuming r \<Longrightarrow> rx_all r s =
     (case rx_search r s of None \<Rightarrow> [] | Some (m, rest) \<Rightarrow> m # rx_all r rest)"
  using rx_search_shrinks[of r s]
  by (subst rx_all.simps) (auto split: option.splits)

lemma rx_all_lang: "m \<in> set (rx_all r s) \<Longrightarrow> rx_lang r m"
proof (induction r s rule: rx_all.induct)
  case (1 r s)
  show ?case
  proof (cases "rx_search r s")
    case None
    with "1.prems" show ?thesis by (simp add: rx_all.simps[of r s])
  next
    case (Some x)
    obtain m' rest where x: "x = (m', rest)" by (cases x)
    from Some x rx_search_sound[of r s m' rest] have "rx_lang r m'" by auto
    moreover from "1.prems" Some x have "m = m' \<or> (length rest < length s \<and> m \<in> set (rx_all r rest))"
      by (auto simp: rx_all.simps[of r s] split: if_splits)
    ultimately show ?thesis using "1.IH"[OF Some x[symmetric]] by auto
  qed
qed

text \<open>
  The matches are disjoint pieces of the text, in order: the text is junk, match, junk,
  match, and so on, where the junk after the last match holds no further match.
\<close>

fun interleave :: "string list \<Rightarrow> rx_tags list \<Rightarrow> string" where
  "interleave (j # js) (m # ms) = j @ matched m @ interleave js ms"
| "interleave (j # js) [] = j"
| "interleave [] ms = []"

lemma rx_all_decompose:
  assumes "rx_consuming r"
  shows "\<exists>js. length js = Suc (length (rx_all r s)) \<and> s = interleave js (rx_all r s)
    \<and> rx_search r (last js) = None"
proof (induction s rule: length_induct)
  case (1 s)
  show ?case
  proof (cases "rx_search r s")
    case None
    then show ?thesis
      by (intro exI[of _ "[s]"]) (simp add: rx_all_unfold[OF assms])
  next
    case (Some x)
    obtain m rest where x: "x = (m, rest)" by (cases x)
    from rx_search_shrinks[of r s m rest] 1 assms Some x obtain js where
      js: "length js = Suc (length (rx_all r rest))" "rest = interleave js (rx_all r rest)"
        "rx_search r (last js) = None" by auto
    from rx_search_sound[of r s m rest] Some x obtain pre where
      pre: "s = pre @ matched m @ rest" by auto
    from js(1) have "js \<noteq> []" by auto
    have "interleave (pre # js) (m # rx_all r rest) = pre @ matched m @ interleave js (rx_all r rest)"
      by simp
    also have "\<dots> = s" using js(2) pre by simp
    finally have "s = interleave (pre # js) (rx_all r s)"
      using Some x by (simp add: rx_all_unfold[OF assms, of s])
    moreover have "length (pre # js) = Suc (length (rx_all r s))"
      using js(1) Some x by (simp add: rx_all_unfold[OF assms, of s])
    moreover have "rx_search r (last (pre # js)) = None"
      using js(3) \<open>js \<noteq> []\<close> by simp
    ultimately show ?thesis by blast
  qed
qed

section \<open>Computing matches\<close>

text \<open>A greedy repetition takes the longest run when the rest matches behind it.\<close>

lemma rx_match_star:
  assumes "\<forall>c \<in> set u. p c" "v = [] \<or> \<not> p (hd v)" "rx_match rs v = Some (m, rest)"
  shows "rx_match (Item Star p g # rs) (u @ v) = Some (map (Pair g) u @ m, rest)"
  using assms(1)
proof (induction u)
  case Nil
  show ?case using assms(2,3) by (cases v) auto
qed auto

lemma rx_match_plus:
  assumes "u \<noteq> []" "\<forall>c \<in> set u. p c" "v = [] \<or> \<not> p (hd v)" "rx_match rs v = Some (m, rest)"
  shows "rx_match (rx_plus p g @ rs) (u @ v) = Some (map (Pair g) u @ m, rest)"
proof -
  obtain c cs where u: "u = c # cs" using assms(1) by (cases u) auto
  with assms rx_match_star[of cs p v rs m rest g] show ?thesis
    by (simp add: rx_plus_def)
qed

lemma rx_match_lit [simp]:
  "rx_match (rx_lit d g # rs) (c # cs) =
     (if c = d then map_option (apfst (Cons (g, c))) (rx_match rs cs) else None)"
  "rx_match (rx_lit d g # rs) [] = None"
  by (simp_all add: rx_lit_def)

text \<open>Characters that cannot start a match are skipped.\<close>

definition rx_starts :: "rx \<Rightarrow> (char \<Rightarrow> bool) \<Rightarrow> bool" where
  "rx_starts r p \<longleftrightarrow> (\<exists>g rs. r = Item Once p g # rs)"

lemma rx_starts_consuming: "rx_starts r p \<Longrightarrow> rx_consuming r"
  by (auto simp: rx_starts_def rx_consuming_def)

lemma rx_starts_lit [simp]: "rx_starts (rx_lit d g # rs) (\<lambda>c. c = d)"
  by (auto simp: rx_starts_def rx_lit_def)

lemma rx_starts_plus [simp]: "rx_starts (rx_plus p g @ rs) p"
  by (auto simp: rx_starts_def rx_plus_def)

lemma rx_all_Nil [simp]: "rx_starts r p \<Longrightarrow> rx_all r [] = []"
  by (auto simp: rx_starts_def rx_all.simps)

lemma rx_all_no_match:
  "rx_consuming r \<Longrightarrow> rx_match r (c # cs) = None \<Longrightarrow> rx_all r (c # cs) = rx_all r cs"
  by (simp add: rx_all_unfold)

lemma rx_all_junk:
  assumes "rx_starts r p" "\<not> p c"
  shows "rx_all r (c # cs) = rx_all r cs"
proof -
  from assms have "rx_match r (c # cs) = None" by (auto simp: rx_starts_def)
  with assms show ?thesis by (simp add: rx_all_no_match rx_starts_consuming)
qed

lemma rx_all_match:
  assumes "rx_consuming r" "rx_match r s = Some (m, rest)"
  shows "rx_all r s = m # rx_all r rest"
  using assms by (cases s) (simp_all add: rx_all_unfold[of r])

section \<open>Reading back a printed sequence\<close>

text \<open>
  The interface between a scanner built on \<open>rx_all\<close> and the texts it has to read: what it
  skips, and how it reads one printed token. A scanner with these laws reads back every
  sequence of tokens printed with a separator.
\<close>

fun sep_concat :: "string \<Rightarrow> string list \<Rightarrow> string" where
  "sep_concat sep [] = []"
| "sep_concat sep [x] = x"
| "sep_concat sep (x # y # xs) = x @ sep @ sep_concat sep (y # xs)"

locale token_scanner =
  fixes scan :: "string \<Rightarrow> 't list"
    and junk :: "char \<Rightarrow> bool"
    and print :: "'a \<Rightarrow> string"
    and token :: "'a \<Rightarrow> 't"
    and valid :: "'a \<Rightarrow> bool"
    and follow :: "string \<Rightarrow> bool"
  assumes scan_Nil: "scan [] = []"
    and scan_junk: "junk c \<Longrightarrow> scan (c # s) = scan s"
    and scan_token: "valid a \<Longrightarrow> follow s \<Longrightarrow> scan (print a @ s) = token a # scan s"
begin

lemma scan_skip: "\<forall>c \<in> set u. junk c \<Longrightarrow> scan (u @ s) = scan s"
  by (induction u) (auto simp: scan_junk)

lemma scan_skip_all: "\<forall>c \<in> set u. junk c \<Longrightarrow> scan u = []"
  using scan_skip[of u "[]"] scan_Nil by simp

lemma scan_sequence:
  assumes "\<forall>x \<in> set xs. valid x" "\<forall>c \<in> set sep. junk c" "\<forall>c \<in> set tail. junk c"
    and "\<And>s. follow (sep @ s)" "follow tail"
  shows "scan (sep_concat sep (map print xs) @ tail) = map token xs"
  using assms(1)
proof (induction xs rule: induct_list012)
  case 1
  show ?case using assms(3) by (simp add: scan_skip_all)
next
  case (2 x)
  then show ?case using assms(3,5) by (simp add: scan_token scan_skip_all)
next
  case (3 x y zs)
  then show ?case using assms(2,4) by (simp add: scan_token scan_skip)
qed

end

end
