(* ===== verification/Json.thy ===== *)
theory Json
  imports Std_String
begin

text \<open>
  The JSON library is not part of the repository (\<open>cmake/ExternalDependencies.cmake\<close> fetches
  \<open>nlohmann::json\<close>), so the model takes it as a parameter: a record with one field per library
  function the sources call, over an abstract type \<open>'j\<close> of JSON values. A failing call
  returns \<open>Inl\<close> of the exception's text; \<open>jx\<close> turns it into the exception.
  \<open>json_laws\<close> collects what the library's documentation promises and the theorems need.
\<close>

section \<open>The library's interface\<close>

record 'j json_api =
  j_accept :: "string \<Rightarrow> bool"
  j_parse :: "string \<Rightarrow> string + 'j"
  j_dump :: "'j \<Rightarrow> string + string"
  j_str :: "string \<Rightarrow> 'j"
  j_uint :: "u32 \<Rightarrow> 'j"
  j_bool :: "bool \<Rightarrow> 'j"
  j_array :: "'j list \<Rightarrow> 'j"
  j_object :: "(string \<times> 'j) list \<Rightarrow> 'j"
  j_is_object :: "'j \<Rightarrow> bool"
  j_is_array :: "'j \<Rightarrow> bool"
  j_is_string :: "'j \<Rightarrow> bool"
  j_is_number :: "'j \<Rightarrow> bool"
  j_find :: "'j \<Rightarrow> string \<Rightarrow> 'j option"
  j_contains :: "'j \<Rightarrow> string \<Rightarrow> bool"
  j_index :: "'j \<Rightarrow> string \<Rightarrow> string + 'j"
  j_at :: "'j \<Rightarrow> string \<Rightarrow> string + 'j"
  j_get_string :: "'j \<Rightarrow> string + string"
  j_get_ref_string :: "'j \<Rightarrow> string + string"
  j_get_unsigned :: "'j \<Rightarrow> string + u32"
  j_value_string :: "'j \<Rightarrow> string \<Rightarrow> string \<Rightarrow> string + string"
  j_value_bool :: "'j \<Rightarrow> string \<Rightarrow> bool \<Rightarrow> string + bool"
  j_value_int :: "'j \<Rightarrow> string \<Rightarrow> int \<Rightarrow> string + int"
  j_elems :: "'j \<Rightarrow> 'j list"
  j_items :: "'j \<Rightarrow> (string \<times> 'j) list"

text \<open>All exceptions of the library derive from \<open>nlohmann::json::exception\<close>.\<close>

definition jx :: "string + 'a \<Rightarrow> 'a result" where
  "jx r = (case r of Inl m \<Rightarrow> Inl (Json_exn m) | Inr a \<Rightarrow> Inr a)"

lemma jx_simps [simp]:
  "jx (Inl m) = Inl (Json_exn m)"
  "jx (Inr a) = Inr a"
  by (simp_all add: jx_def)

lemma jx_Inl_iff [simp]: "jx r = Inl e \<longleftrightarrow> (\<exists>m. r = Inl m \<and> e = Json_exn m)"
  by (cases r) auto

lemma jx_Inr_iff [simp]: "jx r = Inr a \<longleftrightarrow> r = Inr a"
  by (cases r) auto

section \<open>Documented behaviour\<close>

text \<open>
  \<open>accept\<close> says whether \<open>parse\<close> succeeds; \<open>contains\<close>, \<open>[]\<close> and \<open>at\<close> agree with \<open>find\<close>;
  \<open>is_string\<close> says whether the value can be read as a string; \<open>value\<close> reads an object's
  member or gives the default, and throws on anything that is not an object; what is built
  from a value or an initializer list reads back, and \<open>items\<close> visits each member of an object once, in
  an order that is not relied on.
\<close>

definition json_text_laws :: "'j json_api \<Rightarrow> bool" where
  "json_text_laws J \<longleftrightarrow> (\<forall>t. j_accept J t \<longleftrightarrow> (\<exists>v. j_parse J t = Inr v))"

definition json_member_laws :: "'j json_api \<Rightarrow> bool" where
  "json_member_laws J \<longleftrightarrow> (\<forall>v k.
     (j_contains J v k \<longleftrightarrow> j_find J v k \<noteq> None) \<and>
     (\<forall>x. j_find J v k = Some x \<longrightarrow> j_index J v k = Inr x \<and> j_at J v k = Inr x) \<and>
     (j_find J v k = None \<longrightarrow> (\<exists>m. j_at J v k = Inl m)))"

definition json_string_laws :: "'j json_api \<Rightarrow> bool" where
  "json_string_laws J \<longleftrightarrow> (\<forall>v.
     (j_is_string J v \<longleftrightarrow> (\<exists>s. j_get_string J v = Inr s)) \<and>
     (\<forall>s. j_get_string J v = Inr s \<longleftrightarrow> j_get_ref_string J v = Inr s))"

definition json_value_laws :: "'j json_api \<Rightarrow> bool" where
  "json_value_laws J \<longleftrightarrow> (\<forall>v k s b i.
     (if j_is_object J v then
        (case j_find J v k of
           None \<Rightarrow> j_value_string J v k s = Inr s \<and> j_value_bool J v k b = Inr b \<and>
             j_value_int J v k i = Inr i
         | Some x \<Rightarrow> j_value_string J v k s = j_get_string J x \<and>
             (\<forall>c. x = j_bool J c \<longrightarrow> j_value_bool J v k b = Inr c))
      else (\<exists>m. j_value_string J v k s = Inl m) \<and> (\<exists>m. j_value_bool J v k b = Inl m) \<and>
        (\<exists>m. j_value_int J v k i = Inl m)))"

definition json_build_laws :: "'j json_api \<Rightarrow> bool" where
  "json_build_laws J \<longleftrightarrow>
     (\<forall>s. j_get_string J (j_str J s) = Inr s) \<and>
     (\<forall>n. j_is_number J (j_uint J n) \<and> j_get_unsigned J (j_uint J n) = Inr n) \<and>
     (\<forall>xs. j_is_array J (j_array J xs) \<and> j_elems J (j_array J xs) = xs) \<and>
     (\<forall>kvs. distinct (map fst kvs) \<longrightarrow>
        j_is_object J (j_object J kvs) \<and> (\<forall>k. j_find J (j_object J kvs) k = map_of kvs k) \<and>
        set (j_items J (j_object J kvs)) = set kvs \<and> distinct (map fst (j_items J (j_object J kvs))))"

definition json_laws :: "'j json_api \<Rightarrow> bool" where
  "json_laws J \<longleftrightarrow> json_text_laws J \<and> json_member_laws J \<and> json_string_laws J \<and>
     json_value_laws J \<and> json_build_laws J"

lemma json_accept: "json_laws J \<Longrightarrow> j_accept J t \<longleftrightarrow> (\<exists>v. j_parse J t = Inr v)"
  by (simp add: json_laws_def json_text_laws_def)

lemma json_member:
  assumes "json_laws J"
  shows json_contains: "j_contains J v k \<longleftrightarrow> j_find J v k \<noteq> None"
    and json_index: "j_find J v k = Some x \<Longrightarrow> j_index J v k = Inr x"
    and json_at: "j_find J v k = Some x \<Longrightarrow> j_at J v k = Inr x"
    and json_at_missing: "j_find J v k = None \<Longrightarrow> \<exists>m. j_at J v k = Inl m"
  using assms by (simp_all add: json_laws_def json_member_laws_def)

lemma json_is_string: "json_laws J \<Longrightarrow> j_is_string J v \<longleftrightarrow> (\<exists>s. j_get_string J v = Inr s)"
  by (simp add: json_laws_def json_string_laws_def)

lemma json_get_ref: "json_laws J \<Longrightarrow> j_get_ref_string J v = Inr s \<longleftrightarrow> j_get_string J v = Inr s"
  by (simp add: json_laws_def json_string_laws_def)

lemma json_value:
  assumes "json_laws J" "j_is_object J v"
  shows json_value_string: "j_find J v k = Some x \<Longrightarrow> j_value_string J v k s = j_get_string J x"
    and json_value_bool: "j_find J v k = Some (j_bool J c) \<Longrightarrow> j_value_bool J v k b = Inr c"
    and json_default_string: "j_find J v k = None \<Longrightarrow> j_value_string J v k s = Inr s"
    and json_default_bool: "j_find J v k = None \<Longrightarrow> j_value_bool J v k b = Inr b"
    and json_default_int: "j_find J v k = None \<Longrightarrow> j_value_int J v k i = Inr i"
proof -
  from assms have l: "case j_find J v k of
       None \<Rightarrow> j_value_string J v k s = Inr s \<and> j_value_bool J v k b = Inr b \<and>
         j_value_int J v k i = Inr i
     | Some x \<Rightarrow> j_value_string J v k s = j_get_string J x \<and>
         (\<forall>c. x = j_bool J c \<longrightarrow> j_value_bool J v k b = Inr c)" for s b i
    unfolding json_laws_def json_value_laws_def by presburger
  show "j_find J v k = Some x \<Longrightarrow> j_value_string J v k s = j_get_string J x"
    "j_find J v k = Some (j_bool J c) \<Longrightarrow> j_value_bool J v k b = Inr c"
    "j_find J v k = None \<Longrightarrow> j_value_string J v k s = Inr s"
    "j_find J v k = None \<Longrightarrow> j_value_bool J v k b = Inr b"
    "j_find J v k = None \<Longrightarrow> j_value_int J v k i = Inr i"
    using l[of s b i] by simp_all
qed

lemma json_value_non_object:
  assumes "json_laws J" "\<not> j_is_object J v"
  shows "\<exists>m. j_value_string J v k s = Inl m"
  using assms unfolding json_laws_def json_value_laws_def by presburger

lemma json_build:
  assumes "json_laws J"
  shows json_str: "j_get_string J (j_str J s) = Inr s"
    and json_uint_number: "j_is_number J (j_uint J n)"
    and json_uint: "j_get_unsigned J (j_uint J n) = Inr n"
    and json_is_array: "j_is_array J (j_array J xs)"
    and json_array: "j_elems J (j_array J xs) = xs"
    and json_object: "distinct (map fst kvs) \<Longrightarrow> j_is_object J (j_object J kvs)"
    and json_object_find: "distinct (map fst kvs) \<Longrightarrow> j_find J (j_object J kvs) k = map_of kvs k"
    and json_object_items: "distinct (map fst kvs) \<Longrightarrow> set (j_items J (j_object J kvs)) = set kvs"
    and json_object_once: "distinct (map fst kvs) \<Longrightarrow> distinct (map fst (j_items J (j_object J kvs)))"
  using assms by (simp_all add: json_laws_def json_build_laws_def)

lemma json_str_is_string: "json_laws J \<Longrightarrow> j_is_string J (j_str J s)"
  by (simp add: json_is_string json_str)

lemma json_str_get_ref: "json_laws J \<Longrightarrow> j_get_ref_string J (j_str J s) = Inr s"
  by (simp add: json_get_ref json_str)

section \<open>A concrete instance\<close>

text \<open>
  A small instance of the interface, used only to show that the laws can hold and to run the
  model on concrete inputs: JSON values as a datatype, and a finite table of the texts that
  parse.
\<close>

datatype jv =
    JNull
  | JBool bool
  | JNum int
  | JStr string
  | JArr "jv list"
  | JObj "(string \<times> jv) list"

fun jv_find :: "jv \<Rightarrow> string \<Rightarrow> jv option" where
  "jv_find (JObj kvs) k = map_of kvs k"
| "jv_find _ k = None"

fun jv_is_object :: "jv \<Rightarrow> bool" where
  "jv_is_object (JObj kvs) = True"
| "jv_is_object _ = False"

fun jv_is_array :: "jv \<Rightarrow> bool" where
  "jv_is_array (JArr xs) = True"
| "jv_is_array _ = False"

fun jv_is_number :: "jv \<Rightarrow> bool" where
  "jv_is_number (JNum i) = True"
| "jv_is_number _ = False"

fun jv_is_string :: "jv \<Rightarrow> bool" where
  "jv_is_string (JStr s) = True"
| "jv_is_string _ = False"

fun jv_string :: "jv \<Rightarrow> string + string" where
  "jv_string (JStr s) = Inr s"
| "jv_string _ = Inl ''type_error.302''"

fun jv_bool :: "jv \<Rightarrow> string + bool" where
  "jv_bool (JBool b) = Inr b"
| "jv_bool _ = Inl ''type_error.302''"

fun jv_int :: "jv \<Rightarrow> string + int" where
  "jv_int (JNum i) = Inr i"
| "jv_int _ = Inl ''type_error.302''"

fun jv_elems :: "jv \<Rightarrow> jv list" where
  "jv_elems JNull = []"
| "jv_elems (JArr xs) = xs"
| "jv_elems (JObj kvs) = map snd kvs"
| "jv_elems v = [v]"

fun jv_items :: "jv \<Rightarrow> (string \<times> jv) list" where
  "jv_items JNull = []"
| "jv_items (JArr xs) = map (\<lambda>i. (nat_digits i, xs ! i)) [0..<length xs]"
| "jv_items (JObj kvs) = kvs"
| "jv_items v = [('''', v)]"

definition jv_member :: "jv \<Rightarrow> string \<Rightarrow> string + jv" where
  "jv_member v k = (case jv_find v k of None \<Rightarrow> Inl ''out_of_range.403'' | Some x \<Rightarrow> Inr x)"

definition jv_value :: "(jv \<Rightarrow> string + 'a) \<Rightarrow> jv \<Rightarrow> string \<Rightarrow> 'a \<Rightarrow> string + 'a" where
  "jv_value get v k d =
     (if jv_is_object v then (case jv_find v k of None \<Rightarrow> Inr d | Some x \<Rightarrow> get x)
      else Inl ''type_error.306'')"

definition ref_json :: "(string \<times> jv) list \<Rightarrow> jv json_api" where
  "ref_json tbl = \<lparr>
     j_accept = (\<lambda>t. map_of tbl t \<noteq> None),
     j_parse = (\<lambda>t. case map_of tbl t of None \<Rightarrow> Inl ''parse_error.101'' | Some v \<Rightarrow> Inr v),
     j_dump = (\<lambda>v. case map_of (map (\<lambda>(t, v). (v, t)) tbl) v of
         None \<Rightarrow> Inl ''type_error.316'' | Some t \<Rightarrow> Inr t),
     j_str = JStr,
     j_uint = (\<lambda>n. JNum (uint n)),
     j_bool = JBool,
     j_array = JArr,
     j_object = JObj,
     j_is_object = jv_is_object,
     j_is_array = jv_is_array,
     j_is_string = jv_is_string,
     j_is_number = jv_is_number,
     j_find = jv_find,
     j_contains = (\<lambda>v k. jv_find v k \<noteq> None),
     j_index = jv_member,
     j_at = jv_member,
     j_get_string = jv_string,
     j_get_ref_string = jv_string,
     j_get_unsigned = (\<lambda>v. case jv_int v of Inl m \<Rightarrow> Inl m | Inr i \<Rightarrow> Inr (word_of_int i)),
     j_value_string = jv_value jv_string,
     j_value_bool = jv_value jv_bool,
     j_value_int = jv_value jv_int,
     j_elems = jv_elems,
     j_items = jv_items\<rparr>"

lemma jv_is_string_iff: "jv_is_string v \<longleftrightarrow> (\<exists>s. jv_string v = Inr s)"
  by (cases v) auto

lemma ref_json_dump:
  "j_dump (ref_json tbl) v =
     (case map_of (map (\<lambda>(t, v). (v, t)) tbl) v of None \<Rightarrow> Inl ''type_error.316'' | Some t \<Rightarrow> Inr t)"
  by (simp add: ref_json_def)

lemma ref_json_simps [simp]:
  "j_accept (ref_json tbl) t \<longleftrightarrow> map_of tbl t \<noteq> None"
  "j_parse (ref_json tbl) t =
     (case map_of tbl t of None \<Rightarrow> Inl ''parse_error.101'' | Some v \<Rightarrow> Inr v)"
  "j_str (ref_json tbl) = JStr"
  "j_uint (ref_json tbl) n = JNum (uint n)"
  "j_bool (ref_json tbl) = JBool"
  "j_array (ref_json tbl) = JArr"
  "j_object (ref_json tbl) = JObj"
  "j_is_object (ref_json tbl) = jv_is_object"
  "j_is_array (ref_json tbl) = jv_is_array"
  "j_is_string (ref_json tbl) = jv_is_string"
  "j_is_number (ref_json tbl) = jv_is_number"
  "j_find (ref_json tbl) = jv_find"
  "j_contains (ref_json tbl) v k \<longleftrightarrow> jv_find v k \<noteq> None"
  "j_index (ref_json tbl) = jv_member"
  "j_at (ref_json tbl) = jv_member"
  "j_get_string (ref_json tbl) = jv_string"
  "j_get_ref_string (ref_json tbl) = jv_string"
  "j_get_unsigned (ref_json tbl) v =
     (case jv_int v of Inl m \<Rightarrow> Inl m | Inr i \<Rightarrow> Inr (word_of_int i))"
  "j_value_string (ref_json tbl) = jv_value jv_string"
  "j_value_bool (ref_json tbl) = jv_value jv_bool"
  "j_value_int (ref_json tbl) = jv_value jv_int"
  "j_elems (ref_json tbl) = jv_elems"
  "j_items (ref_json tbl) = jv_items"
  by (simp_all add: ref_json_def)

lemma ref_json_laws: "json_laws (ref_json tbl)"
proof -
  have "json_text_laws (ref_json tbl)"
    by (simp add: json_text_laws_def split: option.splits)
  moreover have "json_member_laws (ref_json tbl)"
    by (simp add: json_member_laws_def jv_member_def)
  moreover have "json_string_laws (ref_json tbl)"
    by (simp add: json_string_laws_def jv_is_string_iff)
  moreover have "json_value_laws (ref_json tbl)"
    by (simp add: json_value_laws_def jv_value_def split: option.splits)
  moreover have "json_build_laws (ref_json tbl)"
    by (simp add: json_build_laws_def)
  ultimately show ?thesis by (simp add: json_laws_def)
qed

lemmas jv_simps = jv_member_def jv_value_def

end
