(* ===== verification/Resource.thy ===== *)
theory Resource
  imports Regex Json
begin

text \<open>
  \<open>include/mqss/resource.h\<close> and \<open>src/resource.cpp\<close>: the classes \<open>Gate\<close> and \<open>Resource\<close>, and how
  a \<open>Resource\<close> is built from a JSON value. The server sends the coupling map and the gate set as
  the Python text of a list; the code picks them apart with regular expressions.
\<close>

section \<open>Data\<close>

record gate =
  gate_mName :: string
  gate_mQubitNumber :: u32
  gate_mParameterNumber :: u32
  gate_mSupportedQubits :: "u32 list list"

record resource =
  res_mName :: string
  res_mQubitCount :: u32
  res_mOnline :: bool
  res_mCouplingMap :: "int list list"
  res_mNativeGateset :: "gate list"

section \<open>The coupling map\<close>

text \<open>The pattern \<^verbatim>\<open>\[(\d+),\s*(\d+)\]\<close>.\<close>

definition coupling_re :: rx where
  "coupling_re =
     rx_lit CHR ''['' 0 # rx_plus is_digit 1 @
     rx_lit CHR '','' 0 # Item Star is_space 0 # rx_plus is_digit 2 @
     [rx_lit CHR '']'' 0]"

definition coupling_pair :: "rx_tags \<Rightarrow> int list result" where
  "coupling_pair m =
     bind_sum (stoi (capture 1 m)) (\<lambda>a.
     bind_sum (stoi (capture 2 m)) (\<lambda>b. Inr [a, b]))"

definition extractCouplingMap :: "'j json_api \<Rightarrow> 'j \<Rightarrow> string \<Rightarrow> int list list result" where
  "extractCouplingMap J response key =
     (case j_find J response key of
        None \<Rightarrow> Inr []
      | Some it \<Rightarrow>
          if \<not> j_is_string J it then Inr []
          else bind_sum (jx (j_get_ref_string J it)) (\<lambda>text.
            if text = ''None'' then Inr []
            else mapE coupling_pair (rx_all coupling_re text)))"

section \<open>The gate set\<close>

definition getGateProterties :: "string \<Rightarrow> (u32 \<times> u32) result" where
  "getGateProterties gateName =
     (if gateName = ''cz'' then Inr (2, 0)
      else if gateName = ''measure'' then Inr (1, 0)
      else if gateName = ''id'' then Inr (1, 0)
      else if gateName = ''r'' then Inr (1, 2)
      else if gateName = ''rx'' then Inr (1, 1)
      else if gateName = ''rz'' then Inr (1, 1)
      else if gateName = ''rxx'' then Inr (2, 1)
      else if gateName = ''if_else'' then Inr (1, 0)
      else if gateName = ''reset'' then Inr (1, 0)
      else if gateName = ''swap'' then Inr (2, 0)
      else Inl (Invalid_argument (''Unknown Gate: '' @ gateName)))"

definition is_quote :: "char \<Rightarrow> bool" where
  "is_quote c \<longleftrightarrow> c = CHR 0x27 \<or> c = CHR 0x22"

definition not_brace :: "char \<Rightarrow> bool" where
  "not_brace c \<longleftrightarrow> c \<noteq> CHR ''{'' \<and> c \<noteq> CHR ''}''"

text \<open>The pattern \<^verbatim>\<open>\(\s*['"]([^'"]+)['"]\s*,\s*(\{[^{}]*\})\s*\)\<close>.\<close>

definition gate_re :: rx where
  "gate_re =
     rx_lit CHR ''('' 0 # Item Star is_space 0 # Item Once is_quote 0 #
     rx_plus (\<lambda>c. \<not> is_quote c) 1 @
     Item Once is_quote 0 # Item Star is_space 0 # rx_lit CHR '','' 0 # Item Star is_space 0 #
     rx_lit CHR ''{'' 2 # Item Star not_brace 2 # rx_lit CHR ''}'' 2 #
     Item Star is_space 0 # [rx_lit CHR '')'' 0]"

text \<open>The pattern \<^verbatim>\<open>([^)]*)\)\s*:\s*None\<close>.\<close>

definition tuple_re :: rx where
  "tuple_re =
     Item Star (\<lambda>c. c \<noteq> CHR '')'') 1 # rx_lit CHR '')'' 0 #
     Item Star is_space 0 # rx_lit CHR '':'' 0 # Item Star is_space 0 #
     map (\<lambda>c. rx_lit c 0) ''None''"

text \<open>The pattern \<^verbatim>\<open>\d+\<close>.\<close>

definition number_re :: rx where
  "number_re = rx_plus is_digit 0"

definition tuple_qubits :: "string \<Rightarrow> u32 list result" where
  "tuple_qubits tupleText =
     mapE (\<lambda>k. bind_sum (stoi (matched k)) (\<lambda>i. Inr (word_of_int i)))
       (rx_all number_re tupleText)"

definition body_tuples :: "string \<Rightarrow> u32 list list result" where
  "body_tuples body = mapE (\<lambda>j. tuple_qubits (capture 1 j)) (rx_all tuple_re body)"

text \<open>
  The loop over the gates. \<open>supportedQubits\<close> is declared outside of it; it is moved into the
  new gate, which leaves it empty for the next turn.
\<close>

fun extractGates_loop :: "rx_tags list \<Rightarrow> u32 list list \<Rightarrow> gate list result" where
  "extractGates_loop [] supportedQubits = Inr []"
| "extractGates_loop (m # ms) supportedQubits =
     (let gateName = capture 1 m; body = capture 2 m in
      bind_sum (body_tuples body) (\<lambda>qs.
      bind_sum (getGateProterties gateName) (\<lambda>(qubitCount, parameterNumber).
      bind_sum (extractGates_loop ms []) (\<lambda>gs.
        Inr (\<lparr>gate_mName = gateName, gate_mQubitNumber = qubitCount,
              gate_mParameterNumber = parameterNumber,
              gate_mSupportedQubits = supportedQubits @ qs\<rparr> # gs)))))"

definition extractGates :: "'j json_api \<Rightarrow> 'j \<Rightarrow> string \<Rightarrow> gate list result" where
  "extractGates J response key =
     (case j_find J response key of
        None \<Rightarrow> Inr []
      | Some it \<Rightarrow>
          if \<not> j_is_string J it then Inr []
          else bind_sum (jx (j_get_ref_string J it)) (\<lambda>text.
            if text = ''None'' then Inr []
            else extractGates_loop (rx_all gate_re text) []))"

section \<open>A resource from JSON\<close>

definition json_qubits :: "'j json_api \<Rightarrow> 'j \<Rightarrow> u32 result" where
  "json_qubits J json =
     (if j_contains J json ''qubits'' then
        bind_sum (jx (j_index J json ''qubits'')) (\<lambda>q.
          if j_is_number J q then jx (j_get_unsigned J q) else Inr 0)
      else Inr 0)"

text \<open>The constructor from members, and the one from JSON.\<close>

definition Resource_members :: "string \<Rightarrow> u32 \<Rightarrow> bool \<Rightarrow> int list list \<Rightarrow> gate list \<Rightarrow> resource" where
  "Resource_members name qubitCount online couplingMap nativeGateset =
     \<lparr>res_mName = name, res_mQubitCount = qubitCount, res_mOnline = online,
      res_mCouplingMap = couplingMap, res_mNativeGateset = nativeGateset\<rparr>"

definition Resource_json :: "'j json_api \<Rightarrow> 'j \<Rightarrow> resource result" where
  "Resource_json J json =
     bind_sum (jx (j_value_string J json ''name'' '''')) (\<lambda>name.
     bind_sum (json_qubits J json) (\<lambda>qubitCount.
     bind_sum (jx (j_value_bool J json ''online'' False)) (\<lambda>online.
     bind_sum (extractCouplingMap J json ''connectivity'') (\<lambda>couplingMap.
     bind_sum (extractGates J json ''instructions'') (\<lambda>nativeGateset.
       Inr \<lparr>res_mName = name, res_mQubitCount = qubitCount, res_mOnline = online,
            res_mCouplingMap = couplingMap, res_mNativeGateset = nativeGateset\<rparr>)))))"

section \<open>Every operation, every error\<close>

text \<open>The gate table: the ten known names, and nothing else.\<close>

definition known_gates :: "(string \<times> u32 \<times> u32) list" where
  "known_gates =
     [(''cz'', 2, 0), (''measure'', 1, 0), (''id'', 1, 0), (''r'', 1, 2), (''rx'', 1, 1),
      (''rz'', 1, 1), (''rxx'', 2, 1), (''if_else'', 1, 0), (''reset'', 1, 0), (''swap'', 2, 0)]"

lemma getGateProterties_table:
  "getGateProterties g =
     (case map_of known_gates g of
        Some p \<Rightarrow> Inr p
      | None \<Rightarrow> Inl (Invalid_argument (''Unknown Gate: '' @ g)))"
  by (simp add: getGateProterties_def known_gates_def)

lemma getGateProterties_known: "getGateProterties g = Inr p \<Longrightarrow> (g, p) \<in> set known_gates"
  by (auto simp: getGateProterties_table dest: map_of_SomeD split: option.splits)

lemma getGateProterties_error:
  "getGateProterties g = Inl e \<Longrightarrow> e = Invalid_argument (''Unknown Gate: '' @ g)"
  by (auto simp: getGateProterties_table split: option.splits)

lemma known_gate_names: "(g, p) \<in> set known_gates \<Longrightarrow> g \<noteq> [] \<and> (\<forall>c \<in> set g. \<not> is_quote c)"
  by (auto simp: known_gates_def is_quote_def)

lemma extractGates_loop_mapE:
  "extractGates_loop ms [] =
     mapE (\<lambda>m. bind_sum (body_tuples (capture 2 m)) (\<lambda>qs.
        bind_sum (getGateProterties (capture 1 m)) (\<lambda>(q, p).
          Inr \<lparr>gate_mName = capture 1 m, gate_mQubitNumber = q, gate_mParameterNumber = p,
               gate_mSupportedQubits = qs\<rparr>))) ms"
proof (induction ms)
  case (Cons m ms)
  then show ?case
    by (cases "body_tuples (capture 2 m)"; cases "getGateProterties (capture 1 m)")
      (auto simp: Let_def)
qed simp

text \<open>
  The exceptions parsing a resource can end in: a number out of range, an unknown gate, or a
  JSON exception.
\<close>

definition parse_error :: "exn \<Rightarrow> bool" where
  "parse_error e \<longleftrightarrow>
     e = Invalid_argument ''stoi'' \<or> e = Out_of_range ''stoi'' \<or>
     (\<exists>g. e = Invalid_argument (''Unknown Gate: '' @ g)) \<or> (\<exists>m. e = Json_exn m)"

lemma parse_error_not_runtime: "parse_error e \<Longrightarrow> \<not> is_runtime_error e"
  by (auto simp: parse_error_def)

lemma parse_error_json [simp]: "parse_error (Json_exn m)"
  by (simp add: parse_error_def)

lemma coupling_pair_error: "coupling_pair m = Inl e \<Longrightarrow> parse_error e"
  by (auto simp: coupling_pair_def sum_simps parse_error_def dest: stoi_errors)

lemma extractCouplingMap_error: "extractCouplingMap J v k = Inl e \<Longrightarrow> parse_error e"
  by (auto simp: extractCouplingMap_def sum_simps elim!: mapE_Inl dest!: coupling_pair_error
      split: option.splits if_splits)

lemma tuple_qubits_error: "tuple_qubits s = Inl e \<Longrightarrow> parse_error e"
  by (auto simp: tuple_qubits_def sum_simps parse_error_def elim!: mapE_Inl dest!: stoi_errors)

lemma body_tuples_error: "body_tuples s = Inl e \<Longrightarrow> parse_error e"
  by (auto simp: body_tuples_def elim!: mapE_Inl dest: tuple_qubits_error)

lemma extractGates_error: "extractGates J v k = Inl e \<Longrightarrow> parse_error e"
  unfolding extractGates_def extractGates_loop_mapE
  by (auto simp: sum_simps elim!: mapE_Inl dest!: body_tuples_error getGateProterties_error
      split: option.splits if_splits) (auto simp: parse_error_def)

lemma json_qubits_error: "json_qubits J v = Inl e \<Longrightarrow> parse_error e"
  by (auto simp: json_qubits_def sum_simps split: if_splits)

lemma Resource_json_error: "Resource_json J v = Inl e \<Longrightarrow> parse_error e"
  unfolding Resource_json_def
  by (auto simp: sum_simps dest: json_qubits_error extractCouplingMap_error extractGates_error)

end
