(* ===== verification/Resource_Format.thy ===== *)
theory Resource_Format
  imports Resource
begin

text \<open>
  What the resource texts mean. The server prints the coupling map as a Python list of
  two-element lists and the gate set as a list of pairs of a gate name and a dictionary from
  qubit tuples to \<open>None\<close>, as in the responses of \<open>tests/unit/c++/resource_unit_test.cpp\<close>.
  This theory defines that format and shows that the regular expressions of
  \<open>src/resource.cpp\<close> read back exactly what was printed.
\<close>

section \<open>The printed format\<close>

abbreviation comma_sep :: string where
  "comma_sep \<equiv> '', ''"

definition py_pair :: "nat \<times> nat \<Rightarrow> string" where
  "py_pair p = ''['' @ nat_digits (fst p) @ comma_sep @ nat_digits (snd p) @ '']''"

definition py_coupling :: "(nat \<times> nat) list \<Rightarrow> string" where
  "py_coupling ps = ''['' @ sep_concat comma_sep (map py_pair ps) @ '']''"

definition qubit_digits :: "u32 \<Rightarrow> string" where
  "qubit_digits q = nat_digits (unat q)"

text \<open>A Python tuple: one element is followed by a comma.\<close>

definition tuple_inner :: "u32 list \<Rightarrow> string" where
  "tuple_inner qs =
     ''('' @ sep_concat comma_sep (map qubit_digits qs) @ (if length qs = 1 then '','' else [])"

definition py_entry :: "u32 list \<Rightarrow> string" where
  "py_entry qs = tuple_inner qs @ ''): None''"

definition py_body :: "u32 list list \<Rightarrow> string" where
  "py_body sq = ''{'' @ sep_concat comma_sep (map py_entry sq) @ ''}''"

definition py_gate :: "gate \<Rightarrow> string" where
  "py_gate g =
     ''('' @ [CHR 0x27] @ gate_mName g @ [CHR 0x27] @ comma_sep @ py_body (gate_mSupportedQubits g) @ '')''"

definition py_gates :: "gate list \<Rightarrow> string" where
  "py_gates gs = ''['' @ sep_concat comma_sep (map py_gate gs) @ '']''"

text \<open>A qubit index that \<open>std::stoi\<close> can read.\<close>

definition int_qubit :: "u32 \<Rightarrow> bool" where
  "int_qubit q \<longleftrightarrow> int (unat q) \<le> int_max"

definition printable_gate :: "gate \<Rightarrow> bool" where
  "printable_gate g \<longleftrightarrow>
     getGateProterties (gate_mName g) = Inr (gate_mQubitNumber g, gate_mParameterNumber g) \<and>
     (\<forall>qs \<in> set (gate_mSupportedQubits g). \<forall>q \<in> set qs. int_qubit q)"

section \<open>Numbers\<close>

lemma number_re_consuming: "rx_consuming number_re"
  unfolding number_re_def by (simp add: rx_consuming_def rx_plus_def)

lemma number_re_starts: "rx_starts number_re is_digit"
  unfolding number_re_def using rx_starts_plus[of is_digit 0 "[]"] by simp

lemma number_match:
  assumes "v = [] \<or> \<not> is_digit (hd v)"
  shows "rx_match number_re (nat_digits n @ v) = Some (map (Pair 0) (nat_digits n), v)"
  using rx_match_plus[of "nat_digits n" is_digit v "[]" "[]" v 0] assms nat_digits_digits
  unfolding number_re_def by auto

text \<open>The punctuation characters are no digits, blanks or quotes.\<close>

lemma punctuation [simp]:
  "\<not> is_digit CHR '',''" "\<not> is_digit CHR '' ''" "\<not> is_digit CHR ''(''" "\<not> is_digit CHR '')''"
  "\<not> is_digit CHR ''{''" "\<not> is_digit CHR ''}''" "\<not> is_digit CHR ''[''" "\<not> is_digit CHR '']''"
  "is_space CHR '' ''" "\<not> is_space CHR '',''" "\<not> is_space CHR ''{''" "\<not> is_space CHR '')''"
  "\<not> is_space CHR 0x27" "\<not> is_space CHR '':''" "\<not> is_space CHR ''N''"
  "is_quote CHR 0x27" "\<not> is_space CHR ''('' "
  by (simp_all add: is_digit_def is_space_def is_quote_def)

interpretation numbers: token_scanner "rx_all number_re" "\<lambda>c. \<not> is_digit c" qubit_digits
    "\<lambda>q. map (Pair 0) (qubit_digits q)" int_qubit "\<lambda>s. s = [] \<or> \<not> is_digit (hd s)"
proof unfold_locales
  show "rx_all number_re [] = []" by (rule rx_all_Nil[OF number_re_starts])
  show "rx_all number_re (c # s) = rx_all number_re s" if "\<not> is_digit c" for c s
    using rx_all_junk[OF number_re_starts that] .
  show "rx_all number_re (qubit_digits a @ s) = map (Pair 0) (qubit_digits a) # rx_all number_re s"
    if "int_qubit a" "s = [] \<or> \<not> is_digit (hd s)" for a s
    using rx_all_match[OF number_re_consuming number_match[OF that(2)]] by (simp add: qubit_digits_def)
qed

lemma tuple_qubits_read:
  assumes "\<forall>q \<in> set qs. int_qubit q" "\<forall>c \<in> set pre. \<not> is_digit c"
  shows "tuple_qubits (pre @ tuple_inner qs) = Inr qs"
proof -
  let ?tail = "if length qs = 1 then '','' else []"
  have "rx_all number_re (sep_concat comma_sep (map qubit_digits qs) @ ?tail) =
      map (\<lambda>q. map (Pair 0) (qubit_digits q)) qs"
    by (rule numbers.scan_sequence) (use assms in auto)
  moreover have "rx_all number_re (pre @ tuple_inner qs) =
      rx_all number_re (sep_concat comma_sep (map qubit_digits qs) @ ?tail)"
    using assms(2) by (simp add: numbers.scan_skip numbers.scan_junk tuple_inner_def)
  ultimately have r: "rx_all number_re (pre @ tuple_inner qs) =
      map (\<lambda>q. map (Pair 0) (qubit_digits q)) qs" by simp
  have "stoi (qubit_digits q) = Inr (int (unat q))" if "q \<in> set qs" for q
    using that assms(1) stoi_nat_digits[of "unat q" "[]"]
    by (simp add: qubit_digits_def int_qubit_def)
  then have "mapE (\<lambda>k. bind_sum (stoi (matched k)) (\<lambda>i. Inr (word_of_int i)))
      (map (\<lambda>q. map (Pair 0) (qubit_digits q)) qs) = Inr qs"
    by (induction qs) (simp_all add: comp_def)
  with r show ?thesis by (simp add: tuple_qubits_def)
qed

section \<open>The coupling map\<close>

lemma coupling_re_starts: "rx_starts coupling_re (\<lambda>c. c = CHR ''['')"
  unfolding coupling_re_def by simp

lemma coupling_re_consuming: "rx_consuming coupling_re"
  using coupling_re_starts by (rule rx_starts_consuming)

definition pair_tags :: "nat \<times> nat \<Rightarrow> rx_tags" where
  "pair_tags p =
     (0, CHR ''['') # map (Pair 1) (nat_digits (fst p)) @ (0, CHR '','') # (0, CHR '' '') #
     map (Pair 2) (nat_digits (snd p)) @ [(0, CHR '']'')]"

lemma coupling_match: "rx_match coupling_re (py_pair p @ s) = Some (pair_tags p, s)"
proof -
  let ?a = "nat_digits (fst p)" and ?b = "nat_digits (snd p)"
  have close: "rx_match [rx_lit CHR '']'' 0] (CHR '']'' # s) = Some ([(0, CHR '']'')], s)"
    by simp
  have second: "rx_match (rx_plus is_digit 2 @ [rx_lit CHR '']'' 0]) (?b @ CHR '']'' # s) =
      Some (map (Pair 2) ?b @ [(0, CHR '']'')], s)"
    by (rule rx_match_plus[OF _ _ _ close]) (use nat_digits_digits in auto)
  have blank: "rx_match (Item Star is_space 0 # rx_plus is_digit 2 @ [rx_lit CHR '']'' 0])
      ('' '' @ (?b @ CHR '']'' # s)) =
      Some (map (Pair 0) '' '' @ map (Pair 2) ?b @ [(0, CHR '']'')], s)"
    by (rule rx_match_star[OF _ _ second]) (use hd_nat_digits is_digit_not_space in auto)
  let ?rest = "rx_lit CHR '','' 0 # Item Star is_space 0 # rx_plus is_digit 2 @ [rx_lit CHR '']'' 0]"
  have comma: "rx_match ?rest (CHR '','' # '' '' @ (?b @ CHR '']'' # s)) =
      Some ((0, CHR '','') # map (Pair 0) '' '' @ map (Pair 2) ?b @ [(0, CHR '']'')], s)"
    using blank by simp
  have "rx_match (rx_plus is_digit 1 @ ?rest) (?a @ CHR '','' # '' '' @ (?b @ CHR '']'' # s)) =
      Some (map (Pair 1) ?a @ (0, CHR '','') # map (Pair 0) '' '' @ map (Pair 2) ?b @
        [(0, CHR '']'')], s)"
    by (rule rx_match_plus[OF _ _ _ comma]) (use nat_digits_digits in auto)
  then show ?thesis by (simp add: coupling_re_def py_pair_def pair_tags_def)
qed

interpretation pairs: token_scanner "rx_all coupling_re" "\<lambda>c. c \<noteq> CHR ''[''" py_pair
    pair_tags "\<lambda>p. True" "\<lambda>s. True"
proof unfold_locales
  show "rx_all coupling_re [] = []" by (rule rx_all_Nil[OF coupling_re_starts])
  show "rx_all coupling_re (c # s) = rx_all coupling_re s" if "c \<noteq> CHR ''[''" for c s
    using rx_all_junk[OF coupling_re_starts that] .
  show "rx_all coupling_re (py_pair a @ s) = pair_tags a # rx_all coupling_re s" for a s
    by (rule rx_all_match[OF coupling_re_consuming coupling_match])
qed

text \<open>The bracket that opens the list is followed by a bracket, so no pair starts there.\<close>

lemma coupling_outer: "\<not> is_digit c \<Longrightarrow> rx_match coupling_re (CHR ''['' # c # s) = None"
  by (simp add: coupling_re_def rx_plus_def)

lemma coupling_scan: "rx_all coupling_re (py_coupling ps) = map pair_tags ps"
proof -
  let ?inner = "sep_concat comma_sep (map py_pair ps) @ '']''"
  have inner: "rx_all coupling_re ?inner = map pair_tags ps"
    by (rule pairs.scan_sequence) auto
  have "\<exists>c s. ?inner = c # s \<and> \<not> is_digit c"
    by (cases ps rule: list.exhaust; cases "tl ps") (auto simp: py_pair_def)
  then obtain c s where "?inner = c # s" "\<not> is_digit c" by blast
  then have "rx_all coupling_re (CHR ''['' # ?inner) = rx_all coupling_re ?inner"
    by (metis rx_all_no_match[OF coupling_re_consuming] coupling_outer)
  with inner show ?thesis by (simp add: py_coupling_def)
qed

lemma coupling_pair_read:
  assumes "int (fst p) \<le> int_max" "int (snd p) \<le> int_max"
  shows "coupling_pair (pair_tags p) = Inr [int (fst p), int (snd p)]"
  using assms stoi_nat_digits[of "fst p" "[]"] stoi_nat_digits[of "snd p" "[]"]
  by (simp add: coupling_pair_def pair_tags_def)

lemma py_coupling_not_None: "py_coupling ps \<noteq> ''None''"
  by (simp add: py_coupling_def)

lemma extractCouplingMap_read:
  assumes "json_laws J" "j_find J v k = Some (j_str J (py_coupling ps))"
    and "\<forall>p \<in> set ps. int (fst p) \<le> int_max \<and> int (snd p) \<le> int_max"
  shows "extractCouplingMap J v k = Inr (map (\<lambda>p. [int (fst p), int (snd p)]) ps)"
proof -
  have "mapE coupling_pair (map pair_tags ps) = Inr (map (\<lambda>p. [int (fst p), int (snd p)]) ps)"
    using assms(3) by (induction ps) (auto simp: coupling_pair_read)
  with assms(1,2) show ?thesis
    by (simp add: extractCouplingMap_def json_str_is_string json_str_get_ref coupling_scan
        py_coupling_not_None)
qed

section \<open>The tuples of one gate\<close>

lemma tuple_re_consuming: "rx_consuming tuple_re"
  unfolding tuple_re_def by (simp add: rx_consuming_def rx_lit_def)

lemma tuple_lang_paren: "rx_lang tuple_re m \<Longrightarrow> CHR '')'' \<in> set (matched m)"
proof -
  have "rx_lang (Item Star p g # rx_lit c h # rs) m \<Longrightarrow> c \<in> set (matched m)" for p g c h rs m
    by (induction "Item Star p g # rx_lit c h # rs" m rule: rx_lang.induct)
      (auto simp: rx_lit_def elim: rx_lang_OnceE)
  then show "rx_lang tuple_re m \<Longrightarrow> CHR '')'' \<in> set (matched m)"
    unfolding tuple_re_def .
qed

lemma tuple_none_left:
  assumes "CHR '')'' \<notin> set s"
  shows "rx_all tuple_re s = []"
proof -
  have "rx_search tuple_re s = None"
    unfolding rx_search_None_iff using tuple_lang_paren assms by fastforce
  then show ?thesis by (simp add: rx_all_unfold[OF tuple_re_consuming])
qed

definition tuple_tags :: "string \<Rightarrow> rx_tags" where
  "tuple_tags u = map (Pair 1) u @ map (Pair 0) ''): None''"

lemma tuple_match:
  assumes "\<forall>c \<in> set u. c \<noteq> CHR '')''"
  shows "rx_match tuple_re (u @ ''): None'' @ s) = Some (tuple_tags u, s)"
proof -
  have none: "rx_match (map (\<lambda>c. rx_lit c 0) ''None'') (''None'' @ s) =
      Some (map (Pair 0) ''None'', s)" by simp
  have blank: "rx_match (Item Star is_space 0 # map (\<lambda>c. rx_lit c 0) ''None'') ('' '' @ (''None'' @ s)) =
      Some (map (Pair 0) '' '' @ map (Pair 0) ''None'', s)"
    by (rule rx_match_star[OF _ _ none]) auto
  have colon: "rx_match (rx_lit CHR '':'' 0 # Item Star is_space 0 # map (\<lambda>c. rx_lit c 0) ''None'')
      (CHR '':'' # '' '' @ (''None'' @ s)) =
      Some ((0, CHR '':'') # map (Pair 0) '' '' @ map (Pair 0) ''None'', s)"
    using blank by simp
  have "rx_match (Item Star is_space 0 # rx_lit CHR '':'' 0 # Item Star is_space 0 #
        map (\<lambda>c. rx_lit c 0) ''None'') ([] @ (CHR '':'' # '' '' @ (''None'' @ s))) =
      Some (map (Pair 0) [] @ (0, CHR '':'') # map (Pair 0) '' '' @ map (Pair 0) ''None'', s)"
    by (rule rx_match_star[OF _ _ colon]) auto
  then have close: "rx_match (rx_lit CHR '')'' 0 # Item Star is_space 0 # rx_lit CHR '':'' 0 #
        Item Star is_space 0 # map (\<lambda>c. rx_lit c 0) ''None'') (CHR '')'' # CHR '':'' # '' '' @ (''None'' @ s)) =
      Some ((0, CHR '')'') # (0, CHR '':'') # map (Pair 0) '' '' @ map (Pair 0) ''None'', s)"
    by simp
  have "rx_match tuple_re (u @ (CHR '')'' # CHR '':'' # '' '' @ (''None'' @ s))) =
      Some (map (Pair 1) u @ (0, CHR '')'') # (0, CHR '':'') # map (Pair 0) '' '' @ map (Pair 0) ''None'', s)"
    unfolding tuple_re_def by (rule rx_match_star[OF _ _ close]) (use assms in auto)
  then show ?thesis by (simp add: tuple_tags_def)
qed

lemma sep_concat_chars:
  "c \<in> set (sep_concat sep xs) \<Longrightarrow> c \<in> set sep \<or> (\<exists>x \<in> set xs. c \<in> set x)"
  by (induction sep xs rule: sep_concat.induct) auto

lemma tuple_inner_chars: "c \<in> set (tuple_inner qs) \<Longrightarrow> c = CHR ''('' \<or> c = CHR '','' \<or> c = CHR '' '' \<or> is_digit c"
  by (auto simp: tuple_inner_def qubit_digits_def dest!: sep_concat_chars dest: nat_digits_digits
      split: if_splits)

lemma is_digit_not_punct:
  "is_digit c \<Longrightarrow> c \<noteq> CHR '')'' \<and> c \<noteq> CHR ''{'' \<and> c \<noteq> CHR ''}''"
  by (auto simp: is_digit_def)

lemma tuple_inner_no_paren: "c \<in> set (tuple_inner qs) \<Longrightarrow> c \<noteq> CHR '')'' \<and> not_brace c"
  using tuple_inner_chars[of c qs] is_digit_not_punct[of c] by (auto simp: not_brace_def)

text \<open>
  The first group takes everything since the last match, so the text of a tuple comes with the
  separator in front of it.
\<close>

fun entry_tags :: "string \<Rightarrow> u32 list list \<Rightarrow> rx_tags list" where
  "entry_tags pre [] = []"
| "entry_tags pre (qs # sq) = tuple_tags (pre @ tuple_inner qs) # entry_tags comma_sep sq"

lemma tuples_scan:
  assumes "\<forall>c \<in> set pre. c \<noteq> CHR '')''"
  shows "rx_all tuple_re (pre @ sep_concat comma_sep (map py_entry sq) @ ''}'') = entry_tags pre sq"
  using assms
proof (induction sq arbitrary: pre rule: induct_list012)
  case 1
  then have "CHR '')'' \<notin> set (pre @ ''}'')" by auto
  from tuple_none_left[OF this] show ?case by simp
next
  case (2 qs)
  then have "\<forall>c \<in> set (pre @ tuple_inner qs). c \<noteq> CHR '')''"
    using tuple_inner_no_paren by auto
  from rx_all_match[OF tuple_re_consuming tuple_match[OF this, of "''}''"]]
  show ?case by (simp add: py_entry_def tuple_none_left)
next
  case (3 qs rs sq)
  from "3.prems" have "\<forall>c \<in> set (pre @ tuple_inner qs). c \<noteq> CHR '')''"
    using tuple_inner_no_paren by auto
  from rx_all_match[OF tuple_re_consuming tuple_match[OF this]] "3.IH"(2)[of comma_sep]
  show ?case by (simp add: py_entry_def)
qed

lemma body_tuples_read:
  assumes "\<forall>qs \<in> set sq. \<forall>q \<in> set qs. int_qubit q"
  shows "body_tuples (py_body sq) = Inr sq"
proof -
  have "mapE (\<lambda>j. tuple_qubits (capture 1 j)) (entry_tags pre sq) = Inr sq"
    if "\<forall>c \<in> set pre. \<not> is_digit c" for pre
    using that assms
  proof (induction sq arbitrary: pre)
    case (Cons qs sq)
    have "capture 1 (tuple_tags (pre @ tuple_inner qs)) = pre @ tuple_inner qs"
      by (simp add: tuple_tags_def)
    with Cons show ?case by (simp add: tuple_qubits_read)
  qed simp
  from this[of "''{''"] tuples_scan[of "''{''" sq] show ?thesis
    by (simp add: body_tuples_def py_body_def)
qed

section \<open>The gate set\<close>

lemma gate_re_starts: "rx_starts gate_re (\<lambda>c. c = CHR ''('')"
  unfolding gate_re_def by simp

lemma gate_re_consuming: "rx_consuming gate_re"
  using gate_re_starts by (rule rx_starts_consuming)

definition body_inner :: "u32 list list \<Rightarrow> string" where
  "body_inner sq = sep_concat comma_sep (map py_entry sq)"

lemma body_inner_chars: "c \<in> set (body_inner sq) \<Longrightarrow> not_brace c"
proof -
  assume "c \<in> set (body_inner sq)"
  then have "c \<in> set comma_sep \<or> (\<exists>qs. c \<in> set (tuple_inner qs)) \<or> c \<in> set ''): None''"
    by (auto simp: body_inner_def py_entry_def dest!: sep_concat_chars)
  moreover have "\<forall>c \<in> set comma_sep. not_brace c" "\<forall>c \<in> set ''): None''. not_brace c"
    by (simp_all add: not_brace_def)
  ultimately show "not_brace c" using tuple_inner_no_paren by blast
qed

definition gate_tags :: "gate \<Rightarrow> rx_tags" where
  "gate_tags g =
     (0, CHR ''('') # (0, CHR 0x27) # map (Pair 1) (gate_mName g) @
     (0, CHR 0x27) # (0, CHR '','') # (0, CHR '' '') # (2, CHR ''{'') #
     map (Pair 2) (body_inner (gate_mSupportedQubits g)) @ (2, CHR ''}'') # [(0, CHR '')'')]"

lemma gate_body_match:
  "rx_match (rx_lit CHR ''{'' 2 # Item Star not_brace 2 # rx_lit CHR ''}'' 2 #
       Item Star is_space 0 # [rx_lit CHR '')'' 0]) (py_body sq @ CHR '')'' # s) =
     Some ((2, CHR ''{'') # map (Pair 2) (body_inner sq) @ (2, CHR ''}'') # [(0, CHR '')'')], s)"
proof -
  have paren: "rx_match [rx_lit CHR '')'' 0] (CHR '')'' # s) = Some ([(0, CHR '')'')], s)" by simp
  have "rx_match (Item Star is_space 0 # [rx_lit CHR '')'' 0]) ([] @ CHR '')'' # s) =
      Some (map (Pair 0) [] @ [(0, CHR '')'')], s)"
    by (rule rx_match_star[OF _ _ paren]) auto
  then have close: "rx_match (rx_lit CHR ''}'' 2 # Item Star is_space 0 # [rx_lit CHR '')'' 0])
      (CHR ''}'' # CHR '')'' # s) = Some ((2, CHR ''}'') # [(0, CHR '')'')], s)" by simp
  have "rx_match (Item Star not_brace 2 # rx_lit CHR ''}'' 2 # Item Star is_space 0 #
      [rx_lit CHR '')'' 0]) (body_inner sq @ CHR ''}'' # CHR '')'' # s) =
      Some (map (Pair 2) (body_inner sq) @ (2, CHR ''}'') # [(0, CHR '')'')], s)"
    by (rule rx_match_star[OF _ _ close]) (use body_inner_chars in \<open>auto simp: not_brace_def\<close>)
  then show ?thesis by (simp add: py_body_def body_inner_def)
qed

lemma py_body_Cons: "\<exists>b. py_body sq = CHR ''{'' # b"
  by (simp add: py_body_def)

lemma gate_match:
  assumes "gate_mName g \<noteq> []" "\<forall>c \<in> set (gate_mName g). \<not> is_quote c"
  shows "rx_match gate_re (py_gate g @ s) = Some (gate_tags g, s)"
proof -
  let ?body = "py_body (gate_mSupportedQubits g) @ CHR '')'' # s"
  let ?r1 = "rx_lit CHR ''{'' 2 # Item Star not_brace 2 # rx_lit CHR ''}'' 2 #
       Item Star is_space 0 # [rx_lit CHR '')'' 0]"
  let ?m1 = "(2, CHR ''{'') # map (Pair 2) (body_inner (gate_mSupportedQubits g)) @
       (2, CHR ''}'') # [(0, CHR '')'')]"
  have 1: "rx_match (Item Star is_space 0 # ?r1) ('' '' @ ?body) =
      Some (map (Pair 0) '' '' @ ?m1, s)"
    by (rule rx_match_star[OF _ _ gate_body_match])
      (use py_body_Cons[of "gate_mSupportedQubits g"] in auto)
  have 2: "rx_match (rx_lit CHR '','' 0 # Item Star is_space 0 # ?r1) (CHR '','' # '' '' @ ?body) =
      Some ((0, CHR '','') # map (Pair 0) '' '' @ ?m1, s)" (is "rx_match ?r2 ?s2 = Some (?m2, s)")
    using 1 by simp
  have "rx_match (Item Star is_space 0 # ?r2) ([] @ ?s2) = Some (map (Pair 0) [] @ ?m2, s)"
    by (rule rx_match_star[OF _ _ 2]) auto
  then have 3: "rx_match (Item Once is_quote 0 # Item Star is_space 0 # ?r2) (CHR 0x27 # ?s2) =
      Some ((0, CHR 0x27) # ?m2, s)" (is "rx_match ?r3 ?s3 = Some (?m3, s)") by simp
  have 4: "rx_match (rx_plus (\<lambda>c. \<not> is_quote c) 1 @ ?r3) (gate_mName g @ ?s3) =
      Some (map (Pair 1) (gate_mName g) @ ?m3, s)" (is "rx_match ?r4 ?s4 = Some (?m4, s)")
    by (rule rx_match_plus[OF assms _ 3]) simp
  then have 5: "rx_match (Item Once is_quote 0 # ?r4) (CHR 0x27 # ?s4) =
      Some ((0, CHR 0x27) # ?m4, s)" (is "rx_match ?r5 ?s5 = Some (?m5, s)") by simp
  have "rx_match (Item Star is_space 0 # ?r5) ([] @ ?s5) = Some (map (Pair 0) [] @ ?m5, s)"
    by (rule rx_match_star[OF _ _ 5]) auto
  then have "rx_match (rx_lit CHR ''('' 0 # Item Star is_space 0 # ?r5) (CHR ''('' # ?s5) =
      Some ((0, CHR ''('') # ?m5, s)" by simp
  then show ?thesis by (simp add: gate_re_def py_gate_def gate_tags_def)
qed

lemma printable_gate_name:
  "printable_gate g \<Longrightarrow> gate_mName g \<noteq> [] \<and> (\<forall>c \<in> set (gate_mName g). \<not> is_quote c)"
  unfolding printable_gate_def using known_gate_names[OF getGateProterties_known] by blast

interpretation gates: token_scanner "rx_all gate_re" "\<lambda>c. c \<noteq> CHR ''(''" py_gate
    gate_tags printable_gate "\<lambda>s. True"
proof unfold_locales
  show "rx_all gate_re [] = []" by (rule rx_all_Nil[OF gate_re_starts])
  show "rx_all gate_re (c # s) = rx_all gate_re s" if "c \<noteq> CHR ''(''" for c s
    using rx_all_junk[OF gate_re_starts that] .
  show "rx_all gate_re (py_gate a @ s) = gate_tags a # rx_all gate_re s" if "printable_gate a" for a s
    using rx_all_match[OF gate_re_consuming gate_match] printable_gate_name[OF that] by blast
qed

lemma gates_scan:
  assumes "\<forall>g \<in> set gs. printable_gate g"
  shows "rx_all gate_re (py_gates gs) = map gate_tags gs"
proof -
  have "rx_all gate_re (sep_concat comma_sep (map py_gate gs) @ '']'') = map gate_tags gs"
    by (rule gates.scan_sequence) (use assms in auto)
  then show ?thesis by (simp add: py_gates_def gates.scan_junk)
qed

lemma gate_tags_captures [simp]:
  "capture (Suc 0) (gate_tags g) = gate_mName g"
  "capture 2 (gate_tags g) = py_body (gate_mSupportedQubits g)"
  by (simp_all add: gate_tags_def py_body_def body_inner_def)

lemma py_gates_not_None: "py_gates gs \<noteq> ''None''"
  by (simp add: py_gates_def)

lemma extractGates_read:
  assumes "json_laws J" "j_find J v k = Some (j_str J (py_gates gs))"
    and "\<forall>g \<in> set gs. printable_gate g"
  shows "extractGates J v k = Inr gs"
proof -
  have "extractGates_loop (map gate_tags gs) [] = Inr gs"
    using assms(3)
  proof (induction gs)
    case (Cons g gs)
    then show ?case
      by (simp add: Let_def body_tuples_read printable_gate_def)
  qed simp
  with assms show ?thesis
    by (simp add: extractGates_def json_str_is_string json_str_get_ref gates_scan py_gates_not_None)
qed

section \<open>A whole resource\<close>

definition pair_row :: "nat \<times> nat \<Rightarrow> int list" where
  "pair_row p = [int (fst p), int (snd p)]"

text \<open>The JSON object the server sends for a resource.\<close>

definition resource_to_json ::
  "'j json_api \<Rightarrow> string \<Rightarrow> u32 \<Rightarrow> bool \<Rightarrow> (nat \<times> nat) list \<Rightarrow> gate list \<Rightarrow> 'j" where
  "resource_to_json J name qubits online coupling gates =
     j_object J
       [(''connectivity'', j_str J (py_coupling coupling)),
        (''instructions'', j_str J (py_gates gates)),
        (''name'', j_str J name),
        (''online'', j_bool J online),
        (''qubits'', j_uint J qubits)]"

lemma resource_to_json_find:
  assumes "json_laws J"
  shows "j_find J (resource_to_json J name qubits online coupling gates) k = map_of
      [(''connectivity'', j_str J (py_coupling coupling)),
       (''instructions'', j_str J (py_gates gates)), (''name'', j_str J name),
       (''online'', j_bool J online), (''qubits'', j_uint J qubits)] k"
  unfolding resource_to_json_def by (intro json_object_find[OF assms]) simp

lemma Resource_json_read:
  assumes "json_laws J"
    and "\<forall>p \<in> set coupling. int (fst p) \<le> int_max \<and> int (snd p) \<le> int_max"
    and "\<forall>g \<in> set gates. printable_gate g"
  shows "Resource_json J (resource_to_json J name qubits online coupling gates) =
    Inr \<lparr>res_mName = name, res_mQubitCount = qubits, res_mOnline = online,
         res_mCouplingMap = map pair_row coupling, res_mNativeGateset = gates\<rparr>"
proof -
  let ?v = "resource_to_json J name qubits online coupling gates"
  have obj: "j_is_object J ?v"
    unfolding resource_to_json_def by (intro json_object[OF assms(1)]) simp
  note find = resource_to_json_find[OF assms(1)]
  have "j_value_string J ?v ''name'' '''' = Inr name"
    using json_value_string[OF assms(1) obj] json_str[OF assms(1)] find by simp
  moreover have "json_qubits J ?v = Inr qubits"
    using json_contains[OF assms(1)] json_index[OF assms(1)] json_uint[OF assms(1)]
      json_uint_number[OF assms(1)] find by (simp add: json_qubits_def)
  moreover have "j_value_bool J ?v ''online'' False = Inr online"
    using json_value_bool[OF assms(1) obj] find by simp
  moreover have "extractCouplingMap J ?v ''connectivity'' = Inr (map pair_row coupling)"
    using extractCouplingMap_read[OF assms(1) _ assms(2)] find
    by (simp add: pair_row_def[abs_def])
  moreover have "extractGates J ?v ''instructions'' = Inr gates"
    using extractGates_read[OF assms(1) _ assms(3)] find by simp
  ultimately show ?thesis by (simp add: Resource_json_def)
qed

end
