(* ===== verification/Resource_Props.thy ===== *)
theory Resource_Props
  imports Resource_Format
begin

text \<open>
  Properties of \<open>src/resource.cpp\<close> that hold for every text the server may send: what a
  resource that was read looks like, that its printed form reads back, and that the loop over the
  gates, with its vector declared outside, is the parsing of each gate on its own.
\<close>

section \<open>Digits the patterns capture\<close>

lemma rx_lang_class: "rx_lang r m \<Longrightarrow> (g, c) \<in> set m \<Longrightarrow> \<exists>q p. Item q p g \<in> set r \<and> p c"
  by (induction rule: rx_lang.induct) auto

lemma capture_class: "rx_lang r m \<Longrightarrow> c \<in> set (capture g m) \<Longrightarrow> \<exists>q p. Item q p g \<in> set r \<and> p c"
  by (auto simp: capture_def dest: rx_lang_class)

lemma stoi_of_digits:
  assumes "\<forall>c \<in> set ds. is_digit c" "stoi ds = Inr v"
  shows "0 \<le> v \<and> v \<le> int_max"
proof (cases "ds = []")
  case True
  with assms(2) show ?thesis by (simp add: stoi_def stoi_value_def Let_def)
next
  case False
  with assms stoi_digits[of ds "[]"] show ?thesis
    by (auto simp: stoi_value_def Let_def split: if_splits)
qed

lemma coupling_digits:
  assumes "m \<in> set (rx_all coupling_re s)" "g = 1 \<or> g = 2" "c \<in> set (capture g m)"
  shows "is_digit c"
  using capture_class[OF rx_all_lang[OF assms(1)] assms(3)] assms(2)
  by (auto simp: coupling_re_def rx_plus_def rx_lit_def)

lemma number_digits:
  assumes "m \<in> set (rx_all number_re s)" "c \<in> set (matched m)"
  shows "is_digit c"
proof -
  from assms(2) obtain g where "(g, c) \<in> set m" by auto
  from rx_lang_class[OF rx_all_lang[OF assms(1)] this] show ?thesis
    by (auto simp: number_re_def rx_plus_def)
qed

text \<open>A row of the coupling map as the code reads it: two qubit numbers.\<close>

definition coupling_row :: "int list \<Rightarrow> bool" where
  "coupling_row row \<longleftrightarrow> length row = 2 \<and> (\<forall>i \<in> set row. 0 \<le> i \<and> i \<le> int_max)"

lemma mapE_members: "mapE f xs = Inr ys \<Longrightarrow> y \<in> set ys \<Longrightarrow> \<exists>x \<in> set xs. f x = Inr y"
  by (induction xs arbitrary: ys) (auto simp: sum_simps)

lemma extractCouplingMap_rows:
  assumes "extractCouplingMap J v k = Inr rows" "row \<in> set rows"
  shows "coupling_row row"
proof -
  from assms obtain t m where m: "m \<in> set (rx_all coupling_re t)" "coupling_pair m = Inr row"
    by (auto simp: extractCouplingMap_def sum_simps dest!: mapE_members
        split: option.splits if_splits)
  then obtain a b where "stoi (capture 1 m) = Inr a" "stoi (capture 2 m) = Inr b" "row = [a, b]"
    by (auto simp: coupling_pair_def sum_simps)
  moreover have "\<forall>c \<in> set (capture g m). is_digit c" if "g = 1 \<or> g = 2" for g
    using coupling_digits[OF m(1) that] by blast
  ultimately have "0 \<le> a \<and> a \<le> int_max" "0 \<le> b \<and> b \<le> int_max"
    using stoi_of_digits by blast+
  with \<open>row = [a, b]\<close> show ?thesis by (simp add: coupling_row_def)
qed

lemma tuple_qubits_int: "tuple_qubits s = Inr qs \<Longrightarrow> q \<in> set qs \<Longrightarrow> int_qubit q"
proof -
  assume "tuple_qubits s = Inr qs" "q \<in> set qs"
  then obtain m i where m: "m \<in> set (rx_all number_re s)" "stoi (matched m) = Inr i" "q = word_of_int i"
    by (auto simp: tuple_qubits_def sum_simps dest!: mapE_members)
  with stoi_of_digits number_digits[OF m(1)] have "0 \<le> i \<and> i \<le> int_max" by blast
  then show "int_qubit q" unfolding m(3) int_qubit_def
    by (simp add: unat_eq_nat_uint uint_word_of_int take_bit_int_eq_self)
qed

section \<open>What a resource that was read looks like\<close>

lemma body_tuples_int:
  "body_tuples s = Inr sq \<Longrightarrow> qs \<in> set sq \<Longrightarrow> q \<in> set qs \<Longrightarrow> int_qubit q"
  by (auto simp: body_tuples_def dest!: mapE_members dest: tuple_qubits_int)

text \<open>The reference: one match of the gate pattern, read without looking at any other.\<close>

definition read_gate :: "rx_tags \<Rightarrow> gate result" where
  "read_gate m =
     bind_sum (body_tuples (capture 2 m)) (\<lambda>sq.
     bind_sum (getGateProterties (capture 1 m)) (\<lambda>(qubits, params).
       Inr \<lparr>gate_mName = capture 1 m, gate_mQubitNumber = qubits,
            gate_mParameterNumber = params, gate_mSupportedQubits = sq\<rparr>))"

lemma extractGates_loop_read: "extractGates_loop ms [] = mapE read_gate ms"
  by (simp add: extractGates_loop_mapE read_gate_def[abs_def])

lemma read_gate_printable: "read_gate m = Inr g \<Longrightarrow> printable_gate g"
  by (auto simp: read_gate_def sum_simps printable_gate_def body_tuples_int)

lemma read_gate_unknown:
  "map_of known_gates (capture 1 m) = None \<Longrightarrow> \<exists>e. read_gate m = Inl e"
  by (cases "body_tuples (capture 2 m)") (simp_all add: read_gate_def getGateProterties_table)

lemma extractGates_printable:
  "extractGates J v k = Inr gs \<Longrightarrow> g \<in> set gs \<Longrightarrow> printable_gate g"
  by (auto simp: extractGates_def extractGates_loop_read sum_simps
      dest!: mapE_members dest: read_gate_printable split: option.splits if_splits)

text \<open>The coupling map as pairs, the form it is printed from.\<close>

definition row_pair :: "int list \<Rightarrow> nat \<times> nat" where
  "row_pair row = (nat (row ! 0), nat (row ! 1))"

lemma coupling_row_pair:
  assumes "coupling_row row"
  shows "pair_row (row_pair row) = row" "int (fst (row_pair row)) \<le> int_max"
    "int (snd (row_pair row)) \<le> int_max"
proof -
  from assms obtain a b where "row = [a, b]"
    by (auto simp: coupling_row_def length_Suc_conv numeral_2_eq_2)
  with assms show "pair_row (row_pair row) = row" "int (fst (row_pair row)) \<le> int_max"
    "int (snd (row_pair row)) \<le> int_max"
    by (simp_all add: coupling_row_def pair_row_def row_pair_def)
qed

definition print_resource :: "'j json_api \<Rightarrow> resource \<Rightarrow> 'j" where
  "print_resource J r =
     resource_to_json J (res_mName r) (res_mQubitCount r) (res_mOnline r)
       (map row_pair (res_mCouplingMap r)) (res_mNativeGateset r)"

lemma Resource_json_parts:
  assumes "Resource_json J v = Inr r"
  shows "extractCouplingMap J v ''connectivity'' = Inr (res_mCouplingMap r)"
    and "extractGates J v ''instructions'' = Inr (res_mNativeGateset r)"
  using assms by (auto simp: Resource_json_def sum_simps)

lemma Resource_json_print:
  assumes "json_laws J" "Resource_json J v = Inr r"
  shows "Resource_json J (print_resource J r) = Inr r"
proof -
  note rows = extractCouplingMap_rows[OF Resource_json_parts(1)[OF assms(2)]]
  note gates = extractGates_printable[OF Resource_json_parts(2)[OF assms(2)]]
  have "map pair_row (map row_pair (res_mCouplingMap r)) = res_mCouplingMap r"
    using rows coupling_row_pair(1) by (induction "res_mCouplingMap r") (auto intro!: map_idI)
  moreover have "\<forall>p \<in> set (map row_pair (res_mCouplingMap r)).
      int (fst p) \<le> int_max \<and> int (snd p) \<le> int_max"
    using rows coupling_row_pair(2,3) by auto
  moreover have "\<forall>g \<in> set (res_mNativeGateset r). printable_gate g" using gates by blast
  ultimately show ?thesis
    unfolding print_resource_def using Resource_json_read[OF assms(1)] by simp
qed

lemma gates_none: "rx_all gate_re ''None'' = []"
  by (simp add: rx_all_junk[OF gate_re_starts] rx_all_Nil[OF gate_re_starts])

text \<open>A gate and a resource as the parser makes them: known gates with the numbers of the table, and
  qubits that fit an \<open>int\<close>.\<close>

definition gate_ok :: "gate \<Rightarrow> bool" where
  "gate_ok g \<longleftrightarrow> (gate_mName g, gate_mQubitNumber g, gate_mParameterNumber g) \<in> set known_gates \<and>
     list_all (list_all int_qubit) (gate_mSupportedQubits g)"

definition resource_ok :: "resource \<Rightarrow> bool" where
  "resource_ok r \<longleftrightarrow> list_all coupling_row (res_mCouplingMap r) \<and> list_all gate_ok (res_mNativeGateset r)"

lemma Resource_json_ok:
  assumes "Resource_json J v = Inr r"
  shows "resource_ok r"
proof -
  have "printable_gate g" if "g \<in> set (res_mNativeGateset r)" for g
    using extractGates_printable[OF Resource_json_parts(2)[OF assms] that] .
  with extractCouplingMap_rows[OF Resource_json_parts(1)[OF assms]] show ?thesis
    by (auto simp: resource_ok_def gate_ok_def list_all_iff printable_gate_def dest: getGateProterties_known)
qed

text \<open>A gate for the examples.\<close>

definition cz_gate :: "u32 list list \<Rightarrow> gate" where
  "cz_gate sq = \<lparr>gate_mName = ''cz'', gate_mQubitNumber = 2, gate_mParameterNumber = 0,
     gate_mSupportedQubits = sq\<rparr>"

section \<open>Properties\<close>

text \<open>C16. A resource is well formed whatever the server sent: if the constructor returns, every row of the
  coupling map is a pair of numbers from 0 to the greatest \<open>int\<close>, and every gate is one of the
  ten the code knows, with the qubit and parameter numbers of its table and with qubits that fit
  an \<open>int\<close>; if it throws, the exception is none a transport throws.
\<close>

theorem Resource_well_formed:
  "case Resource_json J v of
     Inl e \<Rightarrow> parse_error e \<and> \<not> is_runtime_error e
   | Inr r \<Rightarrow> list_all coupling_row (res_mCouplingMap r) \<and>
       list_all (\<lambda>g. (gate_mName g, gate_mQubitNumber g, gate_mParameterNumber g) \<in> set known_gates \<and>
         list_all (list_all int_qubit) (gate_mSupportedQubits g)) (res_mNativeGateset r)"
proof (cases "Resource_json J v")
  case (Inl e)
  then show ?thesis using Resource_json_error[of J v e] parse_error_not_runtime[of e] by simp
next
  case (Inr r)
  with Resource_json_ok[OF Inr] show ?thesis by (simp add: resource_ok_def gate_ok_def[abs_def])
qed

text \<open>C33. Reading is a normal form: the resource read from any JSON value, printed in the server's format
  (the two Python texts included) and read again, is the same resource.
\<close>

theorem Resource_reread:
  assumes "json_laws J" "Resource_json J v = Inr r"
  shows "Resource_json J (print_resource J r) = Inr r"
  using assms by (rule Resource_json_print)

lemma Resource_reread_witness:
  "\<exists>r. Resource_json (ref_json []) (print_resource (ref_json []) r) = Inr r \<and>
     res_mCouplingMap r = [[0, 12]] \<and> res_mNativeGateset r = [cz_gate [[0, 1]]]"
proof -
  have "Resource_json (ref_json [])
      (resource_to_json (ref_json []) ''QExa'' 20 True [(0, 12)] [cz_gate [[0, 1]]]) =
    Inr \<lparr>res_mName = ''QExa'', res_mQubitCount = 20, res_mOnline = True,
      res_mCouplingMap = map pair_row [(0, 12)], res_mNativeGateset = [cz_gate [[0, 1]]]\<rparr>"
    by (intro Resource_json_read ref_json_laws)
      (simp_all add: printable_gate_def getGateProterties_def int_qubit_def cz_gate_def)
  from Resource_reread[OF ref_json_laws this] show ?thesis
    by (intro exI conjI) (assumption | simp add: pair_row_def)+
qed

text \<open>C17. The loop over the gates parses each gate on its own: although \<open>supportedQubits\<close> is declared
  outside of the loop, the result is the reference \<open>read_gate\<close> applied to each match, so no
  qubits of one gate reach another; and one unknown gate name makes the whole extraction throw.
\<close>

theorem extractGates_per_gate:
  assumes "json_laws J" "j_find J v k = Some (j_str J t)"
  shows "extractGates J v k = mapE read_gate (rx_all gate_re t) \<and>
    ((\<exists>m \<in> set (rx_all gate_re t). map_of known_gates (capture 1 m) = None) \<longrightarrow>
       (\<exists>e. extractGates J v k = Inl e \<and> parse_error e))"
proof (intro conjI impI)
  show e: "extractGates J v k = mapE read_gate (rx_all gate_re t)"
    using assms gates_none
    by (simp add: extractGates_def extractGates_loop_read json_str_is_string json_str_get_ref)
  assume "\<exists>m \<in> set (rx_all gate_re t). map_of known_gates (capture 1 m) = None"
  with read_gate_unknown mapE_throws obtain e' where "extractGates J v k = Inl e'"
    unfolding e by metis
  then show "\<exists>e. extractGates J v k = Inl e \<and> parse_error e"
    using extractGates_error by auto
qed

lemma extractGates_per_gate_witness:
  "extractGates (ref_json []) (JObj [(''g'', JStr (py_gates [cz_gate [[0, 1]], cz_gate [[2, 3]]]))]) ''g'' =
     mapE read_gate (map gate_tags [cz_gate [[0, 1]], cz_gate [[2, 3]]]) \<and>
   mapE read_gate (map gate_tags [cz_gate [[0, 1]], cz_gate [[2, 3]]]) =
     Inr [cz_gate [[0, 1]], cz_gate [[2, 3]]]"
proof -
  let ?gs = "[cz_gate [[0, 1]], cz_gate [[2, 3]]]"
  let ?v = "JObj [(''g'', JStr (py_gates ?gs))]"
  have p: "\<forall>g \<in> set ?gs. printable_gate g"
    by (simp add: printable_gate_def getGateProterties_def int_qubit_def cz_gate_def)
  have f: "j_find (ref_json []) ?v ''g'' = Some (j_str (ref_json []) (py_gates ?gs))" by simp
  have "extractGates (ref_json []) ?v ''g'' = mapE read_gate (map gate_tags ?gs)"
    using extractGates_per_gate[OF ref_json_laws f] gates_scan[OF p] by metis
  moreover have "extractGates (ref_json []) ?v ''g'' = Inr ?gs"
    by (rule extractGates_read[OF ref_json_laws f p])
  ultimately show ?thesis by simp
qed

end
