(* ===== verification/Transport.thy ===== *)
theory Transport
  imports Json
begin

text \<open>
  The interface \<open>MQSSBaseClient\<close> of \<open>include/mqss/client.h\<close>: three virtual calls, as a record
  of functions over the state \<open>'s\<close> of what lies behind the transport. The REST client, the HPC
  client and a test's mock are values of this record.
\<close>

record ('s, 'j) base_client =
  bc_get :: "string \<Rightarrow> ('s, string) io"
  bc_post :: "string \<Rightarrow> 'j \<Rightarrow> ('s, string) io"
  bc_del :: "string \<Rightarrow> ('s, unit) io"

text \<open>
  What \<open>MQSSClient\<close> relies on: a failing transport shows up in \<open>get\<close> and \<open>post\<close> as a
  response (the empty one), never as a \<open>std::runtime_error\<close>. \<open>del\<close> may throw.
\<close>

locale quiet_transport =
  fixes T :: "('s, 'j) base_client"
  assumes get_quiet: "bc_get T path s = (Exc e, t) \<Longrightarrow> \<not> is_runtime_error e"
    and post_quiet: "bc_post T path data s = (Exc e, t) \<Longrightarrow> \<not> is_runtime_error e"

text \<open>
  A transport that answers from a script, one response per call, as the mock of
  \<open>tests/unit/c++/mock_server.h\<close> does: used to run the client on concrete inputs.
\<close>

definition next_response :: "string list \<Rightarrow> string outcome \<times> string list" where
  "next_response rs = (case rs of [] \<Rightarrow> (Ret [], []) | r # rs' \<Rightarrow> (Ret r, rs'))"

definition script_transport :: "(string list, 'j) base_client" where
  "script_transport = \<lparr>
     bc_get = (\<lambda>path. next_response),
     bc_post = (\<lambda>path data. next_response),
     bc_del = (\<lambda>path rs. (Ret (), rs))\<rparr>"

lemma script_transport_simps [simp]:
  "bc_get script_transport path [] = (Ret [], [])"
  "bc_get script_transport path (r # rs) = (Ret r, rs)"
  "bc_post script_transport path data [] = (Ret [], [])"
  "bc_post script_transport path data (r # rs) = (Ret r, rs)"
  "bc_del script_transport path rs = (Ret (), rs)"
  by (simp_all add: script_transport_def next_response_def)

interpretation script: quiet_transport script_transport
  by unfold_locales (auto simp: script_transport_def next_response_def split: list.splits)

end
