(* ===== verification/Ordered_Map.thy ===== *)
theory Ordered_Map
  imports Prelude
begin

text \<open>
  \<open>std::map\<close> as the program uses it: \<open>m[k] = v\<close> on a map that is then walked in key order. The
  interface says what an insertion does to every lookup; the implementation is a list of
  entries in strictly increasing key order (the order in which the C++ iteration visits them).
\<close>

locale ordered_map =
  fixes empty :: 'm
    and insert_entry :: "'k \<Rightarrow> 'v \<Rightarrow> 'm \<Rightarrow> 'm"
    and lookup :: "'m \<Rightarrow> 'k \<rightharpoonup> 'v"
    and invar :: "'m \<Rightarrow> bool"
  assumes invar_empty: "invar empty"
    and invar_insert: "invar m \<Longrightarrow> invar (insert_entry k v m)"
    and lookup_empty: "lookup empty = Map.empty"
    and lookup_insert: "invar m \<Longrightarrow> lookup (insert_entry k v m) = (lookup m)(k \<mapsto> v)"
begin

text \<open>A loop of insertions keeps the last value given for a key.\<close>

lemma insert_all:
  "invar m \<Longrightarrow>
     invar (foldl (\<lambda>m (k, v). insert_entry k v m) m kvs) \<and>
     lookup (foldl (\<lambda>m (k, v). insert_entry k v m) m kvs) = lookup m ++ map_of (rev kvs)"
proof (induction kvs arbitrary: m)
  case (Cons kv kvs)
  obtain k v where kv: "kv = (k, v)" by (cases kv)
  have "(lookup m)(k \<mapsto> v) ++ map_of (rev kvs) = lookup m ++ map_of (rev kvs @ [(k, v)])"
    by (simp add: map_of_append[symmetric] map_add_assoc[symmetric] fun_eq_iff map_add_def
        split: option.splits)
  with Cons.IH[OF invar_insert[OF Cons.prems, of k v]] lookup_insert[OF Cons.prems, of k v]
  show ?case by (simp add: kv fun_upd_def)
qed simp

lemma insert_all_empty:
  "invar (foldl (\<lambda>m (k, v). insert_entry k v m) empty kvs)"
  "lookup (foldl (\<lambda>m (k, v). insert_entry k v m) empty kvs) = map_of (rev kvs)"
  using insert_all[OF invar_empty] by (simp_all add: lookup_empty)

end

fun map_insert :: "'k::linorder \<Rightarrow> 'v \<Rightarrow> ('k \<times> 'v) list \<Rightarrow> ('k \<times> 'v) list" where
  "map_insert k v [] = [(k, v)]"
| "map_insert k v ((k', v') # m) =
     (if k < k' then (k, v) # (k', v') # m
      else if k = k' then (k, v) # m
      else (k', v') # map_insert k v m)"

definition sorted_map :: "('k::linorder \<times> 'v) list \<Rightarrow> bool" where
  "sorted_map m \<longleftrightarrow> sorted_wrt (<) (map fst m)"

lemma map_insert_keys: "set (map fst (map_insert k v m)) = insert k (set (map fst m))"
  by (induction k v m rule: map_insert.induct) auto

lemma map_insert_sorted: "sorted_map m \<Longrightarrow> sorted_map (map_insert k v m)"
proof (induction k v m rule: map_insert.induct)
  case (2 k v k' v' m)
  have "\<forall>x \<in> set (map fst (map_insert k v m)). k' < x"
    if "\<not> k < k'" "k \<noteq> k'"
    using that "2.prems" unfolding map_insert_keys by (auto simp: sorted_map_def)
  with 2 show ?case by (auto simp: sorted_map_def)
qed (simp add: sorted_map_def)

lemma map_of_map_insert: "map_of (map_insert k v m) = (map_of m)(k \<mapsto> v)"
  by (induction k v m rule: map_insert.induct) auto

interpretation smap: ordered_map "[]" map_insert map_of sorted_map
  by unfold_locales (auto simp: map_insert_sorted map_of_map_insert, simp add: sorted_map_def)

lemma sorted_map_distinct: "sorted_map m \<Longrightarrow> distinct (map fst m)"
  by (simp add: sorted_map_def strict_sorted_iff)

text \<open>Inserting the entries of a map that is already in order rebuilds it.\<close>

lemma map_insert_last:
  "\<forall>x \<in> set (map fst m). x < k \<Longrightarrow> map_insert k v m = m @ [(k, v)]"
  by (induction m) (auto simp: less_not_sym)

lemma insert_sorted_entries:
  "sorted_map (m @ kvs) \<Longrightarrow> foldl (\<lambda>m (k, v). map_insert k v m) m kvs = m @ kvs"
proof (induction kvs arbitrary: m)
  case (Cons kv kvs)
  then have "map_insert (fst kv) (snd kv) m = m @ [kv]"
    by (subst map_insert_last) (auto simp: sorted_map_def sorted_wrt_append)
  with Cons show ?case by (cases kv) simp
qed simp

end
