(* ===== verification/Job.thy ===== *)
theory Job
  imports Json Ordered_Map
begin

text \<open>
  \<open>include/mqss/job.h\<close> and \<open>src/job.cpp\<close>: the job requests with their JSON payload and their
  path, and the result of a job built from the server's JSON.
\<close>

section \<open>Requests\<close>

record job_request =
  mUuid :: string

record circuit_job = job_request +
  cj_mCircuit :: string
  cj_mCircuitFormat :: string
  cj_mResourceName :: string
  cj_mShots :: u32
  cj_mNoModify :: bool
  cj_mQueued :: bool

record hamiltonian_job = job_request +
  hj_mResourceName :: string
  hj_mInteractionStr :: string
  hj_mCoefficientsStr :: string

text \<open>What a \<open>JobRequest&\<close> can refer to; the virtual calls are resolved on it.\<close>

datatype job = CircuitJob circuit_job | HamiltonianJob hamiltonian_job

definition CircuitJobRequest ::
  "string \<Rightarrow> string \<Rightarrow> string \<Rightarrow> u32 \<Rightarrow> bool \<Rightarrow> bool \<Rightarrow> circuit_job" where
  "CircuitJobRequest circuit circuitFormat resourceName shots noModify queued =
     \<lparr>mUuid = [], cj_mCircuit = circuit, cj_mCircuitFormat = circuitFormat,
      cj_mResourceName = resourceName, cj_mShots = shots, cj_mNoModify = noModify,
      cj_mQueued = queued\<rparr>"

text \<open>
  The default constructor leaves \<open>mShots\<close>, \<open>mNoModify\<close> and \<open>mQueued\<close> uninitialised: their
  values are whatever the memory held, so they are arguments here.
\<close>

definition CircuitJobRequest_default :: "u32 \<Rightarrow> bool \<Rightarrow> bool \<Rightarrow> circuit_job" where
  "CircuitJobRequest_default junkShots junkNoModify junkQueued =
     \<lparr>mUuid = [], cj_mCircuit = [], cj_mCircuitFormat = [], cj_mResourceName = [],
      cj_mShots = junkShots, cj_mNoModify = junkNoModify, cj_mQueued = junkQueued\<rparr>"

definition setCircuit :: "string \<Rightarrow> circuit_job \<Rightarrow> circuit_job" where
  "setCircuit circuit j = j\<lparr>cj_mCircuit := circuit\<rparr>"

definition setCircuitFormat :: "string \<Rightarrow> circuit_job \<Rightarrow> circuit_job" where
  "setCircuitFormat circuitFormat j = j\<lparr>cj_mCircuitFormat := circuitFormat\<rparr>"

definition setResourceName :: "string \<Rightarrow> circuit_job \<Rightarrow> circuit_job" where
  "setResourceName resourceName j = j\<lparr>cj_mResourceName := resourceName\<rparr>"

definition setShots :: "u32 \<Rightarrow> circuit_job \<Rightarrow> circuit_job" where
  "setShots shots j = j\<lparr>cj_mShots := shots\<rparr>"

definition setNoModify :: "bool \<Rightarrow> circuit_job \<Rightarrow> circuit_job" where
  "setNoModify noModify j = j\<lparr>cj_mNoModify := noModify\<rparr>"

definition setQueued :: "bool \<Rightarrow> circuit_job \<Rightarrow> circuit_job" where
  "setQueued queued j = j\<lparr>cj_mQueued := queued\<rparr>"

definition HamiltonianJobRequest :: "string \<Rightarrow> string \<Rightarrow> string \<Rightarrow> hamiltonian_job" where
  "HamiltonianJobRequest resourceName interactionStr coefficientsStr =
     \<lparr>mUuid = [], hj_mResourceName = resourceName, hj_mInteractionStr = interactionStr,
      hj_mCoefficientsStr = coefficientsStr\<rparr>"

definition HamiltonianJobRequest_default :: hamiltonian_job where
  "HamiltonianJobRequest_default =
     \<lparr>mUuid = [], hj_mResourceName = [], hj_mInteractionStr = [], hj_mCoefficientsStr = []\<rparr>"

definition setHamiltonianResourceName :: "string \<Rightarrow> hamiltonian_job \<Rightarrow> hamiltonian_job" where
  "setHamiltonianResourceName resourceName j = j\<lparr>hj_mResourceName := resourceName\<rparr>"

definition setInteractionString :: "string \<Rightarrow> hamiltonian_job \<Rightarrow> hamiltonian_job" where
  "setInteractionString interactionStr j = j\<lparr>hj_mInteractionStr := interactionStr\<rparr>"

definition setCoefficientsString :: "string \<Rightarrow> hamiltonian_job \<Rightarrow> hamiltonian_job" where
  "setCoefficientsString coefficientsStr j = j\<lparr>hj_mCoefficientsStr := coefficientsStr\<rparr>"

fun getUuid :: "job \<Rightarrow> string" where
  "getUuid (CircuitJob j) = mUuid j"
| "getUuid (HamiltonianJob j) = mUuid j"

fun setUuid :: "string \<Rightarrow> job \<Rightarrow> job" where
  "setUuid uuid (CircuitJob j) = CircuitJob (j\<lparr>mUuid := uuid\<rparr>)"
| "setUuid uuid (HamiltonianJob j) = HamiltonianJob (j\<lparr>mUuid := uuid\<rparr>)"

fun getPath :: "job \<Rightarrow> string" where
  "getPath (CircuitJob j) = ''job''"
| "getPath (HamiltonianJob j) = ''hamiltonian_job''"

definition circuit_toJson :: "'j json_api \<Rightarrow> bool \<Rightarrow> circuit_job \<Rightarrow> 'j" where
  "circuit_toJson J isHpc j =
     j_object J
       [(''circuit'', if isHpc then j_array J [j_str J (cj_mCircuit j)] else j_str J (cj_mCircuit j)),
        (''circuit_format'', j_str J (cj_mCircuitFormat j)),
        (''resource_name'', j_str J (cj_mResourceName j)),
        (''shots'', j_uint J (cj_mShots j)),
        (''no_modify'', j_bool J (cj_mNoModify j)),
        (''queued'', j_bool J (cj_mQueued j))]"

definition hamiltonian_toJson :: "'j json_api \<Rightarrow> bool \<Rightarrow> hamiltonian_job \<Rightarrow> 'j" where
  "hamiltonian_toJson J isHpc j =
     j_object J
       [(''resource_name'', j_str J (hj_mResourceName j)),
        (''interaction_str'', j_str J (hj_mInteractionStr j)),
        (''coefficients_str'', j_str J (hj_mCoefficientsStr j))]"

fun toJson :: "'j json_api \<Rightarrow> bool \<Rightarrow> job \<Rightarrow> 'j" where
  "toJson J isHpc (CircuitJob j) = circuit_toJson J isHpc j"
| "toJson J isHpc (HamiltonianJob j) = hamiltonian_toJson J isHpc j"

section \<open>Results\<close>

type_synonym counts = "(string \<times> u32) list"

record job_result =
  jr_mResults :: "counts list"
  jr_mTimestampCompleted :: string
  jr_mTimestampSubmitted :: string
  jr_mTimestampScheduled :: string

text \<open>The constructor from members.\<close>

definition JobResult_members :: "counts list \<Rightarrow> string \<Rightarrow> string \<Rightarrow> string \<Rightarrow> job_result" where
  "JobResult_members results timestampCompleted timestampSubmitted timestampScheduled =
     \<lparr>jr_mResults = results, jr_mTimestampCompleted = timestampCompleted,
      jr_mTimestampSubmitted = timestampSubmitted, jr_mTimestampScheduled = timestampScheduled\<rparr>"

text \<open>The inner loop, \<open>result[key] = value.get<unsigned int>()\<close> over the items of one object.\<close>

fun result_loop :: "'j json_api \<Rightarrow> (string \<times> 'j) list \<Rightarrow> counts \<Rightarrow> counts result" where
  "result_loop J [] result = Inr result"
| "result_loop J ((key, value) # kvs) result =
     bind_sum (jx (j_get_unsigned J value)) (\<lambda>n. result_loop J kvs (map_insert key n result))"

definition result_maps :: "'j json_api \<Rightarrow> 'j \<Rightarrow> counts list result" where
  "result_maps J resultMaps =
     (if j_is_array J resultMaps
      then mapE (\<lambda>resultMap. result_loop J (j_items J resultMap) []) (j_elems J resultMaps)
      else bind_sum (result_loop J (j_items J resultMaps) []) (\<lambda>result. Inr [result]))"

definition json_timestamp :: "'j json_api \<Rightarrow> 'j \<Rightarrow> string \<Rightarrow> string result" where
  "json_timestamp J parsed key = bind_sum (jx (j_at J parsed key)) (\<lambda>t. jx (j_get_string J t))"

text \<open>The object the early return leaves: no results, empty timestamps.\<close>

definition empty_job_result :: job_result where
  "empty_job_result =
     \<lparr>jr_mResults = [], jr_mTimestampCompleted = [], jr_mTimestampSubmitted = [],
      jr_mTimestampScheduled = []\<rparr>"

definition JobResult_json :: "'j json_api \<Rightarrow> 'j \<Rightarrow> job_result result" where
  "JobResult_json J parsed =
     bind_sum (jx (j_at J parsed ''result'')) (\<lambda>r.
     bind_sum (jx (j_get_ref_string J r)) (\<lambda>rResultStr.
       if \<not> j_accept J rResultStr then Inr empty_job_result
       else
         bind_sum (jx (j_parse J rResultStr)) (\<lambda>resultMaps.
         bind_sum (result_maps J resultMaps) (\<lambda>results.
         bind_sum (json_timestamp J parsed ''timestamp_completed'') (\<lambda>completed.
         bind_sum (json_timestamp J parsed ''timestamp_submitted'') (\<lambda>submitted.
         bind_sum (json_timestamp J parsed ''timestamp_scheduled'') (\<lambda>scheduled.
           Inr \<lparr>jr_mResults = results, jr_mTimestampCompleted = completed,
                jr_mTimestampSubmitted = submitted, jr_mTimestampScheduled = scheduled\<rparr>)))))))"

section \<open>Facts on requests\<close>

lemma getUuid_setUuid [simp]: "getUuid (setUuid u j) = u"
  by (cases j) simp_all

lemma getPath_setUuid [simp]: "getPath (setUuid u j) = getPath j"
  by (cases j) simp_all

lemma toJson_setUuid [simp]: "toJson J h (setUuid u j) = toJson J h j"
  by (cases j) (simp_all add: circuit_toJson_def hamiltonian_toJson_def)

lemmas circuit_setters =
  setCircuit_def setCircuitFormat_def setResourceName_def setShots_def setNoModify_def setQueued_def

lemmas hamiltonian_setters =
  setHamiltonianResourceName_def setInteractionString_def setCoefficientsString_def

definition circuit_members :: "'j json_api \<Rightarrow> bool \<Rightarrow> circuit_job \<Rightarrow> (string \<times> 'j) list" where
  "circuit_members J isHpc j =
     [(''circuit'', if isHpc then j_array J [j_str J (cj_mCircuit j)] else j_str J (cj_mCircuit j)),
      (''circuit_format'', j_str J (cj_mCircuitFormat j)),
      (''resource_name'', j_str J (cj_mResourceName j)),
      (''shots'', j_uint J (cj_mShots j)),
      (''no_modify'', j_bool J (cj_mNoModify j)),
      (''queued'', j_bool J (cj_mQueued j))]"

lemma circuit_toJson_find:
  assumes "json_laws J"
  shows "j_is_object J (circuit_toJson J h j)"
    and "j_find J (circuit_toJson J h j) k = map_of (circuit_members J h j) k"
proof -
  have d: "distinct (map fst (circuit_members J h j))" by (simp add: circuit_members_def)
  have e: "circuit_toJson J h j = j_object J (circuit_members J h j)"
    by (simp add: circuit_toJson_def circuit_members_def)
  show "j_is_object J (circuit_toJson J h j)"
    unfolding e by (rule json_object[OF assms d])
  show "j_find J (circuit_toJson J h j) k = map_of (circuit_members J h j) k"
    unfolding e by (rule json_object_find[OF assms d])
qed

text \<open>
  What a server reads from a circuit payload: the members by name, the circuit either as a
  string or, in HPC mode, as the only element of an array.
\<close>

definition read_member :: "'j json_api \<Rightarrow> 'j \<Rightarrow> string \<Rightarrow> string option" where
  "read_member J v k =
     (case j_find J v k of
        None \<Rightarrow> None
      | Some x \<Rightarrow> (case j_get_string J x of Inl m \<Rightarrow> None | Inr s \<Rightarrow> Some s))"

definition read_circuit :: "'j json_api \<Rightarrow> bool \<Rightarrow> 'j \<Rightarrow> string option" where
  "read_circuit J isHpc v =
     (if isHpc then
        (case j_find J v ''circuit'' of
           None \<Rightarrow> None
         | Some a \<Rightarrow>
             (case j_elems J a of
                [x] \<Rightarrow> (case j_get_string J x of Inl m \<Rightarrow> None | Inr s \<Rightarrow> Some s)
              | _ \<Rightarrow> None))
      else read_member J v ''circuit'')"

definition read_shots :: "'j json_api \<Rightarrow> 'j \<Rightarrow> u32 option" where
  "read_shots J v =
     (case j_find J v ''shots'' of
        None \<Rightarrow> None
      | Some x \<Rightarrow> (case j_get_unsigned J x of Inl m \<Rightarrow> None | Inr n \<Rightarrow> Some n))"

lemma circuit_toJson_read:
  assumes "json_laws J"
  shows "read_circuit J h (circuit_toJson J h j) = Some (cj_mCircuit j)"
    and "read_member J (circuit_toJson J h j) ''circuit_format'' = Some (cj_mCircuitFormat j)"
    and "read_member J (circuit_toJson J h j) ''resource_name'' = Some (cj_mResourceName j)"
    and "read_shots J (circuit_toJson J h j) = Some (cj_mShots j)"
    and "j_value_bool J (circuit_toJson J h j) ''no_modify'' b = Inr (cj_mNoModify j)"
    and "j_value_bool J (circuit_toJson J h j) ''queued'' b = Inr (cj_mQueued j)"
proof -
  note find = circuit_toJson_find(2)[OF assms] and build = json_build[OF assms]
  show "read_circuit J h (circuit_toJson J h j) = Some (cj_mCircuit j)"
    by (simp add: read_circuit_def read_member_def find build circuit_members_def)
  show "read_member J (circuit_toJson J h j) ''circuit_format'' = Some (cj_mCircuitFormat j)"
    "read_member J (circuit_toJson J h j) ''resource_name'' = Some (cj_mResourceName j)"
    by (simp_all add: read_member_def find build circuit_members_def)
  show "read_shots J (circuit_toJson J h j) = Some (cj_mShots j)"
    by (simp add: read_shots_def find build circuit_members_def)
  show "j_value_bool J (circuit_toJson J h j) ''no_modify'' b = Inr (cj_mNoModify j)"
    by (rule json_value_bool[OF assms circuit_toJson_find(1)[OF assms]])
      (simp add: find circuit_members_def)
  show "j_value_bool J (circuit_toJson J h j) ''queued'' b = Inr (cj_mQueued j)"
    by (rule json_value_bool[OF assms circuit_toJson_find(1)[OF assms]])
      (simp add: find circuit_members_def)
qed

lemma hamiltonian_toJson_read:
  assumes "json_laws J"
  shows "read_member J (hamiltonian_toJson J h j) ''resource_name'' = Some (hj_mResourceName j)"
    and "read_member J (hamiltonian_toJson J h j) ''interaction_str'' = Some (hj_mInteractionStr j)"
    and "read_member J (hamiltonian_toJson J h j) ''coefficients_str'' = Some (hj_mCoefficientsStr j)"
proof -
  let ?m = "[(''resource_name'', j_str J (hj_mResourceName j)),
        (''interaction_str'', j_str J (hj_mInteractionStr j)),
        (''coefficients_str'', j_str J (hj_mCoefficientsStr j))]"
  have find: "j_find J (hamiltonian_toJson J h j) k = map_of ?m k" for k
    unfolding hamiltonian_toJson_def by (rule json_object_find[OF assms]) simp
  show "read_member J (hamiltonian_toJson J h j) ''resource_name'' = Some (hj_mResourceName j)"
    "read_member J (hamiltonian_toJson J h j) ''interaction_str'' = Some (hj_mInteractionStr j)"
    "read_member J (hamiltonian_toJson J h j) ''coefficients_str'' = Some (hj_mCoefficientsStr j)"
    by (simp_all add: read_member_def find json_build[OF assms])
qed

section \<open>Facts on results\<close>

lemma result_loop_fold:
  assumes "\<forall>kv \<in> set kvs. j_get_unsigned J (snd kv) = Inr (val (snd kv))"
  shows "result_loop J kvs m =
    Inr (foldl (\<lambda>m (k, v). map_insert k v m) m (map (apsnd val) kvs))"
  using assms by (induction kvs arbitrary: m) auto

lemma result_loop_sorted: "result_loop J kvs m = Inr r \<Longrightarrow> sorted_map m \<Longrightarrow> sorted_map r"
  by (induction kvs arbitrary: m) (auto simp: sum_simps map_insert_sorted)

lemma result_loop_error: "result_loop J kvs m = Inl e \<Longrightarrow> \<exists>t. e = Json_exn t"
  by (induction kvs arbitrary: m) (auto simp: sum_simps)

lemma result_maps_error: "result_maps J v = Inl e \<Longrightarrow> \<exists>t. e = Json_exn t"
  by (auto simp: result_maps_def sum_simps elim!: mapE_Inl dest: result_loop_error
      split: if_splits)

lemma JobResult_json_error: "JobResult_json J v = Inl e \<Longrightarrow> \<exists>t. e = Json_exn t"
  by (auto simp: JobResult_json_def json_timestamp_def sum_simps dest: result_maps_error
      split: if_splits)

lemma mapE_all_Inr: "mapE f xs = Inr ys \<Longrightarrow> y \<in> set ys \<Longrightarrow> \<exists>x \<in> set xs. f x = Inr y"
  by (induction xs arbitrary: ys) (auto simp: sum_simps)

lemma result_maps_sorted: "result_maps J v = Inr rs \<Longrightarrow> r \<in> set rs \<Longrightarrow> sorted_map r"
  by (auto simp: result_maps_def sum_simps sorted_map_def dest!: mapE_all_Inr
      dest: result_loop_sorted[unfolded sorted_map_def] split: if_splits)

lemma JobResult_json_sorted:
  "JobResult_json J v = Inr r \<Longrightarrow> c \<in> set (jr_mResults r) \<Longrightarrow> sorted_map c"
  by (auto simp: JobResult_json_def sum_simps empty_job_result_def dest: result_maps_sorted
      split: if_splits)

end
