(* ===== verification/Client.thy ===== *)
theory Client
  imports Transport Resource Job
begin

text \<open>
  \<open>MQSSClient\<close> of \<open>include/mqss/client.h\<close> and \<open>src/client.cpp\<close> over an arbitrary transport. The
  state of a call is the transport's state and the trace of what the client did: every
  transport call with its outcome and every \<open>sleep_for\<close>. The trace is history only; no
  operation reads it.
\<close>

section \<open>State\<close>

datatype event =
    EvGet string "string outcome"
  | EvPost string "string outcome"
  | EvDel string "unit outcome"
  | EvSleep int

record 's sys =
  net :: 's
  trace :: "event list"

record ('s, 'j) mqss_client =
  mIsHpc :: bool
  mClient :: "('s, 'j) base_client"

definition call_get :: "('s, 'j) mqss_client \<Rightarrow> string \<Rightarrow> ('s sys, string) io" where
  "call_get C path = (\<lambda>w. case bc_get (mClient C) path (net w) of
     (r, n) \<Rightarrow> (r, \<lparr>net = n, trace = trace w @ [EvGet path r]\<rparr>))"

definition call_post :: "('s, 'j) mqss_client \<Rightarrow> string \<Rightarrow> 'j \<Rightarrow> ('s sys, string) io" where
  "call_post C path data = (\<lambda>w. case bc_post (mClient C) path data (net w) of
     (r, n) \<Rightarrow> (r, \<lparr>net = n, trace = trace w @ [EvPost path r]\<rparr>))"

definition call_del :: "('s, 'j) mqss_client \<Rightarrow> string \<Rightarrow> ('s sys, unit) io" where
  "call_del C path = (\<lambda>w. case bc_del (mClient C) path (net w) of
     (r, n) \<Rightarrow> (r, \<lparr>net = n, trace = trace w @ [EvDel path r]\<rparr>))"

definition sleep_for :: "int \<Rightarrow> 's sys \<Rightarrow> 's sys" where
  "sleep_for seconds w = w\<lparr>trace := trace w @ [EvSleep seconds]\<rparr>"

section \<open>Resources\<close>

definition getAllResources ::
  "'j json_api \<Rightarrow> ('s, 'j) mqss_client \<Rightarrow> ('s sys, resource list) io" where
  "getAllResources J C =
     bind_io (call_get C ''resources'') (\<lambda>resp.
       if \<not> j_accept J resp then ret_io []
       else
         bind_io (lift_sum (jx (j_parse J resp))) (\<lambda>parsed.
           lift_sum (mapE (Resource_json J) (j_elems J parsed))))"

definition getResourceInfo ::
  "'j json_api \<Rightarrow> ('s, 'j) mqss_client \<Rightarrow> string \<Rightarrow> ('s sys, resource option) io" where
  "getResourceInfo J C resource =
     bind_io (call_get C (''resources/'' @ resource)) (\<lambda>resp.
       if str_find ''RESOURCE NOT FOUND'' resp \<noteq> None then ret_io None
       else if \<not> j_accept J resp then ret_io None
       else
         bind_io (lift_sum (jx (j_parse J resp))) (\<lambda>parsed.
           if j_contains J parsed ''ERROR'' then ret_io None
           else bind_io (lift_sum (Resource_json J parsed)) (\<lambda>r. ret_io (Some r))))"

definition getNumberPendingJobs ::
  "'j json_api \<Rightarrow> ('s, 'j) mqss_client \<Rightarrow> string \<Rightarrow> ('s sys, int) io" where
  "getNumberPendingJobs J C resource =
     bind_io (call_get C (''resources/'' @ resource @ ''/num_pending_jobs'')) (\<lambda>resp.
       if resp = [] \<or> \<not> j_accept J resp then ret_io (- 1)
       else
         bind_io (lift_sum (jx (j_parse J resp))) (\<lambda>parsed.
           lift_sum (jx (j_value_int J parsed ''num_pending_jobs'' (- 1)))))"

section \<open>Jobs\<close>

text \<open>The job is passed by reference: the call returns it as it leaves it.\<close>

definition submitJob ::
  "'j json_api \<Rightarrow> ('s, 'j) mqss_client \<Rightarrow> job \<Rightarrow> ('s sys, string option \<times> job) io" where
  "submitJob J C job =
     bind_io (call_post C (getPath job) (toJson J (mIsHpc C) job)) (\<lambda>result.
       if result = [] \<or> \<not> j_accept J result then ret_io (None, job)
       else
         bind_io (lift_sum (jx (j_parse J result))) (\<lambda>parsed.
           if \<not> j_contains J parsed ''uuid'' then ret_io (None, job)
           else
             bind_io (lift_sum (jx (j_index J parsed ''uuid''))) (\<lambda>u.
             bind_io (lift_sum (jx (j_get_string J u))) (\<lambda>uuid.
               ret_io (Some uuid, setUuid uuid job)))))"

definition job_url :: "job \<Rightarrow> string" where
  "job_url job = getPath job @ ''/'' @ getUuid job"

definition status_url :: "job \<Rightarrow> string" where
  "status_url job = job_url job @ ''/status''"

definition result_url :: "job \<Rightarrow> string" where
  "result_url job = job_url job @ ''/result''"

definition cancelJob :: "('s, 'j) mqss_client \<Rightarrow> job \<Rightarrow> ('s sys, unit) io" where
  "cancelJob C job = call_del C (job_url job)"

definition getJobStatus ::
  "'j json_api \<Rightarrow> ('s, 'j) mqss_client \<Rightarrow> job \<Rightarrow> ('s sys, string) io" where
  "getJobStatus J C job =
     bind_io (call_get C (status_url job)) (\<lambda>resp.
       if resp = [] then ret_io []
       else if \<not> j_accept J resp then ret_io []
       else
         bind_io (lift_sum (jx (j_parse J resp))) (\<lambda>parsed.
           if j_contains J parsed ''status'' then
             bind_io (lift_sum (jx (j_index J parsed ''status''))) (\<lambda>status.
               if j_is_string J status then lift_sum (jx (j_get_string J status))
               else ret_io [])
           else ret_io []))"

text \<open>\<open>getJobResult(job)\<close>, that is with \<open>wait = false\<close>; \<open>nullptr\<close> is \<open>None\<close>.\<close>

definition getJobResult_now ::
  "'j json_api \<Rightarrow> ('s, 'j) mqss_client \<Rightarrow> job \<Rightarrow> ('s sys, job_result option) io" where
  "getJobResult_now J C job =
     bind_io (call_get C (result_url job)) (\<lambda>resp.
       if resp = [] \<or> \<not> j_accept J resp then ret_io None
       else
         bind_io (lift_sum (jx (j_parse J resp))) (\<lambda>parsed.
           bind_io (lift_sum (JobResult_json J parsed)) (\<lambda>r. ret_io (Some r))))"

text \<open>
  The polling loop, as a function that may not return: with \<open>pollSeconds = 0\<close> it would not.
  Its only caller uses the default argument 2.
\<close>

partial_function (option) waitForJobResult ::
  "'j json_api \<Rightarrow> ('s, 'j) mqss_client \<Rightarrow> job \<Rightarrow> int \<Rightarrow> int \<Rightarrow> 's sys \<Rightarrow>
    (job_result option outcome \<times> 's sys) option" where
  "waitForJobResult J C job timeout pollSeconds w =
     (if timeout > 0 then
        (case getJobStatus J C job w of
           (Exc e, w1) \<Rightarrow> Some (Exc e, w1)
         | (Hang, w1) \<Rightarrow> Some (Hang, w1)
         | (Ret status, w1) \<Rightarrow>
             if status = ''COMPLETED'' then Some (getJobResult_now J C job w1)
             else if status = ''FAILED'' \<or> status = ''CANCELLED'' \<or> status = [] then
               Some (Ret None, w1)
             else
               let sleepSeconds = min timeout pollSeconds in
               waitForJobResult J C job (timeout - sleepSeconds) pollSeconds
                 (sleep_for sleepSeconds w1))
      else Some (Ret None, w))"

text \<open>The implicit conversion of a \<open>size_t\<close> argument to an \<open>int\<close> parameter.\<close>

definition size_to_int :: "u64 \<Rightarrow> int" where
  "size_to_int n = sint (ucast n :: u32)"

definition getJobResult ::
  "'j json_api \<Rightarrow> ('s, 'j) mqss_client \<Rightarrow> job \<Rightarrow> bool \<Rightarrow> u64 \<Rightarrow>
    ('s sys, job_result option) io" where
  "getJobResult J C job wait timeout = (\<lambda>w.
     if wait then
       (case waitForJobResult J C job (size_to_int timeout) 2 w of
          Some r \<Rightarrow> r
        | None \<Rightarrow> (Hang, w))
     else getJobResult_now J C job w)"

end
