(* ===== verification/Client_Facts.thy ===== *)
theory Client_Facts
  imports Client
begin

text \<open>
  Facts on \<open>MQSSClient\<close>: each query is one transport call followed by a pure reading of the
  response; the trace every operation leaves; the exceptions it can end in; and the polling
  loop as a run of a small state machine, with the bounds on its polls and sleeps.
\<close>

section \<open>Reading a response changes no state\<close>

definition pure_io :: "('s, 'a) io \<Rightarrow> bool" where
  "pure_io m \<longleftrightarrow> (\<forall>s. snd (m s) = s)"

named_theorems pure_intros \<open>calls that leave the state alone\<close>

lemma pure_ret [pure_intros]: "pure_io (ret_io a)"
  by (simp add: pure_io_def)

lemma pure_lift [pure_intros]: "pure_io (lift_sum r)"
  by (cases r) (simp_all add: pure_io_def)

lemma pure_bind [pure_intros]: "pure_io m \<Longrightarrow> (\<And>a. pure_io (f a)) \<Longrightarrow> pure_io (bind_io m f)"
  unfolding pure_io_def bind_io_def by (auto split: prod.splits outcome.splits) (metis snd_conv)+

lemma pure_if [pure_intros]: "pure_io m \<Longrightarrow> pure_io n \<Longrightarrow> pure_io (if b then m else n)"
  by simp

lemma snd_bind_pure: "(\<And>a. pure_io (f a)) \<Longrightarrow> snd (bind_io m f s) = snd (m s)"
  by (auto simp: pure_io_def bind_io_def split: prod.splits outcome.splits)

lemma call_get_eval:
  "bc_get (mClient C) path (net w) = (r, n) \<Longrightarrow>
     call_get C path w = (r, \<lparr>net = n, trace = trace w @ [EvGet path r]\<rparr>)"
  by (simp add: call_get_def)

lemma call_get_trace: "trace (snd (call_get C path w)) = trace w @ [EvGet path (fst (call_get C path w))]"
  by (simp add: call_get_def split: prod.splits)

section \<open>One call, then a reading\<close>

definition status_of_response :: "'j json_api \<Rightarrow> string \<Rightarrow> string result" where
  "status_of_response J resp =
     (if resp = [] \<or> \<not> j_accept J resp then Inr []
      else
        bind_sum (jx (j_parse J resp)) (\<lambda>parsed.
          if j_contains J parsed ''status'' then
            bind_sum (jx (j_index J parsed ''status'')) (\<lambda>status.
              if j_is_string J status then jx (j_get_string J status) else Inr [])
          else Inr []))"

lemma lift_sum_bind: "bind_io (lift_sum r) f = (case r of Inl e \<Rightarrow> throw_io e | Inr a \<Rightarrow> f a)"
  by (cases r) (simp_all add: lift_sum_def)

lemma lift_sum_Inl [simp]: "lift_sum (Inl e) = throw_io e"
  by (simp add: lift_sum_def)

lemma lift_sum_Inr [simp]: "lift_sum (Inr a) = ret_io a"
  by (simp add: lift_sum_def)

lemma read_status:
  "(if resp = [] then ret_io []
    else if \<not> j_accept J resp then ret_io []
    else
      bind_io (lift_sum (jx (j_parse J resp))) (\<lambda>parsed.
        if j_contains J parsed ''status'' then
          bind_io (lift_sum (jx (j_index J parsed ''status''))) (\<lambda>status.
            if j_is_string J status then lift_sum (jx (j_get_string J status))
            else ret_io [])
        else ret_io [])) = lift_sum (status_of_response J resp)"
  by (auto simp: status_of_response_def lift_sum_bind bind_sum_def jx_def split: sum.splits)

lemma getJobStatus_reads:
  "getJobStatus J C job =
     bind_io (call_get C (status_url job)) (\<lambda>resp. lift_sum (status_of_response J resp))"
  unfolding getJobStatus_def read_status ..

lemma getJobStatus_cases:
  "getJobStatus J C job w =
     (case call_get C (status_url job) w of
        (Ret resp, w1) \<Rightarrow>
          (case status_of_response J resp of Inl e \<Rightarrow> (Exc e, w1) | Inr s \<Rightarrow> (Ret s, w1))
      | (Exc e, w1) \<Rightarrow> (Exc e, w1)
      | (Hang, w1) \<Rightarrow> (Hang, w1))"
  unfolding getJobStatus_reads bind_io_def
  by (auto simp: lift_sum_def split: prod.splits outcome.splits sum.splits)

text \<open>
  With a JSON library that behaves as documented the status is read without exceptions: the
  string member \<open>"status"\<close> of the response, and the empty string in every other case.
\<close>

definition response_status :: "'j json_api \<Rightarrow> string \<Rightarrow> string" where
  "response_status J resp =
     (if resp = [] then []
      else case j_parse J resp of
        Inl m \<Rightarrow> []
      | Inr v \<Rightarrow> (case j_find J v ''status'' of
            None \<Rightarrow> []
          | Some x \<Rightarrow> (case j_get_string J x of Inl m \<Rightarrow> [] | Inr s \<Rightarrow> s)))"

lemma status_of_response_total:
  assumes "json_laws J"
  shows "status_of_response J resp = Inr (response_status J resp)"
proof (cases "resp = [] \<or> (\<exists>m. j_parse J resp = Inl m)")
  case True
  then show ?thesis
    by (auto simp: status_of_response_def response_status_def json_accept[OF assms])
next
  case False
  then obtain v where v: "resp \<noteq> []" "j_parse J resp = Inr v"
    by (cases "j_parse J resp") auto
  show ?thesis
  proof (cases "j_find J v ''status''")
    case None
    with v show ?thesis
      by (simp add: status_of_response_def response_status_def json_accept[OF assms]
          json_contains[OF assms])
  next
    case (Some x)
    with v show ?thesis
      by (cases "j_get_string J x") (simp_all add: status_of_response_def response_status_def
          json_accept[OF assms] json_contains[OF assms] json_index[OF assms Some]
          json_is_string[OF assms])
  qed
qed

section \<open>Traces of the single calls\<close>

lemma getJobStatus_trace:
  "trace (snd (getJobStatus J C job w)) =
     trace w @ [EvGet (status_url job) (fst (call_get C (status_url job) w))]"
  unfolding getJobStatus_reads by (simp add: snd_bind_pure pure_intros call_get_trace)

lemma getJobResult_now_trace:
  "trace (snd (getJobResult_now J C job w)) =
     trace w @ [EvGet (result_url job) (fst (call_get C (result_url job) w))]"
  unfolding getJobResult_now_def by (simp add: snd_bind_pure pure_intros call_get_trace)

lemma status_url_neq_result_url [simp]:
  "status_url job \<noteq> result_url job" "result_url job \<noteq> status_url job"
  by (simp_all add: status_url_def result_url_def)

section \<open>Exceptions of the queries\<close>

lemma Resource_json_quiet: "Resource_json J v = Inl e \<Longrightarrow> \<not> is_runtime_error e"
  by (blast dest: Resource_json_error parse_error_not_runtime)

lemma JobResult_json_quiet: "JobResult_json J v = Inl e \<Longrightarrow> \<not> is_runtime_error e"
  by (auto dest: JobResult_json_error)

lemma mapE_quiet:
  "mapE f xs = Inl e \<Longrightarrow> (\<And>x e. f x = Inl e \<Longrightarrow> \<not> is_runtime_error e) \<Longrightarrow> \<not> is_runtime_error e"
  by (elim mapE_Inl) blast

lemma lift_bind_Exc:
  "bind_io (lift_sum r) f s = (Exc e, t) \<Longrightarrow> r = Inl e \<or> (\<exists>a. r = Inr a \<and> f a s = (Exc e, t))"
  by (cases r) auto

text \<open>
  A transport contract with no runtime errors carries over to every query of the client: what
  escapes from \<open>getAllResources\<close>, \<open>getResourceInfo\<close>, \<open>getNumberPendingJobs\<close>, \<open>submitJob\<close>,
  \<open>getJobStatus\<close> and \<open>getJobResult\<close> is never a \<open>std::runtime_error\<close>.
\<close>

context quiet_transport
begin

lemma call_get_quiet:
  assumes "mClient C = T" "call_get C path w = (Exc e, w')"
  shows "\<not> is_runtime_error e"
  using assms get_quiet[of path "net w" e] by (auto simp: call_get_def split: prod.splits)

lemma call_post_quiet:
  assumes "mClient C = T" "call_post C path d w = (Exc e, w')"
  shows "\<not> is_runtime_error e"
  using assms post_quiet[of path d "net w" e] by (auto simp: call_post_def split: prod.splits)

lemma getAllResources_quiet:
  assumes "mClient C = T" "getAllResources J C w = (Exc e, w')"
  shows "\<not> is_runtime_error e"
  using assms(2) unfolding getAllResources_def
  by (cases rule: bind_io_Exc_cases)
    (auto dest: call_get_quiet[OF assms(1)] dest!: lift_bind_Exc split: if_splits
      dest: mapE_quiet[OF _ Resource_json_quiet])

lemma getResourceInfo_quiet:
  assumes "mClient C = T" "getResourceInfo J C r w = (Exc e, w')"
  shows "\<not> is_runtime_error e"
  using assms(2) unfolding getResourceInfo_def
  by (cases rule: bind_io_Exc_cases)
    (auto dest: call_get_quiet[OF assms(1)] dest!: lift_bind_Exc split: if_splits
      dest: Resource_json_quiet)

lemma getNumberPendingJobs_quiet:
  assumes "mClient C = T" "getNumberPendingJobs J C r w = (Exc e, w')"
  shows "\<not> is_runtime_error e"
  using assms(2) unfolding getNumberPendingJobs_def
  by (cases rule: bind_io_Exc_cases)
    (auto dest: call_get_quiet[OF assms(1)] dest!: lift_bind_Exc split: if_splits)

lemma submitJob_quiet:
  assumes "mClient C = T" "submitJob J C job w = (Exc e, w')"
  shows "\<not> is_runtime_error e"
  using assms(2) unfolding submitJob_def
  by (cases rule: bind_io_Exc_cases)
    (auto dest: call_post_quiet[OF assms(1)] dest!: lift_bind_Exc split: if_splits)

lemma status_of_response_quiet: "status_of_response J resp = Inl e \<Longrightarrow> \<not> is_runtime_error e"
  by (auto simp: status_of_response_def sum_simps split: if_splits)

lemma getJobStatus_quiet:
  assumes "mClient C = T" "getJobStatus J C job w = (Exc e, w')"
  shows "\<not> is_runtime_error e"
  using assms(2) unfolding getJobStatus_reads
  by (cases rule: bind_io_Exc_cases)
    (auto dest: call_get_quiet[OF assms(1)] status_of_response_quiet)

lemma getJobResult_now_quiet:
  assumes "mClient C = T" "getJobResult_now J C job w = (Exc e, w')"
  shows "\<not> is_runtime_error e"
  using assms(2) unfolding getJobResult_now_def
  by (cases rule: bind_io_Exc_cases)
    (auto dest: call_get_quiet[OF assms(1)] dest!: lift_bind_Exc split: if_splits
      dest: JobResult_json_quiet)

end

end
