(* ===== verification/Polling.thy ===== *)
theory Polling
  imports Client_Facts
begin

text \<open>
  The polling loop \<open>waitForJobResult\<close> of \<open>src/client.cpp\<close> as a state machine: the steps a run
  takes, the agreement of the loop with the machine, its termination, and the invariants of
  the reachable states (how often it polls, how long it sleeps, when it fetches the result).
\<close>

section \<open>The machine\<close>

datatype 's poll_state =
    Polling int "'s sys"
  | Done "job_result option outcome" "'s sys"

text \<open>A status after which the loop gives up.\<close>

definition stops :: "string \<Rightarrow> bool" where
  "stops status \<longleftrightarrow> status = ''FAILED'' \<or> status = ''CANCELLED'' \<or> status = []"

inductive poll_step ::
  "'j json_api \<Rightarrow> ('s, 'j) mqss_client \<Rightarrow> job \<Rightarrow> int \<Rightarrow> 's poll_state \<Rightarrow> 's poll_state \<Rightarrow> bool"
  for J C job p where
  timed_out: "t \<le> 0 \<Longrightarrow> poll_step J C job p (Polling t w) (Done (Ret None) w)"
| threw: "0 < t \<Longrightarrow> getJobStatus J C job w = (Exc e, w1) \<Longrightarrow>
    poll_step J C job p (Polling t w) (Done (Exc e) w1)"
| blocked: "0 < t \<Longrightarrow> getJobStatus J C job w = (Hang, w1) \<Longrightarrow>
    poll_step J C job p (Polling t w) (Done Hang w1)"
| completed: "0 < t \<Longrightarrow> getJobStatus J C job w = (Ret ''COMPLETED'', w1) \<Longrightarrow>
    getJobResult_now J C job w1 = (r, w2) \<Longrightarrow>
    poll_step J C job p (Polling t w) (Done r w2)"
| stopped: "0 < t \<Longrightarrow> getJobStatus J C job w = (Ret status, w1) \<Longrightarrow> stops status \<Longrightarrow>
    poll_step J C job p (Polling t w) (Done (Ret None) w1)"
| pending: "0 < t \<Longrightarrow> getJobStatus J C job w = (Ret status, w1) \<Longrightarrow> status \<noteq> ''COMPLETED'' \<Longrightarrow>
    \<not> stops status \<Longrightarrow>
    poll_step J C job p (Polling t w) (Polling (t - min t p) (sleep_for (min t p) w1))"

inductive_cases poll_stepE: "poll_step J C job p (Polling t w) y"
inductive_simps poll_step_Done [simp]: "poll_step J C job p (Done r w) y"

abbreviation polled ::
  "'j json_api \<Rightarrow> ('s, 'j) mqss_client \<Rightarrow> job \<Rightarrow> int \<Rightarrow> 's poll_state \<Rightarrow> 's poll_state \<Rightarrow> bool" where
  "polled J C job p \<equiv> (poll_step J C job p)\<^sup>*\<^sup>*"

lemma poll_step_det:
  "poll_step J C job p x y \<Longrightarrow> poll_step J C job p x z \<Longrightarrow> y = z"
  by (cases x) (auto elim!: poll_stepE simp: stops_def)

section \<open>The loop runs the machine\<close>

lemma wait_unfold_Done:
  "poll_step J C job p (Polling t w) (Done r w') \<Longrightarrow> waitForJobResult J C job t p w = Some (r, w')"
  by (erule poll_stepE; subst waitForJobResult.simps) (auto simp: stops_def)

lemma wait_unfold_Polling:
  "poll_step J C job p (Polling t w) (Polling t' w') \<Longrightarrow>
     waitForJobResult J C job t p w = waitForJobResult J C job t' p w'"
  by (erule poll_stepE; subst waitForJobResult.simps) (auto simp: stops_def Let_def)

lemma polled_wait:
  "polled J C job p (Polling t w) (Done r w') \<Longrightarrow> waitForJobResult J C job t p w = Some (r, w')"
proof (induction "Polling t w" arbitrary: t w rule: converse_rtranclp_induct)
  case (step z)
  then show ?case
    by (cases z) (auto simp: wait_unfold_Polling elim: converse_rtranclpE
        dest: wait_unfold_Done)
qed

text \<open>Every unfinished state has a step, which ends the run or shortens the time left.\<close>

lemma poll_step_total: "\<exists>y. poll_step J C job p (Polling t w) y"
proof (cases "t \<le> 0")
  case False
  show ?thesis
  proof (cases "getJobStatus J C job w")
    case (Pair out w1)
    show ?thesis
    proof (cases out)
      case (Ret s)
      obtain r w2 where "getJobResult_now J C job w1 = (r, w2)" by fastforce
      with Ret Pair False show ?thesis
        by (cases "s = ''COMPLETED''"; cases "stops s") (fastforce intro: poll_step.intros)+
    qed (use Pair False in \<open>fastforce intro: poll_step.intros\<close>)+
  qed
qed (fastforce intro: poll_step.intros)

lemma poll_terminates:
  assumes "0 < p"
  shows "\<exists>r w'. polled J C job p (Polling t w) (Done r w')"
proof (induction "nat t" arbitrary: t w rule: less_induct)
  case less
  obtain y where y: "poll_step J C job p (Polling t w) y"
    using poll_step_total by blast
  show ?case
  proof (cases y)
    case (Polling t' w')
    with y have "0 < t" "t' = t - min t p" by (auto elim: poll_stepE)
    with assms have "nat t' < nat t" by auto
    from less[OF this, of w'] y Polling show ?thesis
      by (blast intro: converse_rtranclp_into_rtranclp)
  qed (use y in blast)
qed

lemma wait_iff_polled:
  assumes "0 < p"
  shows "waitForJobResult J C job t p w = Some (r, w') \<longleftrightarrow>
    polled J C job p (Polling t w) (Done r w')"
  using poll_terminates[OF assms, of J C job t w] polled_wait[of J C job p t w] by fastforce

section \<open>What a run does\<close>

definition slept :: "event list \<Rightarrow> int" where
  "slept evs = (\<Sum>e\<leftarrow>evs. case e of EvSleep n \<Rightarrow> n | _ \<Rightarrow> 0)"

text \<open>How many requests for the resource \<open>path\<close> the events hold.\<close>

definition gets :: "string \<Rightarrow> event list \<Rightarrow> nat" where
  "gets path evs = length (filter (\<lambda>e. case e of EvGet q r \<Rightarrow> q = path | _ \<Rightarrow> False) evs)"

lemma slept_simps [simp]:
  "slept [] = 0"
  "slept (a @ b) = slept a + slept b"
  "slept (EvSleep n # es) = n + slept es"
  "slept (EvGet q r # es) = slept es"
  by (simp_all add: slept_def)

lemma gets_simps [simp]:
  "gets path [] = 0"
  "gets path (a @ b) = gets path a + gets path b"
  "gets path (EvSleep n # es) = gets path es"
  "gets path (EvGet q r # es) = (if q = path then 1 else 0) + gets path es"
  by (simp_all add: gets_def)

lemma sleep_for_simps [simp]:
  "trace (sleep_for n w) = trace w @ [EvSleep n]"
  "net (sleep_for n w) = net w"
  by (simp_all add: sleep_for_def)

text \<open>
  The invariant of the states reachable from \<open>Polling t0 w0\<close>. While the loop runs every
  second of the timeout is either left or slept, each poll but the current one cost \<open>p\<close>
  seconds as long as time is left, and no result was fetched. A run that ended slept no
  longer than the timeout, and if it fetched the result it did so once, as its last act,
  directly after the response that said \<open>COMPLETED\<close>.
\<close>

definition fetched :: "'j json_api \<Rightarrow> job \<Rightarrow> event list \<Rightarrow> bool" where
  "fetched J job evs \<longleftrightarrow> (\<exists>es resp r.
     evs = es @ [EvGet (status_url job) (Ret resp), EvGet (result_url job) r] \<and>
     status_of_response J resp = Inr ''COMPLETED'' \<and> gets (result_url job) es = 0)"

fun poll_inv :: "'j json_api \<Rightarrow> job \<Rightarrow> int \<Rightarrow> int \<Rightarrow> 's sys \<Rightarrow> 's poll_state \<Rightarrow> bool" where
  "poll_inv J job p t0 w0 (Polling t w) \<longleftrightarrow> (\<exists>evs.
     trace w = trace w0 @ evs \<and> slept evs = t0 - t \<and> gets (result_url job) evs = 0 \<and>
     t \<le> t0 \<and> (t = t0 \<or> 0 \<le> t) \<and>
     (if 0 < t then int (gets (status_url job) evs) * p = t0 - t
      else int (gets (status_url job) evs) * p < max 0 t0 + p))"
| "poll_inv J job p t0 w0 (Done r w) \<longleftrightarrow> (\<exists>evs.
     trace w = trace w0 @ evs \<and> 0 \<le> slept evs \<and> slept evs \<le> max 0 t0 \<and>
     int (gets (status_url job) evs) * p < max 0 t0 + p \<and>
     (gets (result_url job) evs = 0 \<and> (\<forall>x. r \<noteq> Ret (Some x)) \<or> fetched J job evs))"

lemma getJobStatus_extends:
  "getJobStatus J C job w = (out, w1) \<Longrightarrow>
     trace w1 = trace w @ [EvGet (status_url job) (fst (call_get C (status_url job) w))]"
  by (metis getJobStatus_trace snd_conv)

lemma getJobResult_now_extends:
  "getJobResult_now J C job w = (out, w1) \<Longrightarrow>
     trace w1 = trace w @ [EvGet (result_url job) (fst (call_get C (result_url job) w))]"
  by (metis getJobResult_now_trace snd_conv)

lemma getJobStatus_Ret:
  "getJobStatus J C job w = (Ret status, w1) \<Longrightarrow>
     \<exists>resp. fst (call_get C (status_url job) w) = Ret resp \<and>
       status_of_response J resp = Inr status"
  by (auto simp: getJobStatus_cases split: prod.splits outcome.splits sum.splits)

lemma poll_inv_step:
  assumes "0 < p" "poll_inv J job p t0 w0 (Polling t w)" "poll_step J C job p (Polling t w) y"
  shows "poll_inv J job p t0 w0 y"
proof -
  obtain evs where evs: "trace w = trace w0 @ evs" "slept evs = t0 - t"
      "gets (result_url job) evs = 0" "t \<le> t0" "t = t0 \<or> 0 \<le> t"
      "0 < t \<Longrightarrow> int (gets (status_url job) evs) * p = t0 - t"
      "t \<le> 0 \<Longrightarrow> int (gets (status_url job) evs) * p < max 0 t0 + p"
    using assms(2) by (auto split: if_splits)
  from assms(3) show ?thesis
  proof (cases rule: poll_step.cases)
    case (completed w1 r w2)
    from getJobStatus_Ret[OF completed(3)] obtain resp where
      resp: "fst (call_get C (status_url job) w) = Ret resp"
        "status_of_response J resp = Inr ''COMPLETED''" by blast
    let ?es = "[EvGet (status_url job) (Ret resp),
        EvGet (result_url job) (fst (call_get C (result_url job) w1))]"
    have "trace w2 = trace w0 @ evs @ ?es"
      using evs(1) resp(1) getJobStatus_extends[OF completed(3)]
        getJobResult_now_extends[OF completed(4)] by simp
    moreover have "fetched J job (evs @ ?es)"
      using resp(2) evs(3) unfolding fetched_def by blast
    ultimately show ?thesis using completed evs assms(1) by (auto simp: algebra_simps)
  qed (use evs assms(1) in \<open>auto simp: getJobStatus_extends algebra_simps min_def\<close>)
qed

lemma poll_inv_reachable:
  assumes "0 < p" "polled J C job p (Polling t0 w0) y"
  shows "poll_inv J job p t0 w0 y"
  using assms(2)
proof (induction rule: rtranclp_induct)
  case base
  show ?case using assms(1) by auto
next
  case (step y z)
  then show ?case
    by (cases y) (auto intro: poll_inv_step[OF assms(1)] simp del: poll_inv.simps)
qed

section \<open>Runs in which the job makes progress\<close>

text \<open>\<open>n\<close> polls that find the job unfinished, each followed by a full pause.\<close>

inductive pending_for ::
  "'j json_api \<Rightarrow> ('s, 'j) mqss_client \<Rightarrow> job \<Rightarrow> int \<Rightarrow> nat \<Rightarrow> 's sys \<Rightarrow> 's sys \<Rightarrow> bool"
  for J C job p where
  pending_0: "pending_for J C job p 0 w w"
| pending_Suc: "getJobStatus J C job w = (Ret status, w1) \<Longrightarrow> status \<noteq> ''COMPLETED'' \<Longrightarrow>
    \<not> stops status \<Longrightarrow> pending_for J C job p n (sleep_for p w1) w2 \<Longrightarrow>
    pending_for J C job p (Suc n) w w2"

inductive_cases pending_0E: "pending_for J C job p 0 w w2"
inductive_cases pending_SucE: "pending_for J C job p (Suc n) w w2"

lemma pending_polled:
  assumes "pending_for J C job p n w w2" "0 < p" "int n * p < t"
  shows "polled J C job p (Polling t w) (Polling (t - int n * p) w2)"
  using assms
proof (induction arbitrary: t rule: pending_for.induct)
  case (pending_Suc w status w1 n w2)
  have "0 \<le> int n * p" using pending_Suc.prems by simp
  moreover have "int (Suc n) * p = p + int n * p" by (simp add: algebra_simps)
  ultimately have le: "p \<le> t" and rest: "int n * p < t - p" and eq: "t - int (Suc n) * p = t - p - int n * p"
    using pending_Suc.prems(2) by auto
  then have "poll_step J C job p (Polling t w) (Polling (t - p) (sleep_for p w1))"
    using poll_step.pending[OF _ pending_Suc.hyps(1,2,3), of t p] pending_Suc.prems(1)
    by (simp add: min_def split: if_splits)
  from converse_rtranclp_into_rtranclp[of "poll_step J C job p", OF this
      pending_Suc.IH[OF pending_Suc.prems(1) rest]] show ?case
    unfolding eq .
qed simp

lemma pending_then_done:
  assumes "pending_for J C job p n w w2" "0 < p" "int n * p < t"
    and "poll_step J C job p (Polling (t - int n * p) w2) (Done r w3)"
  shows "waitForJobResult J C job t p w = Some (r, w3)"
  using pending_polled[OF assms(1-3)] assms(4)
  by (intro polled_wait) (rule rtranclp.rtrancl_into_rtrancl)

lemma wait_completed:
  assumes "pending_for J C job p n w w2" "0 < p" "int n * p < t"
    and "getJobStatus J C job w2 = (Ret ''COMPLETED'', w3)"
  shows "waitForJobResult J C job t p w = Some (getJobResult_now J C job w3)"
  using pending_then_done[OF assms(1-3) poll_step.completed[OF _ assms(4)]] assms(3)
  by (cases "getJobResult_now J C job w3") auto

lemma wait_stopped:
  assumes "pending_for J C job p n w w2" "0 < p" "int n * p < t"
    and "getJobStatus J C job w2 = (Ret status, w3)" "stops status"
  shows "waitForJobResult J C job t p w = Some (Ret None, w3)"
  using pending_then_done[OF assms(1-3) poll_step.stopped[OF _ assms(4,5)]] assms(3) by auto

text \<open>A job that never finishes: the loop sleeps through the whole timeout.\<close>

lemma wait_never_finished:
  assumes "\<And>v. \<exists>status v1. getJobStatus J C job v = (Ret status, v1) \<and>
      status \<noteq> ''COMPLETED'' \<and> \<not> stops status" and "0 < p"
  shows "\<exists>w' evs. waitForJobResult J C job t p w = Some (Ret None, w') \<and>
    trace w' = trace w @ evs \<and> slept evs = max 0 t \<and> gets (result_url job) evs = 0 \<and>
    int (gets (status_url job) evs) = (max 0 t + p - 1) div p"
proof (induction "nat t" arbitrary: t w rule: less_induct)
  case less
  show ?case
  proof (cases "t \<le> 0")
    case True
    then show ?thesis using assms(2) by (subst waitForJobResult.simps) auto
  next
    case False
    obtain s w1 where s: "getJobStatus J C job w = (Ret s, w1)" "s \<noteq> ''COMPLETED''" "\<not> stops s"
      using assms(1) by blast
    let ?w = "sleep_for (min t p) w1"
    have eq: "waitForJobResult J C job t p w = waitForJobResult J C job (t - min t p) p ?w"
      using s False by (intro wait_unfold_Polling poll_step.pending) auto
    have "nat (t - min t p) < nat t" using False assms(2) by auto
    from less[OF this, of ?w] obtain w' evs where IH:
      "waitForJobResult J C job (t - min t p) p ?w = Some (Ret None, w')"
      "trace w' = trace ?w @ evs" "slept evs = max 0 (t - min t p)"
      "gets (result_url job) evs = 0"
      "int (gets (status_url job) evs) = (max 0 (t - min t p) + p - 1) div p" by blast
    have "(t - min t p + p - 1) div p = (t + p - 1) div p - 1"
    proof (cases "t \<le> p")
      case True
      then have "(t + p - 1) div p = 1"
        using False assms(2) by (intro div_pos_geq[THEN trans]) (auto simp: div_pos_pos_trivial)
      with True show ?thesis using assms(2) by simp
    next
      case False
      have "(t + p - 1) div p = (t - 1 + 1 * p) div p" by (simp add: algebra_simps)
      also have "\<dots> = (t - 1) div p + 1" using assms(2) by (subst div_mult_self1) auto
      finally show ?thesis using False by simp
    qed
    with IH False show ?thesis
      by (simp add: eq getJobStatus_extends[OF s(1)] max_def)
  qed
qed

section \<open>The timeout argument\<close>

lemma size_to_int_shift: "size_to_int n = (uint n + 2 ^ 31) mod 2 ^ 32 - 2 ^ 31"
proof -
  have "size_to_int n = signed_take_bit 31 (take_bit 32 (uint n))"
    by (simp add: size_to_int_def sint_uint unsigned_ucast_eq)
  also have "\<dots> = signed_take_bit 31 (uint n)"
    by (simp add: signed_take_bit_eq_take_bit_shift take_bit_eq_mod mod_add_left_eq)
  also have "\<dots> = (uint n + 2 ^ 31) mod 2 ^ 32 - 2 ^ 31"
    by (simp only: signed_take_bit_eq_take_bit_shift take_bit_eq_mod) simp
  finally show ?thesis .
qed

lemma size_to_int_small: "uint n < 2 ^ 31 \<Longrightarrow> size_to_int n = uint n"
  unfolding size_to_int_shift using uint_nonnegative[of n] by (subst mod_pos_pos_trivial) auto

text \<open>A timeout of \<open>2 ^ 31\<close> up to \<open>2 ^ 32 - 1\<close> seconds becomes negative.\<close>

lemma size_to_int_negative:
  assumes "2 ^ 31 \<le> uint n" "uint n < 2 ^ 32"
  shows "size_to_int n < 0"
proof -
  have "(uint n + 2 ^ 31) mod 2 ^ 32 = (uint n + 2 ^ 31 - 2 ^ 32) mod 2 ^ 32"
    using mod_add_self2[of "uint n + 2 ^ 31 - 2 ^ 32" "2 ^ 32"] by (simp add: add.commute)
  also have "\<dots> = uint n + 2 ^ 31 - 2 ^ 32"
    using assms by (intro mod_pos_pos_trivial) auto
  finally show ?thesis using assms by (simp add: size_to_int_shift)
qed

section \<open>A call that never returns\<close>

text \<open>The client blocks only inside a transport call that blocks: the last event shows it.\<close>

definition blocked_get :: "'s sys \<Rightarrow> bool" where
  "blocked_get w \<longleftrightarrow> (\<exists>es path. trace w = es @ [EvGet path Hang])"

lemma call_get_Hang: "call_get C path w = (Hang, w1) \<Longrightarrow> blocked_get w1"
  by (auto simp: call_get_def blocked_get_def split: prod.splits)

lemma getJobStatus_Hang: "getJobStatus J C job w = (Hang, w1) \<Longrightarrow> blocked_get w1"
  by (auto simp: getJobStatus_cases split: prod.splits outcome.splits sum.splits
      dest: call_get_Hang)

lemma lift_sum_Hang [simp]: "lift_sum r s \<noteq> (Hang, t)"
  by (cases r) auto

lemma bind_lift_Hang:
  "bind_io (lift_sum r) f s = (Hang, t) \<Longrightarrow> \<exists>a. r = Inr a \<and> f a s = (Hang, t)"
  by (cases r) auto

lemma getJobResult_now_Hang: "getJobResult_now J C job w = (Hang, w1) \<Longrightarrow> blocked_get w1"
  by (auto simp: getJobResult_now_def bind_io_def split: prod.splits outcome.splits if_splits
      dest: call_get_Hang)

lemma polled_Hang:
  "polled J C job p (Polling t w) y \<Longrightarrow> y = Done Hang w' \<Longrightarrow> blocked_get w'"
proof (induction arbitrary: w' rule: rtranclp_induct)
  case (step y z)
  then show ?case
    by (cases y) (auto elim!: poll_stepE dest: getJobStatus_Hang getJobResult_now_Hang)
qed simp

lemma getJobResult_Hang:
  assumes "getJobResult J C job wait timeout w = (Hang, w')"
  shows "blocked_get w'"
proof (cases wait)
  case True
  obtain r v where rv: "polled J C job 2 (Polling (size_to_int timeout) w) (Done r v)"
    using poll_terminates[of 2 J C job "size_to_int timeout" w] by auto
  with assms True have "r = Hang" "v = w'"
    by (auto simp: getJobResult_def dest: polled_wait)
  with polled_Hang[OF rv] show ?thesis by simp
next
  case False
  with assms show ?thesis by (auto simp: getJobResult_def dest: getJobResult_now_Hang)
qed

text \<open>What \<open>getJobResult(job, true, timeout)\<close> does, from the run of the machine.\<close>

lemma getJobResult_polled:
  assumes "getJobResult J C job True timeout w = (r, w')"
  shows "polled J C job 2 (Polling (size_to_int timeout) w) (Done r w')"
proof -
  obtain r' v where rv: "polled J C job 2 (Polling (size_to_int timeout) w) (Done r' v)"
    using poll_terminates[of 2 J C job "size_to_int timeout" w] by auto
  with assms polled_wait[OF rv] show ?thesis by (simp add: getJobResult_def)
qed

lemma getJobResult_bounds:
  assumes "getJobResult J C job True timeout w = (r, w')" "uint timeout < 2 ^ 31"
  shows "\<exists>evs. trace w' = trace w @ evs \<and> 0 \<le> slept evs \<and> slept evs \<le> uint timeout \<and>
     2 * int (gets (status_url job) evs) \<le> uint timeout + 1 \<and>
     (gets (result_url job) evs = 0 \<and> (\<forall>x. r \<noteq> Ret (Some x)) \<or> fetched J job evs)"
proof -
  from poll_inv_reachable[OF _ getJobResult_polled[OF assms(1)]] obtain evs where
    "trace w' = trace w @ evs" "0 \<le> slept evs" "slept evs \<le> max 0 (size_to_int timeout)"
    "int (gets (status_url job) evs) * 2 < max 0 (size_to_int timeout) + 2"
    "gets (result_url job) evs = 0 \<and> (\<forall>x. r \<noteq> Ret (Some x)) \<or> fetched J job evs" by auto
  moreover have "max 0 (size_to_int timeout) = uint timeout"
    using assms(2) by (simp add: size_to_int_small)
  ultimately show ?thesis by (intro exI[of _ evs]) simp
qed

lemma getJobResult_wait_eq:
  "waitForJobResult J C job (size_to_int timeout) 2 w = Some x \<Longrightarrow>
     getJobResult J C job True timeout w = x"
  by (simp add: getJobResult_def)

section \<open>Waiting throws no runtime error either\<close>

context quiet_transport
begin

lemma polled_quiet:
  assumes "mClient C = T"
  shows "polled J C job p (Polling t w) y \<Longrightarrow> y = Done (Exc e) w' \<Longrightarrow> \<not> is_runtime_error e"
proof (induction arbitrary: w' rule: rtranclp_induct)
  case (step y z)
  then show ?case
    by (cases y) (auto elim!: poll_stepE dest: getJobStatus_quiet[OF assms]
        getJobResult_now_quiet[OF assms])
qed simp

lemma getJobResult_quiet:
  assumes "mClient C = T" "getJobResult J C job wait timeout w = (Exc e, w')"
  shows "\<not> is_runtime_error e"
proof (cases wait)
  case True
  with assms(2) polled_quiet[OF assms(1) getJobResult_polled] show ?thesis by auto
next
  case False
  with assms show ?thesis by (simp add: getJobResult_def getJobResult_now_quiet[OF assms(1)])
qed

end

section \<open>Properties\<close>

text \<open>C1. For a positive poll interval the polling loop always returns, and what it returns is
  the end of the run of the state machine \<open>poll_step\<close>: the loop and the machine agree.\<close>

theorem waitForJobResult_refines_machine:
  assumes "0 < p"
  shows "(\<exists>x. waitForJobResult J C job t p w = Some x) \<and>
    (\<forall>r w'. (waitForJobResult J C job t p w = Some (r, w')) =
      polled J C job p (Polling t w) (Done r w'))"
  using poll_terminates[OF assms, of J C job t w] polled_wait[of J C job p t w]
    wait_iff_polled[OF assms, of J C job t w] by blast

text \<open>C13. Waiting for a result with a timeout of \<open>n\<close> seconds (below 2 to the 31) asks for the
  status at most \<open>(n + 1) / 2\<close> times, sleeps at most \<open>n\<close> seconds in all, and either fetches no
  result and returns none, or fetches it exactly once, as its last act and directly after the
  response that said \<open>COMPLETED\<close>.\<close>

theorem getJobResult_wait_bounded:
  assumes "getJobResult J C job True timeout w = (r, w')" "uint timeout < 2 ^ 31"
  shows "\<exists>evs. trace w' = trace w @ evs \<and> 0 \<le> slept evs \<and> slept evs \<le> uint timeout \<and>
     2 * int (gets (status_url job) evs) \<le> uint timeout + 1 \<and>
     (gets (result_url job) evs = 0 \<and> (\<forall>x. r \<noteq> Ret (Some x)) \<or> fetched J job evs)"
  by (rule getJobResult_bounds[OF assms])

text \<open>C14. Progress: if the job is found unfinished \<open>n\<close> times, \<open>2 * n\<close> seconds fit into the
  timeout and the next status is \<open>COMPLETED\<close>, then waiting returns exactly what fetching the
  result returns at that moment.\<close>

theorem getJobResult_wait_completed:
  assumes "pending_for J C job 2 n w w2" "2 * int n < size_to_int timeout"
    and "getJobStatus J C job w2 = (Ret ''COMPLETED'', w3)"
  shows "getJobResult J C job True timeout w = getJobResult_now J C job w3"
  using assms by (intro getJobResult_wait_eq wait_completed[OF assms(1) _ _ assms(3)]) auto

text \<open>If a status read within the timeout is \<open>FAILED\<close>, \<open>CANCELLED\<close> or cannot be read,
  waiting ends at once with no result and sends nothing more.\<close>

theorem getJobResult_wait_stopped:
  assumes "pending_for J C job 2 n w w2" "2 * int n < size_to_int timeout"
    and "getJobStatus J C job w2 = (Ret status, w3)"
    and "status = ''FAILED'' \<or> status = ''CANCELLED'' \<or> status = []"
  shows "getJobResult J C job True timeout w = (Ret None, w3)"
  using assms unfolding stops_def[symmetric]
  by (intro getJobResult_wait_eq wait_stopped[OF assms(1) _ _ assms(3)]) auto

text \<open>A job that stays unfinished is waited for exactly as long as asked: the sleeps add up
  to the timeout (the last one is cut short for an odd timeout), the status is asked for once
  per started pair of seconds, the result is never fetched, and the call returns none.\<close>

theorem getJobResult_wait_timeout:
  assumes "\<And>v. \<exists>status v1. getJobStatus J C job v = (Ret status, v1) \<and>
      status \<noteq> ''COMPLETED'' \<and> \<not> stops status" and "uint timeout < 2 ^ 31"
  shows "\<exists>w' evs. getJobResult J C job True timeout w = (Ret None, w') \<and>
    trace w' = trace w @ evs \<and> slept evs = uint timeout \<and>
    gets (result_url job) evs = 0 \<and>
    int (gets (status_url job) evs) = (uint timeout + 1) div 2"
  using wait_never_finished[OF assms(1), of 2 "size_to_int timeout" w]
  by (auto simp: size_to_int_small[OF assms(2)] getJobResult_def uint_nonnegative)

text \<open>C30. The timeout is a \<open>size_t\<close> that is passed on as an \<open>int\<close>: a timeout from 2 to the 31 up
  to 2 to the 32 (exclusive) becomes negative, and the call returns none at once without asking
  for the status, also when the job is completed.\<close>

theorem getJobResult_wait_oversize:
  assumes "2 ^ 31 \<le> uint timeout" "uint timeout < 2 ^ 32"
  shows "getJobResult J C job True timeout w = (Ret None, w)"
  using size_to_int_negative[OF assms]
  by (intro getJobResult_wait_eq) (simp add: waitForJobResult.simps)

text \<open>C31. Fetching or waiting for a result never blocks by itself: if the call does not return,
  the transport call that is the last event of the trace did not return.\<close>

theorem getJobResult_blocks_only_in_transport:
  assumes "getJobResult J C job wait timeout w = (Hang, w')"
  shows "\<exists>es path. trace w' = es @ [EvGet path Hang]"
  using getJobResult_Hang[OF assms] by (simp add: blocked_get_def)

section \<open>Examples\<close>

definition example_job :: job where
  "example_job = setUuid ''7'' (CircuitJob (CircuitJobRequest ''OPENQASM'' ''qasm'' ''QExa20'' 100 False False))"

definition example_texts :: "(string \<times> jv) list" where
  "example_texts =
     [(''R'', JObj [(''status'', JStr ''RUNNING'')]),
      (''C'', JObj [(''status'', JStr ''COMPLETED'')]),
      (''X'', JObj [(''status'', JStr ''CANCELLED'')]),
      (''J'', JObj [(''result'', JStr ''M''), (''timestamp_completed'', JStr ''c''),
                    (''timestamp_submitted'', JStr ''s''), (''timestamp_scheduled'', JStr ''t'')]),
      (''M'', JObj [(''11'', JNum 40), (''00'', JNum 60)])]"

definition example_client :: "(string list, jv) mqss_client" where
  "example_client = \<lparr>mIsHpc = False, mClient = script_transport\<rparr>"

definition example_sys :: "string list \<Rightarrow> string list sys" where
  "example_sys rs = \<lparr>net = rs, trace = []\<rparr>"

abbreviation example_json :: "jv json_api" where
  "example_json \<equiv> ref_json example_texts"

lemma example_status [simp]:
  "getJobStatus example_json example_client example_job \<lparr>net = ''R'' # rs, trace = es\<rparr> =
     (Ret ''RUNNING'', \<lparr>net = rs, trace = es @ [EvGet (status_url example_job) (Ret ''R'')]\<rparr>)"
  "getJobStatus example_json example_client example_job \<lparr>net = ''C'' # rs, trace = es\<rparr> =
     (Ret ''COMPLETED'', \<lparr>net = rs, trace = es @ [EvGet (status_url example_job) (Ret ''C'')]\<rparr>)"
  "getJobStatus example_json example_client example_job \<lparr>net = ''X'' # rs, trace = es\<rparr> =
     (Ret ''CANCELLED'', \<lparr>net = rs, trace = es @ [EvGet (status_url example_job) (Ret ''X'')]\<rparr>)"
  by (simp_all add: getJobStatus_def example_client_def call_get_def bind_io_def example_texts_def
      jv_simps)

lemma stops_example [simp]: "\<not> stops ''RUNNING''"
  by (simp add: stops_def)

lemma example_pending:
  "pending_for example_json example_client example_job 2 1 \<lparr>net = ''R'' # rs, trace = []\<rparr>
     \<lparr>net = rs, trace = [EvGet (status_url example_job) (Ret ''R''), EvSleep 2]\<rparr>"
  using pending_Suc[OF example_status(1)[of rs "[]"] _ _ pending_0, of 2]
  by (simp add: sleep_for_def)

definition example_result :: job_result where
  "example_result =
     \<lparr>jr_mResults = [[(''00'', 60), (''11'', 40)]], jr_mTimestampCompleted = ''c'',
      jr_mTimestampSubmitted = ''s'', jr_mTimestampScheduled = ''t''\<rparr>"

lemma example_result_now:
  "getJobResult_now example_json example_client example_job \<lparr>net = [''J''], trace = es\<rparr> =
     (Ret (Some example_result), \<lparr>net = [], trace = es @ [EvGet (result_url example_job) (Ret ''J'')]\<rparr>)"
  by (simp add: getJobResult_now_def example_client_def call_get_def bind_io_def example_texts_def
      jv_simps JobResult_json_def result_maps_def json_timestamp_def example_result_def)

theorem waitForJobResult_refines_machine_witness:
  "\<exists>x. waitForJobResult example_json example_client example_job 3 2 (example_sys [''R'', ''C'', ''J'']) = Some x"
  by (rule waitForJobResult_refines_machine[THEN conjunct1]) simp

theorem getJobResult_wait_completed_witness:
  "fst (getJobResult example_json example_client example_job True 3
     (example_sys [''R'', ''C'', ''J''])) = Ret (Some example_result)"
proof -
  have "2 * int 1 < size_to_int 3" by (simp add: size_to_int_small)
  from getJobResult_wait_completed[OF example_pending this example_status(2)] example_result_now
  show ?thesis by (simp add: example_sys_def)
qed

theorem getJobResult_wait_stopped_witness:
  "fst (getJobResult example_json example_client example_job True 3
     (example_sys [''R'', ''X'', ''J''])) = Ret None"
proof -
  have "2 * int 1 < size_to_int 3" by (simp add: size_to_int_small)
  from getJobResult_wait_stopped[OF example_pending this example_status(3)]
  show ?thesis by (simp add: example_sys_def)
qed

text \<open>A run that completes, one that times out, and one against a transport that blocks.\<close>

lemma example_run:
  "getJobResult example_json example_client example_job True 3 (example_sys [''R'', ''C'', ''J'']) =
     (Ret (Some example_result),
      \<lparr>net = [], trace = [EvGet (status_url example_job) (Ret ''R''), EvSleep 2,
        EvGet (status_url example_job) (Ret ''C''), EvGet (result_url example_job) (Ret ''J'')]\<rparr>)"
  by (simp add: getJobResult_def size_to_int_small example_sys_def waitForJobResult.simps
      sleep_for_def example_result_now)

theorem getJobResult_wait_bounded_witness:
  "\<exists>evs. trace (snd (getJobResult example_json example_client example_job True 3
       (example_sys [''R'', ''C'', ''J'']))) = evs \<and> slept evs \<le> 3 \<and>
     2 * int (gets (status_url example_job) evs) \<le> 4"
  using getJobResult_wait_bounded[OF example_run] unfolding example_run
  by (auto simp: example_sys_def)

definition constant_transport :: "string outcome \<Rightarrow> (unit, 'j) base_client" where
  "constant_transport r = \<lparr>bc_get = (\<lambda>path. Pair r), bc_post = (\<lambda>path data. Pair r),
     bc_del = (\<lambda>path. Pair (Ret ()))\<rparr>"

lemma constant_pending:
  "\<exists>status v1. getJobStatus example_json \<lparr>mIsHpc = False, mClient = constant_transport (Ret ''R'')\<rparr>
       example_job v = (Ret status, v1) \<and> status \<noteq> ''COMPLETED'' \<and> \<not> stops status"
  by (simp add: getJobStatus_def constant_transport_def call_get_def bind_io_def
      example_texts_def jv_simps)

theorem getJobResult_wait_timeout_witness:
  "\<exists>w' evs. getJobResult example_json
       \<lparr>mIsHpc = False, mClient = constant_transport (Ret ''R'')\<rparr> example_job True 5
       \<lparr>net = (), trace = []\<rparr> = (Ret None, w') \<and>
     trace w' = [] @ evs \<and> slept evs = 5 \<and> gets (status_url example_job) evs = 3"
  using getJobResult_wait_timeout[OF constant_pending, of 5 "\<lparr>net = (), trace = []\<rparr>"] by auto

theorem getJobResult_wait_oversize_witness:
  "getJobResult example_json example_client example_job True (2 ^ 31)
     (example_sys [''C'', ''J'']) = (Ret None, example_sys [''C'', ''J''])"
  by (rule getJobResult_wait_oversize) simp_all

lemma example_blocked:
  "getJobResult example_json \<lparr>mIsHpc = False, mClient = constant_transport Hang\<rparr> example_job False 5
     \<lparr>net = (), trace = []\<rparr> = (Hang, \<lparr>net = (), trace = [EvGet (result_url example_job) Hang]\<rparr>)"
  by (simp add: getJobResult_def getJobResult_now_def constant_transport_def call_get_def bind_io_def)

theorem getJobResult_blocks_only_in_transport_witness:
  "\<exists>es path. [EvGet (result_url example_job) Hang] = es @ [EvGet path Hang]"
  using getJobResult_blocks_only_in_transport[OF example_blocked] by simp

end
