(* ===== verification/Url.thy ===== *)
theory Url
  imports Std_String
begin

text \<open>
  \<open>MQSSRestClient::normalizeUrl\<close> of \<open>src/clients/rest_client.cpp\<close>. libcurl is not part of the
  repository: the calls the sources make are the fields of a record over the state \<open>'w\<close> of the
  library and of the network behind it. This theory uses the three calls of the URL parser.
\<close>

section \<open>The calls of libcurl\<close>

text \<open>What one transfer is given, and what it reports.\<close>

record http_request =
  rq_url :: string
  rq_headers :: "string list"
  rq_method :: string
  rq_body :: "string option"
  rq_connect_timeout_ms :: int
  rq_timeout_ms :: int
  rq_nosignal :: int
  rq_cainfo :: "string option"

text \<open>
  A chunk of the response as it reaches the write callback: the bytes, the arguments \<open>size\<close>
  and \<open>nmemb\<close>, and whether \<open>std::string::append\<close> finds the memory for it.
\<close>

record chunk =
  ch_data :: string
  ch_size :: u64
  ch_nmemb :: u64
  ch_append_ok :: bool

record transfer =
  tr_chunks :: "chunk list"
  tr_result :: int
  tr_status :: int

text \<open>
  \<open>curl_url_set\<close> is called with \<open>CURLU_DISALLOW_USER\<close> and reports whether it returned
  \<open>CURLUE_OK\<close>; \<open>curl_url_get\<close> of the scheme gives none when it did not.
\<close>

record 'w curl_api =
  c_url :: "'w \<Rightarrow> bool \<times> 'w"
  c_url_set :: "string \<Rightarrow> 'w \<Rightarrow> bool \<times> 'w"
  c_url_get_scheme :: "string \<Rightarrow> 'w \<Rightarrow> string option \<times> 'w"
  c_slist_append :: "'w \<Rightarrow> bool \<times> 'w"
  c_easy_init :: "'w \<Rightarrow> bool \<times> 'w"
  c_easy_perform :: "http_request \<Rightarrow> 'w \<Rightarrow> transfer \<times> 'w"
  c_easy_strerror :: "int \<Rightarrow> string"
  c_getenv :: "string \<Rightarrow> 'w \<Rightarrow> string option"

definition curl_call :: "('w \<Rightarrow> 'a \<times> 'w) \<Rightarrow> ('w, 'a) io" where
  "curl_call f = (\<lambda>w. case f w of (a, w') \<Rightarrow> (Ret a, w'))"

lemma curl_call_eval [simp]: "curl_call f w = (Ret (fst (f w)), snd (f w))"
  by (simp add: curl_call_def split: prod.splits)

section \<open>Normalizing\<close>

definition invalid_url :: exn where
  "invalid_url = Invalid_argument
     ''REST URL must be an absolute HTTP(S) URL without credentials, a query, or a fragment''"

definition is_blank :: "char \<Rightarrow> bool" where
  "is_blank c \<longleftrightarrow> code_of c \<le> 32 \<or> code_of c = 127"

text \<open>\<open>url.find(p, i)\<close>.\<close>

definition find_from :: "string \<Rightarrow> string \<Rightarrow> nat \<Rightarrow> nat option" where
  "find_from p s i = map_option (\<lambda>k. i + k) (str_find p (drop i s))"

definition scheme_sep :: string where
  "scheme_sep = ''://''"

lemma length_scheme_sep [simp]: "length scheme_sep = 3"
  by (simp add: scheme_sep_def)

definition malformed :: "string \<Rightarrow> bool" where
  "malformed url \<longleftrightarrow>
     url = [] \<or> list_ex is_blank url \<or>
     (case str_find scheme_sep url of
        None \<Rightarrow> True
      | Some separator \<Rightarrow>
          separator + 3 = length url \<or> url ! (separator + 3) = CHR ''/'') \<or>
     list_ex (\<lambda>c. c = CHR ''?'' \<or> c = CHR ''#'') url"

definition portal_port :: string where
  "portal_port = '':4000''"

definition portal_domains :: "string list" where
  "portal_domains = [''.quantum.lrz.de'', ''.quantumpathway.eu'']"

text \<open>The loop over the domains.\<close>

fun portal_url :: "string list \<Rightarrow> string \<Rightarrow> string option" where
  "portal_url [] host = None"
| "portal_url (domain # domains) host =
     (if proper_suffix domain host then Some (''https://'' @ host @ portal_port @ ''/v1/'')
      else portal_url domains host)"

definition with_slash :: "string \<Rightarrow> string" where
  "with_slash url = (if last url = CHR ''/'' then url else url @ ''/'')"

definition rewrite_url :: "string \<Rightarrow> string \<Rightarrow> nat \<Rightarrow> string" where
  "rewrite_url scheme url separator =
     (let pathStart = find_from ''/'' url (separator + 3);
          origin = map to_lower (case pathStart of None \<Rightarrow> url | Some i \<Rightarrow> take i url);
          path = (case pathStart of None \<Rightarrow> [] | Some i \<Rightarrow> drop i url)
      in if scheme = ''https'' \<and> (path = [] \<or> path = ''/'' \<or> path = ''/v1'' \<or> path = ''/v1/'') then
           (let whole = drop (separator + 3) origin;
                host = (if proper_suffix portal_port whole
                        then take (length whole - length portal_port) whole else whole)
            in case portal_url portal_domains host of
                 Some u \<Rightarrow> u
               | None \<Rightarrow> with_slash url)
         else with_slash url)"

definition normalizeUrl :: "'w curl_api \<Rightarrow> string \<Rightarrow> ('w, string) io" where
  "normalizeUrl K url =
     (if malformed url then throw_io invalid_url
      else
        bind_io (curl_call (c_url K)) (\<lambda>parsed.
        if \<not> parsed then throw_io (Runtime_error ''Failed to initialize URL parser'')
        else
          bind_io (curl_call (c_url_set K (c_str url))) (\<lambda>ok.
          if \<not> ok then throw_io invalid_url
          else
            bind_io (curl_call (c_url_get_scheme K (c_str url))) (\<lambda>scheme.
            case scheme of
              None \<Rightarrow> throw_io invalid_url
            | Some s \<Rightarrow>
                if s \<noteq> ''http'' \<and> s \<noteq> ''https'' then throw_io invalid_url
                else ret_io (rewrite_url s url (the (str_find scheme_sep url)))))))"

section \<open>The parts of a URL\<close>

lemma str_find_char:
  "str_find [c] s = (if c \<in> set s then Some (length (takeWhile (\<lambda>d. d \<noteq> c) s)) else None)"
  by (induction s) auto

lemma str_find_parts:
  assumes "str_find p url = Some n"
  obtains pre rest where "url = pre @ p @ rest" "length pre = n"
  using str_find_Some[OF assms] by blast

lemma find_slash:
  "find_from ''/'' (pre @ scheme_sep @ rest) (length pre + 3) =
     (if CHR ''/'' \<in> set rest
      then Some (length pre + 3 + length (takeWhile (\<lambda>d. d \<noteq> CHR ''/'') rest)) else None)"
  by (simp add: find_from_def str_find_char)

text \<open>Authority and path of what follows \<open>://\<close>.\<close>

definition authority :: "string \<Rightarrow> string" where
  "authority rest = takeWhile (\<lambda>d. d \<noteq> CHR ''/'') rest"

definition url_path :: "string \<Rightarrow> string" where
  "url_path rest = dropWhile (\<lambda>d. d \<noteq> CHR ''/'') rest"

definition short_path :: "string \<Rightarrow> bool" where
  "short_path path \<longleftrightarrow> path = [] \<or> path = ''/'' \<or> path = ''/v1'' \<or> path = ''/v1/''"

definition strip_port :: "string \<Rightarrow> string" where
  "strip_port whole =
     (if proper_suffix portal_port whole
      then take (length whole - length portal_port) whole else whole)"

lemma rewrite_url_parts:
  "rewrite_url scheme (pre @ scheme_sep @ rest) (length pre) =
     (if scheme = ''https'' \<and> short_path (url_path rest) then
        (case portal_url portal_domains (strip_port (map to_lower (authority rest))) of
           Some u \<Rightarrow> u
         | None \<Rightarrow> with_slash (pre @ scheme_sep @ rest))
      else with_slash (pre @ scheme_sep @ rest))"
proof (cases "CHR ''/'' \<in> set rest")
  case True
  have t: "take (length (authority rest)) rest = authority rest"
    "drop (length (authority rest)) rest = url_path rest"
    by (simp_all add: authority_def url_path_def takeWhile_eq_take[symmetric] dropWhile_eq_drop)
  then have "take (length pre + 3 + length (authority rest)) (pre @ scheme_sep @ rest) =
      pre @ scheme_sep @ authority rest"
    "drop (length pre + 3 + length (authority rest)) (pre @ scheme_sep @ rest) = url_path rest"
    by simp_all
  moreover have "find_from ''/'' (pre @ scheme_sep @ rest) (length pre + 3) =
      Some (length pre + 3 + length (authority rest))"
    using True by (simp add: find_slash authority_def)
  ultimately show ?thesis
    by (auto simp: rewrite_url_def Let_def short_path_def strip_port_def)
next
  case False
  then have "authority rest = rest" "url_path rest = []"
    by (auto simp: authority_def url_path_def takeWhile_eq_all_conv dropWhile_eq_Nil_conv)
  moreover have "find_from ''/'' (pre @ scheme_sep @ rest) (length pre + 3) = None"
    using False by (simp add: find_slash)
  ultimately show ?thesis
    by (simp add: rewrite_url_def Let_def short_path_def strip_port_def)
qed

section \<open>What comes out\<close>

lemma malformed_no_blank:
  "\<not> malformed url \<Longrightarrow> \<not> list_ex is_blank url \<and> \<not> list_ex (\<lambda>c. c = CHR ''?'' \<or> c = CHR ''#'') url"
  by (simp add: malformed_def)

text \<open>A well-formed URL: text, separator, and a rest that starts with no slash.\<close>

lemma wellformed_parts:
  assumes "\<not> malformed url"
  obtains pre rest where "url = pre @ scheme_sep @ rest" "str_find scheme_sep url = Some (length pre)"
    "rest \<noteq> []" "hd rest \<noteq> CHR ''/''"
proof -
  from assms obtain n where n: "str_find scheme_sep url = Some n" "n + 3 \<noteq> length url"
      "url ! (n + 3) \<noteq> CHR ''/''"
    by (auto simp: malformed_def split: option.splits)
  from n(1) obtain pre rest where pr: "url = pre @ scheme_sep @ rest" "length pre = n"
    by (rule str_find_parts)
  with n have "rest \<noteq> []" "hd rest \<noteq> CHR ''/''"
    by (auto simp: nth_append hd_conv_nth)
  with that[OF pr(1)] pr n(1) show thesis by simp
qed

lemma authority_nonempty: "rest \<noteq> [] \<Longrightarrow> hd rest \<noteq> CHR ''/'' \<Longrightarrow> authority rest \<noteq> []"
  by (cases rest) (simp_all add: authority_def)

text \<open>The call as one decision: the libcurl calls only decide between errors and the rewriting.\<close>

lemma normalizeUrl_Ret:
  assumes "normalizeUrl K url w = (Ret r, w')"
  shows "\<exists>s. \<not> malformed url \<and> (s = ''http'' \<or> s = ''https'') \<and>
    r = rewrite_url s url (the (str_find scheme_sep url))"
  using assms by (auto simp: normalizeUrl_def bind_io_def split: if_splits option.splits)

lemma nul_is_blank: "code_of c = 0 \<Longrightarrow> is_blank c"
  unfolding is_blank_def by linarith

lemma c_str_wellformed:
  assumes "\<not> malformed url"
  shows "c_str url = url"
proof (rule c_str_id, rule ballI, rule notI)
  fix c assume "c \<in> set url" "code_of c = 0"
  then have "list_ex is_blank url" unfolding list_ex_iff by (blast intro: nul_is_blank)
  with malformed_no_blank[OF assms] show False by simp
qed

lemma normalizeUrl_eval:
  assumes "\<not> malformed url" "c_url K w = (True, w1)" "c_url_set K url w1 = (True, w2)"
    "c_url_get_scheme K url w2 = (Some s, w3)" "s = ''http'' \<or> s = ''https''"
  shows "normalizeUrl K url w = (Ret (rewrite_url s url (the (str_find scheme_sep url))), w3)"
  using assms by (auto simp: normalizeUrl_def bind_io_def c_str_wellformed)

lemma portal_url_Some:
  "portal_url ds host = Some u \<longleftrightarrow>
     (\<exists>d \<in> set ds. proper_suffix d host) \<and> u = ''https://'' @ host @ portal_port @ ''/v1/''"
  by (induction ds) auto

lemma portal_url_None: "portal_url ds host = None \<longleftrightarrow> (\<forall>d \<in> set ds. \<not> proper_suffix d host)"
  by (induction ds) auto

lemma with_slash_last: "u \<noteq> [] \<Longrightarrow> last (with_slash u) = CHR ''/''"
  by (simp add: with_slash_def)

lemma with_slash_set: "set (with_slash u) \<subseteq> insert (CHR ''/'') (set u)"
  by (auto simp: with_slash_def)

lemma strip_port_set: "set (strip_port h) \<subseteq> set h"
  by (auto simp: strip_port_def dest: in_set_takeD)

text \<open>Characters of a normalized URL that the given one did not have are those of the portal's
  prefix, port and path.\<close>

lemma to_lower_special:
  "to_lower c = CHR ''?'' \<longleftrightarrow> c = CHR ''?''" "to_lower c = CHR ''#'' \<longleftrightarrow> c = CHR ''#''"
  "to_lower c = CHR ''/'' \<longleftrightarrow> c = CHR ''/''" "to_lower c = CHR '':'' \<longleftrightarrow> c = CHR '':''"
  by (rule to_lower_eq_iff; simp)+

lemma to_lower_blank [simp]: "is_blank (to_lower c) \<longleftrightarrow> is_blank c"
  by (auto simp: is_blank_def code_to_lower)

definition clean_char :: "char \<Rightarrow> bool" where
  "clean_char c \<longleftrightarrow> \<not> is_blank c \<and> c \<noteq> CHR ''?'' \<and> c \<noteq> CHR ''#''"

lemma clean_to_lower [simp]: "clean_char (to_lower c) \<longleftrightarrow> clean_char c"
  by (simp add: clean_char_def to_lower_special)

lemma wellformed_clean: "\<not> malformed url \<Longrightarrow> list_all clean_char url"
  by (auto simp: malformed_def clean_char_def list_ex_iff list_all_iff)

lemma clean_literals:
  "list_all clean_char ''https://''" "list_all clean_char portal_port" "list_all clean_char ''/v1/''"
  "clean_char (CHR ''/'')"
  by (simp_all add: clean_char_def is_blank_def portal_port_def)

lemma list_all_subset: "list_all P ys \<Longrightarrow> set xs \<subseteq> set ys \<Longrightarrow> list_all P xs"
  by (auto simp: list_all_iff)

lemma authority_set: "set (authority rest) \<subseteq> set rest"
  by (auto simp: authority_def dest: set_takeWhileD)

lemma rewrite_url_clean:
  assumes "\<not> malformed url"
  shows "list_all clean_char (rewrite_url s url (the (str_find scheme_sep url)))"
proof -
  from wellformed_parts[OF assms] obtain pre rest where
    url: "url = pre @ scheme_sep @ rest" "str_find scheme_sep url = Some (length pre)" by metis
  have all: "list_all clean_char url" using assms by (rule wellformed_clean)
  have "list_all clean_char (authority rest)"
    using all authority_set[of rest] unfolding url(1) by (auto simp: list_all_iff)
  then have "list_all clean_char (map to_lower (authority rest))"
    by (simp add: list.pred_map comp_def)
  then have host: "list_all clean_char (strip_port (map to_lower (authority rest)))"
    by (rule list_all_subset) (rule strip_port_set)
  have "list_all clean_char (with_slash url)"
    using all clean_literals(4) by (simp add: with_slash_def)
  with host clean_literals show ?thesis
    unfolding url(2) option.sel
    by (simp add: url(1) rewrite_url_parts portal_url_Some split: option.splits)
qed

lemma rewrite_url_last:
  assumes "\<not> malformed url"
  shows "last (rewrite_url s url (the (str_find scheme_sep url))) = CHR ''/''"
proof -
  from wellformed_parts[OF assms] obtain pre rest where
    url: "url = pre @ scheme_sep @ rest" "str_find scheme_sep url = Some (length pre)" by metis
  have "last (with_slash (pre @ scheme_sep @ rest)) = CHR ''/''"
    by (rule with_slash_last) (simp add: scheme_sep_def)
  then show ?thesis unfolding url(2) option.sel
    by (simp add: url(1) rewrite_url_parts portal_url_Some split: option.splits)
qed

section \<open>Portal addresses\<close>

lemma domain_last:
  assumes "d \<in> set portal_domains"
  shows "d \<noteq> []" "last d \<noteq> CHR ''0''"
  using assms by (auto simp: portal_domains_def)

lemma strip_port_port: "h \<noteq> [] \<Longrightarrow> strip_port (h @ portal_port) = h"
  by (simp add: strip_port_def)

lemma strip_port_domain:
  assumes "d \<in> set portal_domains"
  shows "strip_port (h @ d) = h @ d"
proof -
  have "\<not> proper_suffix portal_port (h @ d)"
  proof
    assume "proper_suffix portal_port (h @ d)"
    then obtain g where "h @ d = g @ portal_port" by (auto simp: proper_suffix_iff)
    then have "last (h @ d) = last (g @ portal_port)" by simp
    with domain_last[OF assms] show False by (simp add: portal_port_def)
  qed
  then show ?thesis by (simp add: strip_port_def)
qed

lemma authority_append:
  "CHR ''/'' \<notin> set auth \<Longrightarrow> path = [] \<or> hd path = CHR ''/'' \<Longrightarrow>
     authority (auth @ path) = auth \<and> url_path (auth @ path) = path"
  by (cases path) (auto simp: authority_def url_path_def takeWhile_append dropWhile_append
      takeWhile_eq_all_conv)

lemma short_path_hd: "short_path path \<Longrightarrow> path = [] \<or> hd path = CHR ''/''"
  by (auto simp: short_path_def)

lemma rewrite_portal:
  assumes "map to_lower auth = h @ d @ port" "h \<noteq> []" "d \<in> set portal_domains"
    "port = [] \<or> port = portal_port" "CHR ''/'' \<notin> set auth" "short_path path"
  shows "rewrite_url ''https'' (pre @ scheme_sep @ auth @ path) (length pre) =
    ''https://'' @ h @ d @ portal_port @ ''/v1/''"
proof -
  have "strip_port (map to_lower auth) = h @ d"
    using assms(1-4) strip_port_port[of "h @ d"] strip_port_domain[of d h] by auto
  moreover have "portal_url portal_domains (h @ d) = Some (''https://'' @ (h @ d) @ portal_port @ ''/v1/'')"
    unfolding portal_url_Some using assms(2,3) by (auto intro!: bexI[of _ d])
  ultimately show ?thesis
    using authority_append[OF assms(5) short_path_hd[OF assms(6)]] assms(6)
    by (simp add: rewrite_url_parts)
qed

text \<open>Any other URL keeps its text, up to a closing slash.\<close>

lemma rewrite_other:
  assumes "scheme \<noteq> ''https'' \<or> \<not> short_path (url_path rest) \<or>
    (\<forall>d \<in> set portal_domains. \<not> proper_suffix d (strip_port (map to_lower (authority rest))))"
  shows "rewrite_url scheme (pre @ scheme_sep @ rest) (length pre) =
    with_slash (pre @ scheme_sep @ rest)"
proof -
  have "portal_url portal_domains (strip_port (map to_lower (authority rest))) = None"
    if "\<forall>d \<in> set portal_domains. \<not> proper_suffix d (strip_port (map to_lower (authority rest)))"
    using that by (simp add: portal_url_None)
  with assms show ?thesis unfolding rewrite_url_parts by auto
qed

section \<open>Normalizing twice\<close>

lemma str_find_append: "str_find p s = Some i \<Longrightarrow> str_find p (s @ t) = Some i"
proof (induction s arbitrary: i)
  case Nil
  then show ?case by (cases t) (auto split: if_splits)
next
  case (Cons c cs)
  show ?case
  proof (cases "prefix p (c # cs)")
    case True
    then have "prefix p ((c # cs) @ t)" by (rule prefix_prefix)
    with True Cons.prems show ?thesis by simp
  next
    case False
    with Cons.prems obtain j where j: "str_find p cs = Some j" "i = Suc j" by auto
    with str_find_bound[OF j(1)] have "length p \<le> length (c # cs)" by simp
    with False have "\<not> prefix p ((c # cs) @ t)"
      using prefix_length_prefix[of p "(c # cs) @ t" "c # cs"] by auto
    with Cons.IH[OF j(1)] j(2) show ?thesis by simp
  qed
qed

lemma str_find_https: "str_find scheme_sep (''https'' @ scheme_sep @ rest) = Some 5"
  by (simp add: scheme_sep_def)

lemma wellformedI:
  assumes "str_find scheme_sep (pre @ scheme_sep @ rest) = Some (length pre)"
    "rest \<noteq> []" "hd rest \<noteq> CHR ''/''" "list_all clean_char (pre @ scheme_sep @ rest)"
  shows "\<not> malformed (pre @ scheme_sep @ rest)"
proof -
  have "\<not> list_ex is_blank (pre @ scheme_sep @ rest)"
    "\<not> list_ex (\<lambda>c. c = CHR ''?'' \<or> c = CHR ''#'') (pre @ scheme_sep @ rest)"
    using assms(4) unfolding list_ex_iff list_all_iff clean_char_def by blast+
  moreover have "(pre @ scheme_sep @ rest) ! (length pre + 3) = hd rest"
    using assms(2) by (simp add: nth_append hd_conv_nth)
  ultimately show ?thesis
    using assms(1-3) unfolding malformed_def by (simp add: scheme_sep_def)
qed

lemma portal_wellformed:
  assumes "host \<noteq> []" "list_all clean_char host" "CHR ''/'' \<notin> set host"
  shows "\<not> malformed (''https'' @ scheme_sep @ host @ portal_port @ ''/v1/'')"
proof (rule wellformedI)
  show "str_find scheme_sep (''https'' @ scheme_sep @ host @ portal_port @ ''/v1/'') =
      Some (length ''https'')"
    by (subst str_find_https) simp
  show "hd (host @ portal_port @ ''/v1/'') \<noteq> CHR ''/''"
    using assms(1,3) by (cases host) auto
  show "list_all clean_char (''https'' @ scheme_sep @ host @ portal_port @ ''/v1/'')"
    using assms(2) clean_literals by (simp add: scheme_sep_def)
qed (use assms in simp)

lemma https_literal: "''https://'' @ x = ''https'' @ scheme_sep @ x"
  by (simp add: scheme_sep_def)

lemma rewrite_portal_again:
  assumes "portal_url portal_domains (strip_port (map to_lower (authority rest))) = Some u"
    "list_all clean_char rest"
  shows "\<not> malformed u \<and> rewrite_url ''https'' u (the (str_find scheme_sep u)) = u"
proof -
  let ?host = "strip_port (map to_lower (authority rest))"
  from assms(1) obtain d where d: "d \<in> set portal_domains" "proper_suffix d ?host"
    and u: "u = ''https'' @ scheme_sep @ ?host @ portal_port @ ''/v1/''"
    using assms(1) unfolding portal_url_Some https_literal by blast
  from d(2) obtain h where h: "h \<noteq> []" "?host = h @ d" by (auto simp: proper_suffix_iff)
  have low: "map to_lower ?host = ?host"
    by (simp add: strip_port_def take_map)
  have noslash: "CHR ''/'' \<notin> set ?host"
  proof
    assume "CHR ''/'' \<in> set ?host"
    then obtain c where c: "c \<in> set (authority rest)" "to_lower c = CHR ''/''"
      using strip_port_set[of "map to_lower (authority rest)"] by auto
    then show False by (auto simp: to_lower_special authority_def dest: set_takeWhileD)
  qed
  have clean: "list_all clean_char ?host"
  proof (rule list_all_subset[OF _ strip_port_set])
    show "list_all clean_char (map to_lower (authority rest))"
      using list_all_subset[OF assms(2) authority_set] by (simp add: list.pred_map comp_def)
  qed
  have "\<not> malformed u"
    unfolding u by (rule portal_wellformed) (use h clean noslash in auto)
  moreover have "str_find scheme_sep u = Some (length ''https'')"
    unfolding u by (subst str_find_https) simp
  moreover have "map to_lower (?host @ portal_port) = h @ d @ portal_port"
    using low h(2) by (simp add: portal_port_def to_lower_def)
  then have "rewrite_url ''https'' (''https'' @ scheme_sep @ (?host @ portal_port) @ ''/v1/'')
      (length ''https'') = ''https://'' @ h @ d @ portal_port @ ''/v1/''"
    by (rule rewrite_portal) (use h d noslash in \<open>auto simp: short_path_def portal_port_def\<close>)
  then have "rewrite_url ''https'' u (length ''https'') = u"
    unfolding u h(2) https_literal by simp
  ultimately show ?thesis by (metis option.sel)
qed

lemma with_slash_idem: "url \<noteq> [] \<Longrightarrow> with_slash (with_slash url) = with_slash url"
  by (simp add: with_slash_def)

lemma short_path_slash:
  "short_path (path @ ''/'') \<Longrightarrow> path = [] \<or> path = ''/v1''"
  by (auto simp: short_path_def append_eq_Cons_conv)

lemma authority_slash:
  "authority (rest @ ''/'') = authority rest" "url_path (rest @ ''/'') = url_path rest @ ''/''"
proof -
  show "authority (rest @ ''/'') = authority rest"
    by (induction rest) (simp_all add: authority_def)
  show "url_path (rest @ ''/'') = url_path rest @ ''/''"
    by (induction rest) (simp_all add: url_path_def)
qed

lemma rewrite_url_idem:
  assumes "\<not> malformed url" "r = rewrite_url s url (the (str_find scheme_sep url))"
  shows "\<not> malformed r \<and> rewrite_url s r (the (str_find scheme_sep r)) = r"
proof -
  from wellformed_parts[OF assms(1)] obtain pre rest where url: "url = pre @ scheme_sep @ rest"
    and find: "str_find scheme_sep url = Some (length pre)"
    and rest: "rest \<noteq> []" "hd rest \<noteq> CHR ''/''" by metis
  have clean: "list_all clean_char url" using assms(1) by (rule wellformed_clean)
  have r: "r = rewrite_url s (pre @ scheme_sep @ rest) (length pre)"
    using assms(2) find url by simp
  let ?portal = "portal_url portal_domains (strip_port (map to_lower (authority rest)))"
  show ?thesis
  proof (cases "s = ''https'' \<and> short_path (url_path rest) \<and> ?portal \<noteq> None")
    case True
    then obtain u where u: "?portal = Some u" by blast
    with True r have "r = u" by (simp add: rewrite_url_parts)
    moreover have "list_all clean_char rest" using clean url by simp
    ultimately show ?thesis using rewrite_portal_again[OF u] True by simp
  next
    case False
    have slash: "r = with_slash url"
      unfolding r rewrite_url_parts url using False by (auto split: option.splits)
    show ?thesis
    proof (cases "last url = CHR ''/''")
      case True
      with slash have "r = url" by (simp add: with_slash_def)
      with assms show ?thesis by simp
    next
      case False': False
      with slash have ru: "r = pre @ scheme_sep @ (rest @ ''/'')" by (simp add: with_slash_def url)
      have rfind: "str_find scheme_sep r = Some (length pre)"
        using str_find_append[OF find, of "''/''"] url ru by simp
      have "\<not> malformed r" unfolding ru
        by (rule wellformedI) (use rfind ru rest clean url clean_literals in \<open>auto simp: hd_append\<close>)
      moreover have "rewrite_url s r (length pre) = with_slash r"
        unfolding ru rewrite_url_parts authority_slash
        using False short_path_slash[of "url_path rest"] by (auto simp: short_path_def)
      ultimately show ?thesis using rfind ru by (simp add: with_slash_def)
    qed
  qed
qed

section \<open>Properties\<close>

text \<open>C26. A normalized base URL ends with a slash, so that a path can be appended to it, and holds
  no blank, no control character, no query and no fragment; it was made from a well-formed
  HTTP or HTTPS URL.\<close>

theorem normalizeUrl_result:
  assumes "normalizeUrl K url w = (Ret r, w')"
  shows "last r = CHR ''/'' \<and> list_all clean_char r \<and> \<not> malformed url"
  using normalizeUrl_Ret[OF assms] rewrite_url_last rewrite_url_clean by blast

text \<open>A URL that is empty, has a blank or control character, has no scheme separator, nothing
  or a slash directly after it, or a query or fragment, is refused with \<open>std::invalid_argument\<close>
  before any call to libcurl; and whatever libcurl answers, the only exceptions are that one and
  the runtime error of a parser that cannot be made.\<close>

theorem normalizeUrl_errors:
  "if malformed url then normalizeUrl K url w = (Exc invalid_url, w)
   else fst (normalizeUrl K url w) \<in> range Ret \<union>
     {Exc invalid_url, Exc (Runtime_error ''Failed to initialize URL parser'')}"
  by (auto simp: normalizeUrl_def bind_io_def split: option.splits)

text \<open>C24. The portal rule. An HTTPS URL whose host, in any case, is a proper subdomain of
  \<open>quantum.lrz.de\<close> or \<open>quantumpathway.eu\<close>, with no port or port 4000 and with no path, \<open>/\<close>,
  \<open>/v1\<close> or \<open>/v1/\<close>, becomes \<open>https://host:4000/v1/\<close> with the host in lower case.\<close>

theorem normalizeUrl_portal:
  assumes "url = pre @ scheme_sep @ auth @ path" "str_find scheme_sep url = Some (length pre)"
    and "map to_lower auth = h @ d @ port" "h \<noteq> []" "d \<in> set portal_domains"
    and "port = [] \<or> port = portal_port" "CHR ''/'' \<notin> set auth" "short_path path"
    and "\<not> malformed url" "c_url K w = (True, w1)" "c_url_set K url w1 = (True, w2)"
    and "c_url_get_scheme K url w2 = (Some ''https'', w3)"
  shows "normalizeUrl K url w = (Ret (''https://'' @ h @ d @ portal_port @ ''/v1/''), w3)"
  using normalizeUrl_eval[OF assms(9-12)] rewrite_portal[OF assms(3-8), of pre] assms(1,2) by simp

text \<open>C25. Every other URL is kept as it is, with a slash added where it ends without one.\<close>

theorem normalizeUrl_other:
  assumes "url = pre @ scheme_sep @ rest" "str_find scheme_sep url = Some (length pre)"
    and "scheme \<noteq> ''https'' \<or> \<not> short_path (url_path rest) \<or>
      (\<forall>d \<in> set portal_domains. \<not> proper_suffix d (strip_port (map to_lower (authority rest))))"
    and "\<not> malformed url" "c_url K w = (True, w1)" "c_url_set K url w1 = (True, w2)"
    and "c_url_get_scheme K url w2 = (Some scheme, w3)" "scheme = ''http'' \<or> scheme = ''https''"
  shows "normalizeUrl K url w = (Ret (if last url = CHR ''/'' then url else url @ ''/''), w3)"
  using normalizeUrl_eval[OF assms(4-8)] rewrite_other[OF assms(3), of pre] assms(1,2)
  by (simp add: with_slash_def)

text \<open>Normalizing is idempotent: a normalized URL, given again to a URL parser that accepts it
  with the same scheme, comes back unchanged.\<close>

theorem normalizeUrl_idempotent:
  assumes "c_url K w = (True, w1)" "c_url_set K url w1 = (True, w2)"
    and "c_url_get_scheme K url w2 = (Some s, w3)" "normalizeUrl K url w = (Ret r, w3)"
    and "c_url K w3 = (True, w4)" "c_url_set K r w4 = (True, w5)"
    and "c_url_get_scheme K r w5 = (Some s, w6)"
  shows "normalizeUrl K r w3 = (Ret r, w6)"
proof -
  from normalizeUrl_Ret[OF assms(4)] have wf: "\<not> malformed url" by blast
  have s: "s = ''http'' \<or> s = ''https''" and r: "r = rewrite_url s url (the (str_find scheme_sep url))"
    using assms(4) unfolding normalizeUrl_def c_str_wellformed[OF wf] using assms(1-3) wf
    by (auto simp: bind_io_def split: if_splits)
  from rewrite_url_idem[OF wf r] normalizeUrl_eval[OF _ assms(5-7) s] show ?thesis by simp
qed

section \<open>Examples\<close>

text \<open>
  A stand-in for libcurl that answers from a list of transfers and reads the scheme as the text
  before the separator: used to run the model on concrete inputs.
\<close>

definition example_curl :: "transfer list curl_api" where
  "example_curl = \<lparr>
     c_url = (\<lambda>ts. (True, ts)),
     c_url_set = (\<lambda>url ts. (True, ts)),
     c_url_get_scheme = (\<lambda>url ts.
       (map_option (\<lambda>i. map to_lower (take i url)) (str_find scheme_sep url), ts)),
     c_slist_append = (\<lambda>ts. (True, ts)),
     c_easy_init = (\<lambda>ts. (True, ts)),
     c_easy_perform = (\<lambda>rq ts. case ts of
         [] \<Rightarrow> (\<lparr>tr_chunks = [], tr_result = 7, tr_status = 0\<rparr>, [])
       | t # ts' \<Rightarrow> (t, ts')),
     c_easy_strerror = (\<lambda>code. ''Could not connect to server''),
     c_getenv = (\<lambda>name ts. None)\<rparr>"

lemma example_curl_url [simp]:
  "c_url example_curl ts = (True, ts)"
  "c_url_set example_curl url ts = (True, ts)"
  "c_url_get_scheme example_curl url ts =
     (map_option (\<lambda>i. map to_lower (take i url)) (str_find scheme_sep url), ts)"
  by (simp_all add: example_curl_def)

lemma example_scheme:
  "c_url_get_scheme example_curl (''https'' @ scheme_sep @ rest) ts = (Some ''https'', ts)"
  unfolding example_curl_url str_find_https by (simp add: to_lower_def)

lemma https_find: "str_find scheme_sep (''https'' @ scheme_sep @ rest) = Some (length ''https'')"
  by (subst str_find_https) simp

lemma example_portal_wellformed:
  "\<not> malformed (''https'' @ scheme_sep @ ''Test.quantumpathway.eu'' @ ''/'')"
  by (rule wellformedI, subst str_find_https)
    (simp_all add: scheme_sep_def clean_char_def is_blank_def)

lemma example_host: "map to_lower ''Test.quantumpathway.eu'' = ''test'' @ ''.quantumpathway.eu'' @ []"
  by code_simp

theorem normalizeUrl_portal_witness:
  "normalizeUrl example_curl (''https'' @ scheme_sep @ ''Test.quantumpathway.eu'' @ ''/'') [] =
     (Ret (''https://'' @ ''test'' @ ''.quantumpathway.eu'' @ portal_port @ ''/v1/''), [])"
  by (rule normalizeUrl_portal[OF refl https_find example_host _ _ _ _ _ example_portal_wellformed
        example_curl_url(1) example_curl_url(2) example_scheme])
    (simp_all add: portal_domains_def short_path_def)

lemma example_other_wellformed: "\<not> malformed (''https'' @ scheme_sep @ ''localhost/api'')"
  by (rule wellformedI, subst str_find_https)
    (simp_all add: scheme_sep_def clean_char_def is_blank_def)

lemma example_other:
  "normalizeUrl example_curl (''https'' @ scheme_sep @ ''localhost/api'') ts =
     (Ret ((''https'' @ scheme_sep @ ''localhost/api'') @ ''/''), ts)"
  using normalizeUrl_eval[OF example_other_wellformed example_curl_url(1) example_curl_url(2)
      example_scheme disjI2[OF refl], of ts]
    rewrite_other[of "''https''" "''localhost/api''" "''https''"] https_find
  by (simp add: with_slash_def url_path_def short_path_def)

theorem normalizeUrl_other_witness:
  "normalizeUrl example_curl (''https'' @ scheme_sep @ ''localhost/api'') [] =
     (Ret ((''https'' @ scheme_sep @ ''localhost/api'') @ ''/''), [])"
  using normalizeUrl_other[OF refl https_find _ example_other_wellformed example_curl_url(1)
      example_curl_url(2) example_scheme disjI2[OF refl], of "[]"]
  by (simp add: url_path_def short_path_def)

theorem normalizeUrl_result_witness:
  "last ((''https'' @ scheme_sep @ ''localhost/api'') @ ''/'') = CHR ''/''"
  using normalizeUrl_result[OF example_other] by blast

lemma example_other_scheme:
  "c_url_get_scheme example_curl ((''https'' @ scheme_sep @ ''localhost/api'') @ ''/'') ts =
     (Some ''https'', ts)"
  unfolding append_assoc by (rule example_scheme)

theorem normalizeUrl_idempotent_witness:
  "normalizeUrl example_curl ((''https'' @ scheme_sep @ ''localhost/api'') @ ''/'') [] =
     (Ret ((''https'' @ scheme_sep @ ''localhost/api'') @ ''/''), [])"
  by (rule normalizeUrl_idempotent[OF example_curl_url(1) example_curl_url(2) example_scheme
        example_other example_curl_url(1) example_curl_url(2) example_other_scheme])

end
