(* ===== verification/Rest_Client.thy ===== *)
theory Rest_Client
  imports Url Transport
begin

text \<open>
  \<open>MQSSRestClient\<close> of \<open>src/clients/rest_client.h\<close> and \<open>rest_client.cpp\<close>: the write callback, one
  request, the constructor with its first request, and the three calls of the transport
  interface. The state is that of libcurl with, as history, the requests that were sent.
\<close>

section \<open>State\<close>

record 'w rest_state =
  rs_curl :: 'w
  rs_sent :: "http_request list"

record rest_client =
  rc_mUrl :: string
  rc_pHeaders :: "string list"

text \<open>A call of libcurl inside the larger state.\<close>

definition on_curl :: "('w, 'a) io \<Rightarrow> ('w rest_state, 'a) io" where
  "on_curl m = (\<lambda>s. case m (rs_curl s) of (r, w) \<Rightarrow> (r, s\<lparr>rs_curl := w\<rparr>))"

section \<open>Receiving\<close>

text \<open>The callback: the number of bytes it took, and the out it leaves.\<close>

definition writeResponse :: "chunk \<Rightarrow> string \<Rightarrow> u64 \<times> string" where
  "writeResponse c out =
     (let bytes = ch_size c * ch_nmemb c in
      if ch_append_ok c then (bytes, out @ take (unat bytes) (ch_data c)) else (0, out))"

text \<open>
  libcurl's documented use of it: the chunks in order, until the callback returns something
  other than the number of bytes it was given, which ends the transfer with
  \<open>CURLE_WRITE_ERROR\<close>.
\<close>

fun deliver :: "chunk list \<Rightarrow> string \<Rightarrow> bool \<times> string" where
  "deliver [] out = (True, out)"
| "deliver (c # cs) out =
     (case writeResponse c out of (n, out') \<Rightarrow>
        if n = ch_size c * ch_nmemb c then deliver cs out' else (False, out'))"

definition curle_write_error :: int where
  "curle_write_error = 23"

text \<open>\<open>curl_easy_perform\<close> and the status read afterwards: code, status, response.\<close>

definition perform :: "'w curl_api \<Rightarrow> http_request \<Rightarrow> ('w rest_state, int \<times> int \<times> string) io" where
  "perform K rq = (\<lambda>s. case c_easy_perform K rq (rs_curl s) of
     (t, w) \<Rightarrow>
       (case deliver (tr_chunks t) [] of (taken, response) \<Rightarrow>
          (Ret (if taken then tr_result t else curle_write_error, tr_status t, response),
           \<lparr>rs_curl = w, rs_sent = rs_sent s @ [rq]\<rparr>)))"

section \<open>Requests\<close>

definition rest_request ::
  "'w curl_api \<Rightarrow> 'j json_api \<Rightarrow> rest_client \<Rightarrow> string \<Rightarrow> string \<Rightarrow> 'j option \<Rightarrow> ('w rest_state, string) io" where
  "rest_request K J R method path data =
     bind_io (on_curl (curl_call (c_easy_init K))) (\<lambda>curl.
     if \<not> curl then throw_io (Runtime_error ''Failed to initialize REST connection'')
     else
       bind_io (case data of
           None \<Rightarrow> ret_io None
         | Some d \<Rightarrow> bind_io (lift_sum (jx (j_dump J d))) (\<lambda>t. ret_io (Some t))) (\<lambda>payload.
       bind_io (\<lambda>s. (Ret (c_getenv K ''CURL_CA_BUNDLE'' (rs_curl s)), s)) (\<lambda>cainfo.
       let rq = \<lparr>rq_url = c_str (rc_mUrl R @ path), rq_headers = rc_pHeaders R,
                 rq_method = method, rq_body = payload, rq_connect_timeout_ms = 3000,
                 rq_timeout_ms = 5000, rq_nosignal = 1, rq_cainfo = cainfo\<rparr>;
           errorPrefix = ''REST '' @ method @ '' failed: ''
       in bind_io (perform K rq) (\<lambda>(result, status, response).
          if result \<noteq> 0 then throw_io (Runtime_error (errorPrefix @ c_easy_strerror K result))
          else if status < 200 \<or> status \<ge> 300 then
            throw_io (Runtime_error (errorPrefix @ ''HTTP '' @ to_string status))
          else ret_io response))))"

definition rest_get ::
  "'w curl_api \<Rightarrow> 'j json_api \<Rightarrow> rest_client \<Rightarrow> string \<Rightarrow> ('w rest_state, string) io" where
  "rest_get K J R path =
     catch_io is_runtime_error (rest_request K J R ''GET'' path None) (\<lambda>e. ret_io [])"

definition rest_post ::
  "'w curl_api \<Rightarrow> 'j json_api \<Rightarrow> rest_client \<Rightarrow> string \<Rightarrow> 'j \<Rightarrow> ('w rest_state, string) io" where
  "rest_post K J R path data =
     catch_io is_runtime_error (rest_request K J R ''POST'' path (Some data)) (\<lambda>e. ret_io [])"

definition rest_del ::
  "'w curl_api \<Rightarrow> 'j json_api \<Rightarrow> rest_client \<Rightarrow> string \<Rightarrow> ('w rest_state, unit) io" where
  "rest_del K J R path =
     bind_io (rest_request K J R ''DELETE'' path None) (\<lambda>response. ret_io ())"

definition rest_transport ::
  "'w curl_api \<Rightarrow> 'j json_api \<Rightarrow> rest_client \<Rightarrow> ('w rest_state, 'j) base_client" where
  "rest_transport K J R =
     \<lparr>bc_get = rest_get K J R, bc_post = rest_post K J R, bc_del = rest_del K J R\<rparr>"

section \<open>Construction\<close>

definition appendHeader ::
  "'w curl_api \<Rightarrow> string \<Rightarrow> rest_client \<Rightarrow> ('w rest_state, rest_client) io" where
  "appendHeader K header R =
     bind_io (on_curl (curl_call (c_slist_append K))) (\<lambda>headers.
     if \<not> headers then throw_io Bad_alloc
     else ret_io (R\<lparr>rc_pHeaders := rc_pHeaders R @ [c_str header]\<rparr>))"

definition MQSSRestClient ::
  "'w curl_api \<Rightarrow> 'j json_api \<Rightarrow> string \<Rightarrow> string \<Rightarrow> ('w rest_state, rest_client) io" where
  "MQSSRestClient K J token url =
     bind_io (on_curl (normalizeUrl K url)) (\<lambda>mUrl.
     bind_io (appendHeader K (''Authorization: Bearer '' @ token)
         \<lparr>rc_mUrl = mUrl, rc_pHeaders = []\<rparr>) (\<lambda>R.
     bind_io (appendHeader K ''Content-Type: application/json'' R) (\<lambda>R.
     bind_io (rest_request K J R ''GET'' ''resources'' None) (\<lambda>response.
       ret_io R))))"

section \<open>The transport keeps runtime errors to itself\<close>

lemma catch_runtime_quiet:
  "catch_io is_runtime_error m (\<lambda>e. ret_io a) s = (Exc e, t) \<Longrightarrow> \<not> is_runtime_error e"
  by (auto simp: catch_io_def split: prod.splits outcome.splits if_splits)

interpretation rest: quiet_transport "rest_transport K J R" for K J R
  by unfold_locales (auto simp: rest_transport_def rest_get_def rest_post_def
      dest: catch_runtime_quiet)

section \<open>One request, evaluated\<close>

text \<open>What a transfer amounts to: a response, or the text of an error.\<close>

definition transfer_outcome :: "'w curl_api \<Rightarrow> string \<Rightarrow> transfer \<Rightarrow> string + string" where
  "transfer_outcome K method t =
     (case deliver (tr_chunks t) [] of (taken, response) \<Rightarrow>
        let result = (if taken then tr_result t else curle_write_error) in
        if result \<noteq> 0 then Inl (''REST '' @ method @ '' failed: '' @ c_easy_strerror K result)
        else if tr_status t < 200 \<or> tr_status t \<ge> 300 then
          Inl (''REST '' @ method @ '' failed: '' @ ''HTTP '' @ to_string (tr_status t))
        else Inr response)"

definition the_request ::
  "'w curl_api \<Rightarrow> rest_client \<Rightarrow> string \<Rightarrow> string \<Rightarrow> string option \<Rightarrow> 'w \<Rightarrow> http_request" where
  "the_request K R method path payload w =
     \<lparr>rq_url = c_str (rc_mUrl R @ path), rq_headers = rc_pHeaders R, rq_method = method,
      rq_body = payload, rq_connect_timeout_ms = 3000, rq_timeout_ms = 5000, rq_nosignal = 1,
      rq_cainfo = c_getenv K ''CURL_CA_BUNDLE'' w\<rparr>"

definition payload_text :: "'j json_api \<Rightarrow> 'j option \<Rightarrow> string option result" where
  "payload_text J data =
     (case data of None \<Rightarrow> Inr None | Some d \<Rightarrow> bind_sum (jx (j_dump J d)) (\<lambda>t. Inr (Some t)))"

lemma on_curl_call: "on_curl (curl_call f) s = (Ret (fst (f (rs_curl s))), s\<lparr>rs_curl := snd (f (rs_curl s))\<rparr>)"
  by (simp add: on_curl_def)

lemma rest_request_no_handle:
  "c_easy_init K (rs_curl s) = (False, w1) \<Longrightarrow>
     rest_request K J R method path data s =
       (Exc (Runtime_error ''Failed to initialize REST connection''), s\<lparr>rs_curl := w1\<rparr>)"
  by (simp add: rest_request_def bind_io_def on_curl_call)

lemma rest_request_no_payload:
  assumes "c_easy_init K (rs_curl s) = (True, w1)" "payload_text J data = Inl e"
  shows "rest_request K J R method path data s = (Exc e, s\<lparr>rs_curl := w1\<rparr>)"
  using assms by (auto simp: rest_request_def bind_io_def on_curl_call payload_text_def sum_simps
      split: option.splits)

lemma rest_request_sent:
  assumes "c_easy_init K (rs_curl s) = (True, w1)" "payload_text J data = Inr payload"
    and "c_easy_perform K (the_request K R method path payload w1) w1 = (t, w2)"
  shows "rest_request K J R method path data s =
    (case transfer_outcome K method t of
       Inl m \<Rightarrow> Exc (Runtime_error m)
     | Inr response \<Rightarrow> Ret response,
     \<lparr>rs_curl = w2, rs_sent = rs_sent s @ [the_request K R method path payload w1]\<rparr>)"
proof -
  have pay: "(case data of None \<Rightarrow> ret_io None
      | Some d \<Rightarrow> bind_io (lift_sum (jx (j_dump J d))) (\<lambda>t. ret_io (Some t))) =
      ret_io payload" (is "?p = _")
    using assms(2) by (auto simp: payload_text_def sum_simps fun_eq_iff bind_io_def
        split: option.splits)
  show ?thesis
    using assms(1,3)
    by (simp add: rest_request_def pay bind_io_def on_curl_call perform_def Let_def
        transfer_outcome_def the_request_def split: prod.splits)
qed

section \<open>Responses\<close>

definition chunk_ok :: "chunk \<Rightarrow> bool" where
  "chunk_ok c \<longleftrightarrow> ch_append_ok c \<and> unat (ch_size c * ch_nmemb c) = length (ch_data c)"

lemma deliver_ok:
  "list_all chunk_ok cs \<Longrightarrow> deliver cs out = (True, out @ concat (map ch_data cs))"
  by (induction cs arbitrary: out) (auto simp: writeResponse_def chunk_ok_def Let_def)

lemma deliver_fails:
  "c \<in> set cs \<Longrightarrow> \<not> ch_append_ok c \<Longrightarrow> ch_size c * ch_nmemb c \<noteq> 0 \<Longrightarrow> \<not> fst (deliver cs out)"
proof (induction cs arbitrary: out)
  case (Cons d cs)
  then show ?case by (cases "d = c") (auto simp: writeResponse_def Let_def)
qed simp

definition accepted :: "transfer \<Rightarrow> bool" where
  "accepted t \<longleftrightarrow> tr_result t = 0 \<and> 200 \<le> tr_status t \<and> tr_status t < 300"

lemma transfer_outcome_ok:
  "list_all chunk_ok (tr_chunks t) \<Longrightarrow> accepted t \<Longrightarrow>
     transfer_outcome K method t = Inr (concat (map ch_data (tr_chunks t)))"
  by (simp add: transfer_outcome_def deliver_ok accepted_def)

lemma transfer_outcome_Inr:
  "transfer_outcome K method t = Inr response \<Longrightarrow> accepted t \<and> fst (deliver (tr_chunks t) [])"
  by (auto simp: transfer_outcome_def accepted_def Let_def curle_write_error_def
      split: prod.splits if_splits)

lemma transfer_outcome_Inl:
  "transfer_outcome K method t = Inl m \<Longrightarrow> prefix (''REST '' @ method @ '' failed: '') m"
  by (auto simp: transfer_outcome_def Let_def split: prod.splits if_splits)

lemma accepted_transfer:
  assumes "list_all chunk_ok (tr_chunks t)"
  shows "case transfer_outcome K method t of
      Inl m \<Rightarrow> \<not> accepted t | Inr r \<Rightarrow> accepted t \<and> r = concat (map ch_data (tr_chunks t))"
  using transfer_outcome_ok[OF assms, of K "method"] transfer_outcome_Inr[of K "method" t]
  by (auto split: sum.splits)

section \<open>The calls of the transport, evaluated\<close>

lemma rest_get_run:
  assumes "c_easy_init K (rs_curl s) = (True, w1)"
    and "c_easy_perform K (the_request K R ''GET'' path None w1) w1 = (t, w2)"
    and "list_all chunk_ok (tr_chunks t)"
  shows "rest_get K J R path s =
    (Ret (if accepted t then concat (map ch_data (tr_chunks t)) else []),
     \<lparr>rs_curl = w2, rs_sent = rs_sent s @ [the_request K R ''GET'' path None w1]\<rparr>)"
  using rest_request_sent[OF assms(1) _ assms(2), of J None] accepted_transfer[OF assms(3), of K "''GET''"]
  by (auto simp: rest_get_def catch_io_def payload_text_def split: sum.splits)

lemma rest_post_run:
  assumes "c_easy_init K (rs_curl s) = (True, w1)"
    and "\<And>text. j_dump J data = Inr text \<Longrightarrow>
      c_easy_perform K (the_request K R ''POST'' path (Some text) w1) w1 = (t, w2)"
    and "list_all chunk_ok (tr_chunks t)"
  shows "rest_post K J R path data s =
    (case j_dump J data of
       Inl m \<Rightarrow> (Exc (Json_exn m), s\<lparr>rs_curl := w1\<rparr>)
     | Inr text \<Rightarrow>
         (Ret (if accepted t then concat (map ch_data (tr_chunks t)) else []),
          \<lparr>rs_curl = w2,
           rs_sent = rs_sent s @ [the_request K R ''POST'' path (Some text) w1]\<rparr>))"
proof (cases "j_dump J data")
  case (Inl m)
  with rest_request_no_payload[OF assms(1), of J "Some data" "Json_exn m"] show ?thesis
    by (simp add: rest_post_def catch_io_def payload_text_def)
next
  case (Inr body)
  with rest_request_sent[OF assms(1) _ assms(2)[OF Inr], of J "Some data"]
    accepted_transfer[OF assms(3), of K "''POST''"]
  show ?thesis by (auto simp: rest_post_def catch_io_def payload_text_def split: sum.splits)
qed

text \<open>Whatever comes back, a call with a libcurl handle has sent exactly its request.\<close>

lemma rest_request_logs:
  assumes "c_easy_init K (rs_curl s) = (True, w1)" "payload_text J data = Inr payload"
  shows "rs_sent (snd (rest_request K J R method path data s)) =
    rs_sent s @ [the_request K R method path payload w1]"
  using rest_request_sent[OF assms, of R "method" path "fst (c_easy_perform K (the_request K R method path payload w1) w1)"]
  by (cases "c_easy_perform K (the_request K R method path payload w1) w1") simp

lemma rest_get_logs:
  assumes "c_easy_init K (rs_curl s) = (True, w1)"
  shows "rs_sent (snd (rest_get K J R path s)) = rs_sent s @ [the_request K R ''GET'' path None w1]"
  using rest_request_logs[OF assms, of J None None R "''GET''" path]
  by (auto simp: rest_get_def catch_io_def payload_text_def split: prod.splits outcome.splits)

lemma rest_del_logs:
  assumes "c_easy_init K (rs_curl s) = (True, w1)"
  shows "rs_sent (snd (rest_del K J R path s)) = rs_sent s @ [the_request K R ''DELETE'' path None w1]"
  using rest_request_logs[OF assms, of J None None R "''DELETE''" path]
  by (auto simp: rest_del_def bind_io_def payload_text_def split: prod.splits outcome.splits)

section \<open>Properties\<close>

text \<open>A GET sends exactly one request, to the base URL with the path appended, with the
  client's headers, no body and the three and five second limits. Its result is the whole
  response, chunk by chunk, when the transfer succeeds with a status from 200 to 299, and the
  empty string otherwise; it never throws.\<close>

theorem rest_get_outcome:
  assumes "c_easy_init K (rs_curl s) = (True, w1)"
    and "c_easy_perform K (the_request K R ''GET'' path None w1) w1 = (t, w2)"
    and "list_all chunk_ok (tr_chunks t)"
  shows "rest_get K J R path s =
    (Ret (if accepted t then concat (map ch_data (tr_chunks t)) else []),
     \<lparr>rs_curl = w2, rs_sent = rs_sent s @ [the_request K R ''GET'' path None w1]\<rparr>)"
  using assms by (rule rest_get_run)

text \<open>If the memory for a part of the response is not there, the callback stops the transfer
  and the partial response is dropped: GET gives the empty string.\<close>

theorem rest_get_no_partial_response:
  assumes "c_easy_init K (rs_curl s) = (True, w1)"
    and "c_easy_perform K (the_request K R ''GET'' path None w1) w1 = (t, w2)"
    and "c \<in> set (tr_chunks t)" "\<not> ch_append_ok c" "ch_size c * ch_nmemb c \<noteq> 0"
  shows "fst (rest_get K J R path s) = Ret []"
  using rest_request_sent[OF assms(1) _ assms(2), of J None] deliver_fails[OF assms(3-5), of "[]"]
    transfer_outcome_Inr[of K "''GET''" t]
  by (auto simp: rest_get_def catch_io_def payload_text_def split: sum.splits)

text \<open>A POST sends one request whose body is the serialized payload. A payload that cannot be
  serialized (text that is not UTF-8) is the one error POST does not hide: the JSON exception
  reaches the caller and nothing is sent.\<close>

theorem rest_post_outcome:
  assumes "c_easy_init K (rs_curl s) = (True, w1)"
    and "\<And>text. j_dump J data = Inr text \<Longrightarrow>
      c_easy_perform K (the_request K R ''POST'' path (Some text) w1) w1 = (t, w2)"
    and "list_all chunk_ok (tr_chunks t)"
  shows "rest_post K J R path data s =
    (case j_dump J data of
       Inl m \<Rightarrow> (Exc (Json_exn m), s\<lparr>rs_curl := w1\<rparr>)
     | Inr text \<Rightarrow>
         (Ret (if accepted t then concat (map ch_data (tr_chunks t)) else []),
          \<lparr>rs_curl = w2,
           rs_sent = rs_sent s @ [the_request K R ''POST'' path (Some text) w1]\<rparr>))"
  using assms by (rule rest_post_run)

text \<open>C38. Deleting (cancelling a job) reports failures: it returns normally exactly when the
  transfer succeeds with a 2xx status, and throws a runtime error that names the method
  otherwise.\<close>

theorem rest_del_outcome:
  assumes "c_easy_init K (rs_curl s) = (True, w1)"
    and "c_easy_perform K (the_request K R ''DELETE'' path None w1) w1 = (t, w2)"
    and "list_all chunk_ok (tr_chunks t)"
  shows "if accepted t then fst (rest_del K J R path s) = Ret ()
    else \<exists>m. fst (rest_del K J R path s) = Exc (Runtime_error (''REST DELETE failed: '' @ m))"
  using rest_request_sent[OF assms(1) _ assms(2), of J None] accepted_transfer[OF assms(3), of K "''DELETE''"]
    transfer_outcome_Inl[of K "''DELETE''" t]
  by (auto simp: rest_del_def bind_io_def payload_text_def prefix_def split: sum.splits)

section \<open>Construction\<close>

lemma appendHeader_Ret:
  "appendHeader K header R s = (Ret R', s') \<Longrightarrow>
     R' = R\<lparr>rc_pHeaders := rc_pHeaders R @ [c_str header]\<rparr> \<and> rs_sent s' = rs_sent s"
  by (auto simp: appendHeader_def bind_io_def on_curl_call split: if_splits)

lemma on_curl_sent: "on_curl m s = (r, s') \<Longrightarrow> rs_sent s' = rs_sent s"
  by (auto simp: on_curl_def split: prod.splits)

lemma rest_request_Ret:
  assumes "rest_request K J R method path None s = (Ret response, s')"
  shows "\<exists>w. rs_sent s' = rs_sent s @ [the_request K R method path None w] \<and>
    accepted (fst (c_easy_perform K (the_request K R method path None w) w))"
proof -
  obtain ok w1 where init: "c_easy_init K (rs_curl s) = (ok, w1)" by fastforce
  with assms have ok by (cases ok) (auto simp: rest_request_no_handle)
  obtain t w2 where perform: "c_easy_perform K (the_request K R method path None w1) w1 = (t, w2)"
    by fastforce
  from rest_request_sent[OF _ _ perform, of s J None] init \<open>ok\<close> assms
  have "transfer_outcome K method t = Inr response"
    "rs_sent s' = rs_sent s @ [the_request K R method path None w1]"
    by (auto simp: payload_text_def split: sum.splits)
  with transfer_outcome_Inr perform show ?thesis by (metis fst_conv)
qed

lemma MQSSRestClient_Ret:
  assumes "MQSSRestClient K J token url s = (Ret R, s')"
  shows "\<not> malformed url \<and> last (rc_mUrl R) = CHR ''/'' \<and>
    rc_pHeaders R =
      [c_str (''Authorization: Bearer '' @ token), c_str ''Content-Type: application/json''] \<and>
    (\<exists>w. rs_sent s' = rs_sent s @ [the_request K R ''GET'' ''resources'' None w] \<and>
      accepted (fst (c_easy_perform K (the_request K R ''GET'' ''resources'' None w) w)))"
proof -
  from assms obtain mUrl s1 R1 s2 s3 response where
    url: "on_curl (normalizeUrl K url) s = (Ret mUrl, s1)" and
    auth: "appendHeader K (''Authorization: Bearer '' @ token) \<lparr>rc_mUrl = mUrl, rc_pHeaders = []\<rparr> s1
      = (Ret R1, s2)" and
    ctype: "appendHeader K ''Content-Type: application/json'' R1 s2 = (Ret R, s3)" and
    req: "rest_request K J R ''GET'' ''resources'' None s3 = (Ret response, s')"
    unfolding MQSSRestClient_def by (elim bind_io_Ret_cases) auto
  from url obtain w' where "normalizeUrl K url (rs_curl s) = (Ret mUrl, w')"
    by (auto simp: on_curl_def split: prod.splits)
  from normalizeUrl_Ret[OF this] have "\<not> malformed url" "last mUrl = CHR ''/''"
    by (auto simp: rewrite_url_last)
  moreover have "rs_sent s3 = rs_sent s"
    using on_curl_sent[OF url] appendHeader_Ret[OF auth] appendHeader_Ret[OF ctype] by simp
  ultimately show ?thesis
    using appendHeader_Ret[OF auth] appendHeader_Ret[OF ctype] rest_request_Ret[OF req] by auto
qed

text \<open>A REST client exists only after the server has answered: construction succeeds only if
  the URL normalizes and one authenticated GET of \<open>resources\<close> under it returned a 2xx status.
  The client then holds the normalized URL and exactly the two headers.\<close>

theorem MQSSRestClient_checks_server:
  assumes "MQSSRestClient K J token url s = (Ret R, s')"
  shows "\<not> malformed url \<and> last (rc_mUrl R) = CHR ''/'' \<and>
    rc_pHeaders R =
      [c_str (''Authorization: Bearer '' @ token), c_str ''Content-Type: application/json''] \<and>
    (\<exists>w. rs_sent s' = rs_sent s @ [the_request K R ''GET'' ''resources'' None w] \<and>
      accepted (fst (c_easy_perform K (the_request K R ''GET'' ''resources'' None w) w)))"
  by (rule MQSSRestClient_Ret[OF assms])

lemma MQSSRestClient_bad_url:
  "malformed url \<Longrightarrow> MQSSRestClient K J token url s = (Exc invalid_url, s)"
  by (simp add: MQSSRestClient_def bind_io_def on_curl_def normalizeUrl_def)

text \<open>A malformed URL is refused before anything is sent.\<close>

theorem MQSSRestClient_malformed:
  assumes "malformed url"
  shows "MQSSRestClient K J token url s = (Exc invalid_url, s)"
  by (rule MQSSRestClient_bad_url[OF assms])

section \<open>Examples\<close>

definition example_rest :: rest_client where
  "example_rest = \<lparr>rc_mUrl = ''http://h/'', rc_pHeaders = []\<rparr>"

definition example_transfer :: "int \<Rightarrow> transfer" where
  "example_transfer status =
     \<lparr>tr_chunks = [\<lparr>ch_data = ''ab'', ch_size = 1, ch_nmemb = 2, ch_append_ok = True\<rparr>,
        \<lparr>ch_data = ''c'', ch_size = 1, ch_nmemb = 1, ch_append_ok = True\<rparr>],
      tr_result = 0, tr_status = status\<rparr>"

definition broken_transfer :: transfer where
  "broken_transfer =
     \<lparr>tr_chunks = [\<lparr>ch_data = ''ab'', ch_size = 1, ch_nmemb = 2, ch_append_ok = True\<rparr>,
        \<lparr>ch_data = ''c'', ch_size = 1, ch_nmemb = 1, ch_append_ok = False\<rparr>],
      tr_result = 0, tr_status = 200\<rparr>"

definition example_state :: "transfer list \<Rightarrow> transfer list rest_state" where
  "example_state ts = \<lparr>rs_curl = ts, rs_sent = []\<rparr>"

lemma example_curl_easy [simp]:
  "c_easy_init example_curl ts = (True, ts)"
  "c_easy_perform example_curl rq (t # ts) = (t, ts)"
  "c_slist_append example_curl ts = (True, ts)"
  by (simp_all add: example_curl_def)

lemma example_init: "c_easy_init example_curl (rs_curl (example_state ts)) = (True, ts)"
  by (simp add: example_state_def)

lemma example_transfer_chunks: "list_all chunk_ok (tr_chunks (example_transfer status))"
  by (simp add: example_transfer_def chunk_ok_def)

lemma example_transfer_accepted:
  "accepted (example_transfer status) \<longleftrightarrow> 200 \<le> status \<and> status < 300"
  "concat (map ch_data (tr_chunks (example_transfer status))) = ''abc''"
  by (simp_all add: example_transfer_def accepted_def)

theorem rest_get_outcome_witness:
  "fst (rest_get example_curl (ref_json []) example_rest ''resources'' (example_state [example_transfer 200])) = Ret ''abc''
   \<and> fst (rest_get example_curl (ref_json []) example_rest ''resources'' (example_state [example_transfer 404])) = Ret ''''"
  by (simp add: rest_get_outcome[OF example_init example_curl_easy(2) example_transfer_chunks]
      example_transfer_accepted)

theorem rest_get_no_partial_response_witness:
  "fst (rest_get example_curl (ref_json []) example_rest ''resources'' (example_state [broken_transfer])) = Ret []"
  by (rule rest_get_no_partial_response[OF example_init example_curl_easy(2),
        where c = "\<lparr>ch_data = ''c'', ch_size = 1, ch_nmemb = 1, ch_append_ok = False\<rparr>"])
    (simp_all add: broken_transfer_def)

theorem rest_post_outcome_witness:
  "fst (rest_post example_curl (ref_json []) example_rest ''job'' JNull
     (example_state [example_transfer 200])) = Exc (Json_exn ''type_error.316'')"
proof -
  have "j_dump (ref_json []) JNull = Inl ''type_error.316''" by (simp add: ref_json_def)
  then show ?thesis
    by (simp add: rest_post_outcome[OF example_init example_curl_easy(2) example_transfer_chunks])
qed

theorem rest_del_outcome_witness:
  "fst (rest_del example_curl (ref_json []) example_rest ''job/7'' (example_state [example_transfer 204])) = Ret ()"
  using rest_del_outcome[OF example_init example_curl_easy(2) example_transfer_chunks[of 204],
      where R = example_rest and path = "''job/7''" and J = "ref_json []"]
  by (simp add: example_transfer_accepted)

theorem MQSSRestClient_malformed_witness:
  "MQSSRestClient example_curl (ref_json []) ''t'' '''' (example_state []) = (Exc invalid_url, example_state [])"
  by (rule MQSSRestClient_malformed) (simp add: malformed_def)


lemma example_construction:
  "MQSSRestClient example_curl (ref_json []) ''t'' (''https'' @ scheme_sep @ ''localhost/api'')
     (example_state [example_transfer 200]) =
     (Ret \<lparr>rc_mUrl = (''https'' @ scheme_sep @ ''localhost/api'') @ ''/'',
           rc_pHeaders = [c_str (''Authorization: Bearer '' @ ''t''), c_str ''Content-Type: application/json'']\<rparr>,
      \<lparr>rs_curl = [], rs_sent = [the_request example_curl
          \<lparr>rc_mUrl = (''https'' @ scheme_sep @ ''localhost/api'') @ ''/'',
           rc_pHeaders = [c_str (''Authorization: Bearer '' @ ''t''), c_str ''Content-Type: application/json'']\<rparr>
          ''GET'' ''resources'' None [example_transfer 200]]\<rparr>)"
proof -
  have "transfer_outcome example_curl ''GET'' (example_transfer 200) = Inr ''abc''"
    by (simp add: transfer_outcome_ok[OF example_transfer_chunks] example_transfer_accepted)
  moreover have "payload_text (ref_json []) None = Inr None" by (simp add: payload_text_def)
  ultimately show ?thesis
    unfolding MQSSRestClient_def bind_io_def on_curl_def example_state_def appendHeader_def
    by (simp add: example_other on_curl_call rest_request_sent[OF _ _ example_curl_easy(2)]
        del: append_assoc append.simps) simp
qed

theorem MQSSRestClient_checks_server_witness:
  "last ((''https'' @ scheme_sep @ ''localhost/api'') @ ''/'') = CHR ''/''"
  using MQSSRestClient_checks_server[OF example_construction] by simp

end
