(* ===== verification/Rabbitmq.thy ===== *)
theory Rabbitmq
  imports Std_String
begin

text \<open>
  \<open>MQSSRabbitMQClient\<close> of \<open>src/clients/rabbitmq_client.h\<close> and \<open>rabbitmq_client.cpp\<close>. librabbitmq and
  the broker behind it are not part of the repository: the calls the sources make are the
  fields of a record over their state \<open>'w\<close>. The client's own state carries, as history, the log
  of what it asked of the broker and of what came back.
\<close>

section \<open>The calls of librabbitmq\<close>

text \<open>
  \<open>amqp_consume_message\<close> with no timeout: a delivery with its body and its tag, a reply that
  is not normal with its library error, or no return.

  The arguments the sources always pass alike are part of what a field stands for: virtual host \<open>/\<close>,
  default frame size, 60 seconds of heartbeat and SASL PLAIN for \<open>amqp_login\<close>; channel 1
  throughout; the default exchange, neither mandatory nor immediate, content type \<open>text/plain\<close> and
  delivery mode 2 (persistent) for \<open>amqp_basic_publish\<close>; an empty consumer tag, explicit
  acknowledgement (\<open>no_ack\<close> is 0) and no exclusive use for \<open>amqp_basic_consume\<close>; a queue that is neither passive,
  durable, exclusive nor deleted automatically for \<open>amqp_queue_declare\<close>; one message per
  \<open>amqp_basic_ack\<close>. The strings that vary are arguments.
\<close>

datatype consumed =
    Delivered string nat
  | Not_normal int
  | Blocked

record 'w amqp_api =
  a_new_connection :: "'w \<Rightarrow> nat \<times> 'w"
  a_tcp_socket_new :: "nat \<Rightarrow> 'w \<Rightarrow> nat option \<times> 'w"
  a_socket_open :: "nat \<Rightarrow> string \<Rightarrow> int \<Rightarrow> 'w \<Rightarrow> int \<times> 'w"
  a_login_normal :: "nat \<Rightarrow> string \<Rightarrow> string \<Rightarrow> 'w \<Rightarrow> bool \<times> 'w"
  a_channel_open :: "nat \<Rightarrow> 'w \<Rightarrow> 'w"
  a_rpc_reply_normal :: "nat \<Rightarrow> 'w \<Rightarrow> bool \<times> 'w"
  a_channel_close :: "nat \<Rightarrow> 'w \<Rightarrow> 'w"
  a_connection_close :: "nat \<Rightarrow> 'w \<Rightarrow> 'w"
  a_destroy_connection :: "nat \<Rightarrow> 'w \<Rightarrow> 'w"
  a_basic_publish :: "nat \<Rightarrow> string \<Rightarrow> string \<Rightarrow> 'w \<Rightarrow> int \<times> 'w"
  a_basic_consume :: "nat \<Rightarrow> string \<Rightarrow> 'w \<Rightarrow> 'w"
  a_consume_message :: "nat \<Rightarrow> 'w \<Rightarrow> consumed \<times> 'w"
  a_basic_ack :: "nat \<Rightarrow> nat \<Rightarrow> 'w \<Rightarrow> 'w"
  a_queue_declare :: "nat \<Rightarrow> string \<Rightarrow> 'w \<Rightarrow> 'w"
  a_error_string2 :: "int \<Rightarrow> string"

section \<open>State\<close>

datatype mq_event =
    MqDeclare string
  | MqPublish string string int
  | MqConsume string
  | MqReceived consumed
  | MqAck nat
  | MqDisconnect

record 'w mq =
  mq_world :: 'w
  mq_log :: "mq_event list"
  mConnection :: nat
  mpSocket :: "nat option"
  mHostname :: string
  mUser :: string
  mPassword :: string
  mPort :: int
  mQueues :: "string list"

text \<open>
  The constructor; it leaves \<open>mConnection\<close> and \<open>mpSocket\<close> uninitialised, so their values are
  arguments.
\<close>

definition MQSSRabbitMQClient ::
  "nat \<Rightarrow> nat option \<Rightarrow> string \<Rightarrow> string \<Rightarrow> string \<Rightarrow> int \<Rightarrow> 'w \<Rightarrow> 'w mq" where
  "MQSSRabbitMQClient junkConnection junkSocket user password hostname port w =
     \<lparr>mq_world = w, mq_log = [], mConnection = junkConnection, mpSocket = junkSocket,
      mHostname = hostname, mUser = user, mPassword = password, mPort = port, mQueues = []\<rparr>"

definition log_mq :: "mq_event \<Rightarrow> 'w mq \<Rightarrow> 'w mq" where
  "log_mq ev s = s\<lparr>mq_log := mq_log s @ [ev]\<rparr>"

section \<open>Operations\<close>

text \<open>\<open>connect\<close>: 0, or 1 at the first step that fails.\<close>

definition connect :: "'w amqp_api \<Rightarrow> 'w mq \<Rightarrow> int \<times> 'w mq" where
  "connect A s =
     (let (c, w1) = a_new_connection A (mq_world s);
          (sock, w2) = a_tcp_socket_new A c w1;
          s2 = s\<lparr>mConnection := c, mpSocket := sock, mq_world := w2\<rparr>
      in if sock = None then (1, s2)
         else
           let (err, w3) = a_socket_open A (the sock) (c_str (mHostname s)) (mPort s) w2
           in if err \<noteq> 0 then (1, s2\<lparr>mq_world := w3\<rparr>)
              else
                let (normal, w4) = a_login_normal A c (c_str (mUser s)) (c_str (mPassword s)) w3
                in if \<not> normal then (1, s2\<lparr>mq_world := w4\<rparr>)
                   else
                     let (opened, w5) = a_rpc_reply_normal A c (a_channel_open A c w4)
                     in (if \<not> opened then 1 else 0, s2\<lparr>mq_world := w5\<rparr>))"

definition disconnect :: "'w amqp_api \<Rightarrow> 'w mq \<Rightarrow> 'w mq" where
  "disconnect A s =
     (let c = mConnection s in
      log_mq MqDisconnect
        (s\<lparr>mq_world := a_destroy_connection A c (a_connection_close A c (a_channel_close A c (mq_world s)))\<rparr>))"

definition send :: "'w amqp_api \<Rightarrow> string \<Rightarrow> string \<Rightarrow> 'w mq \<Rightarrow> int \<times> 'w mq" where
  "send A queue data s =
     (case a_basic_publish A (mConnection s) (c_str queue) (c_str data) (mq_world s) of
        (err, w) \<Rightarrow> (err, log_mq (MqPublish (c_str queue) (c_str data) err) (s\<lparr>mq_world := w\<rparr>)))"

definition declareQueue :: "'w amqp_api \<Rightarrow> string \<Rightarrow> 'w mq \<Rightarrow> int \<times> 'w mq" where
  "declareQueue A queueName s =
     (if queueName \<in> set (mQueues s) then (0, s)
      else
        let w = a_queue_declare A (mConnection s) (c_str queueName) (mq_world s)
        in (0, log_mq (MqDeclare (c_str queueName))
                 (s\<lparr>mq_world := w, mQueues := mQueues s @ [queueName]\<rparr>)))"

definition subscribe :: "'w amqp_api \<Rightarrow> string \<Rightarrow> 'w mq \<Rightarrow> 'w mq" where
  "subscribe A queue s =
     log_mq (MqConsume (c_str queue))
       (s\<lparr>mq_world := a_basic_consume A (mConnection s) (c_str queue) (mq_world s)\<rparr>)"

definition acknowledge :: "'w amqp_api \<Rightarrow> nat \<Rightarrow> 'w mq \<Rightarrow> 'w mq" where
  "acknowledge A tag s =
     log_mq (MqAck tag) (s\<lparr>mq_world := a_basic_ack A (mConnection s) tag (mq_world s)\<rparr>)"

definition receive :: "'w amqp_api \<Rightarrow> string \<Rightarrow> ('w mq, string) io" where
  "receive A queue = (\<lambda>s.
     let s1 = subscribe A queue (snd (declareQueue A queue s));
         (got, w) = a_consume_message A (mConnection s1) (mq_world s1);
         s2 = log_mq (MqReceived got) (s1\<lparr>mq_world := w\<rparr>)
     in case got of
          Blocked \<Rightarrow> (Hang, s2)
        | Not_normal library_error \<Rightarrow> (Ret (a_error_string2 A library_error), s2)
        | Delivered body tag \<Rightarrow> (Ret body, acknowledge A tag s2))"

section \<open>The states a client passes through\<close>

inductive mq_step :: "'w amqp_api \<Rightarrow> 'w mq \<Rightarrow> 'w mq \<Rightarrow> bool" for A where
  step_connect: "mq_step A s (snd (connect A s))"
| step_send: "mq_step A s (snd (send A queue data s))"
| step_declare: "mq_step A s (snd (declareQueue A queue s))"
| step_receive: "mq_step A s (snd (receive A queue s))"
| step_disconnect: "mq_step A s (disconnect A s)"

inductive_cases mq_stepE: "mq_step A s t"

inductive mq_reachable :: "'w amqp_api \<Rightarrow> 'w mq \<Rightarrow> bool" for A where
  reach_new: "mq_reachable A (MQSSRabbitMQClient c sock user password hostname port w)"
| reach_step: "mq_reachable A s \<Longrightarrow> mq_step A s t \<Longrightarrow> mq_reachable A t"

text \<open>What the log says: the queues declared, the tags delivered and acknowledged, the consumers.\<close>

definition declared :: "mq_event list \<Rightarrow> string list" where
  "declared evs = concat (map (\<lambda>e. case e of MqDeclare q \<Rightarrow> [q] | _ \<Rightarrow> []) evs)"

definition delivered_tags :: "mq_event list \<Rightarrow> nat list" where
  "delivered_tags evs = concat (map (\<lambda>e. case e of MqReceived (Delivered b t) \<Rightarrow> [t] | _ \<Rightarrow> []) evs)"

definition acked_tags :: "mq_event list \<Rightarrow> nat list" where
  "acked_tags evs = concat (map (\<lambda>e. case e of MqAck t \<Rightarrow> [t] | _ \<Rightarrow> []) evs)"

definition consumers :: "mq_event list \<Rightarrow> nat" where
  "consumers evs = length (filter (\<lambda>e. case e of MqConsume q \<Rightarrow> True | _ \<Rightarrow> False) evs)"

definition receptions :: "mq_event list \<Rightarrow> nat" where
  "receptions evs = length (filter (\<lambda>e. case e of MqReceived r \<Rightarrow> True | _ \<Rightarrow> False) evs)"

lemmas mq_log_defs = declared_def delivered_tags_def acked_tags_def consumers_def receptions_def

lemma mq_log_single [simp]:
  "declared [] = []" "delivered_tags [] = []" "acked_tags [] = []" "consumers [] = 0" "receptions [] = 0"
  "declared (e # es) = (case e of MqDeclare q \<Rightarrow> [q] | _ \<Rightarrow> []) @ declared es"
  "delivered_tags (e # es) =
     (case e of MqReceived (Delivered b t) \<Rightarrow> [t] | _ \<Rightarrow> []) @ delivered_tags es"
  "acked_tags (e # es) = (case e of MqAck t \<Rightarrow> [t] | _ \<Rightarrow> []) @ acked_tags es"
  "consumers (e # es) = (case e of MqConsume q \<Rightarrow> 1 | _ \<Rightarrow> 0) + consumers es"
  "receptions (e # es) = (case e of MqReceived r \<Rightarrow> 1 | _ \<Rightarrow> 0) + receptions es"
  by (simp_all add: mq_log_defs split: mq_event.splits)

lemma mq_log_append [simp]:
  "declared (a @ b) = declared a @ declared b"
  "delivered_tags (a @ b) = delivered_tags a @ delivered_tags b"
  "acked_tags (a @ b) = acked_tags a @ acked_tags b"
  "consumers (a @ b) = consumers a + consumers b"
  "receptions (a @ b) = receptions a + receptions b"
  by (simp_all add: mq_log_defs)

text \<open>The log entries an operation appends.\<close>

lemma connect_log [simp]: "mq_log (snd (connect A s)) = mq_log s" "mQueues (snd (connect A s)) = mQueues s"
  by (simp_all add: connect_def Let_def split: prod.splits)

lemma disconnect_log [simp]:
  "mq_log (disconnect A s) = mq_log s @ [MqDisconnect]" "mQueues (disconnect A s) = mQueues s"
  by (simp_all add: disconnect_def log_mq_def Let_def)

lemma send_log [simp]:
  "mq_log (snd (send A q d s)) = mq_log s @ [MqPublish (c_str q) (c_str d) (fst (send A q d s))]"
  "mQueues (snd (send A q d s)) = mQueues s"
  by (simp_all add: send_def log_mq_def split: prod.splits)

lemma declareQueue_log:
  "mq_log (snd (declareQueue A q s)) = mq_log s @ (if q \<in> set (mQueues s) then [] else [MqDeclare (c_str q)])"
  "mQueues (snd (declareQueue A q s)) = (if q \<in> set (mQueues s) then mQueues s else mQueues s @ [q])"
  by (simp_all add: declareQueue_def log_mq_def Let_def)

lemma subscribe_log [simp]:
  "mq_log (subscribe A q s) = mq_log s @ [MqConsume (c_str q)]" "mQueues (subscribe A q s) = mQueues s"
  by (simp_all add: subscribe_def log_mq_def)

lemma acknowledge_log [simp]:
  "mq_log (acknowledge A t s) = mq_log s @ [MqAck t]" "mQueues (acknowledge A t s) = mQueues s"
  by (simp_all add: acknowledge_def log_mq_def)

text \<open>The rest of what \<open>receive\<close> appends, once the queue is declared.\<close>

definition reception_log :: "string \<Rightarrow> consumed \<Rightarrow> mq_event list" where
  "reception_log queue got =
     [MqConsume (c_str queue), MqReceived got] @
     (case got of Delivered body tag \<Rightarrow> [MqAck tag] | _ \<Rightarrow> [])"

lemma receive_log:
  obtains got where
    "mq_log (snd (receive A q s)) = mq_log (snd (declareQueue A q s)) @ reception_log q got"
    "mQueues (snd (receive A q s)) = mQueues (snd (declareQueue A q s))"
    "fst (receive A q s) = (case got of
       Blocked \<Rightarrow> Hang | Not_normal e \<Rightarrow> Ret (a_error_string2 A e) | Delivered body tag \<Rightarrow> Ret body)"
proof -
  let ?s1 = "subscribe A q (snd (declareQueue A q s))"
  obtain got w where g: "a_consume_message A (mConnection ?s1) (mq_world ?s1) = (got, w)"
    by fastforce
  show thesis
    by (rule that[of got]; cases got) (simp_all add: receive_def Let_def g log_mq_def reception_log_def)
qed

section \<open>Invariants of the reachable states\<close>

definition mq_inv :: "'w mq \<Rightarrow> bool" where
  "mq_inv s \<longleftrightarrow> distinct (mQueues s) \<and> declared (mq_log s) = map c_str (mQueues s) \<and>
     acked_tags (mq_log s) = delivered_tags (mq_log s) \<and>
     consumers (mq_log s) = receptions (mq_log s)"

lemma declareQueue_inv: "mq_inv s \<Longrightarrow> mq_inv (snd (declareQueue A q s))"
  by (simp add: mq_inv_def declareQueue_log)

lemma receive_inv:
  assumes "mq_inv s"
  shows "mq_inv (snd (receive A q s))"
proof -
  obtain got where
    "mq_log (snd (receive A q s)) = mq_log (snd (declareQueue A q s)) @ reception_log q got"
    "mQueues (snd (receive A q s)) = mQueues (snd (declareQueue A q s))"
    by (rule receive_log)
  with declareQueue_inv[OF assms, of A q] show ?thesis
    by (cases got) (simp_all add: mq_inv_def reception_log_def)
qed

lemma mq_step_inv: "mq_step A s t \<Longrightarrow> mq_inv s \<Longrightarrow> mq_inv t"
  by (induction rule: mq_step.induct)
    (auto intro: declareQueue_inv receive_inv, simp_all add: mq_inv_def)

lemma mq_reachable_inv: "mq_reachable A s \<Longrightarrow> mq_inv s"
proof (induction rule: mq_reachable.induct)
  case (reach_new c sock user password hostname port w)
  show ?case by (simp add: mq_inv_def MQSSRabbitMQClient_def)
qed (rule mq_step_inv)

section \<open>Properties\<close>

text \<open>C23. Whatever sequence of operations a RabbitMQ client goes through, it has declared each of
  its queues exactly once, in the order it first needed them, and it has acknowledged exactly the
  messages it was delivered, each once and in order of delivery.\<close>

theorem mq_reachable_queues_and_acks:
  assumes "mq_reachable A s"
  shows "distinct (mQueues s) \<and> declared (mq_log s) = map c_str (mQueues s) \<and>
    acked_tags (mq_log s) = delivered_tags (mq_log s)"
  using mq_reachable_inv[OF assms] by (simp add: mq_inv_def)

text \<open>Every reception registers a further consumer on the channel and none is ever cancelled:
  in every reachable state there are as many registrations as receptions.\<close>

theorem mq_consumer_per_reception:
  assumes "mq_reachable A s"
  shows "consumers (mq_log s) = receptions (mq_log s)"
  using mq_reachable_inv[OF assms] by (simp add: mq_inv_def)

text \<open>Receiving a message: the queue is declared only if it is not yet known, a consumer is
  registered, and then what the broker hands out next decides: a delivery is returned byte for byte and
  acknowledged, a failed wait returns the text of the library error as if it were a message and
  acknowledges nothing, and a wait without end never returns.\<close>

theorem receive_outcomes:
  "let w1 = (if q \<in> set (mQueues s) then mq_world s
         else a_queue_declare A (mConnection s) (c_str q) (mq_world s));
       w2 = a_basic_consume A (mConnection s) (c_str q) w1;
       (got, w3) = a_consume_message A (mConnection s) w2;
       t = snd (receive A q s)
   in fst (receive A q s) = (case got of
        Blocked \<Rightarrow> Hang | Not_normal e \<Rightarrow> Ret (a_error_string2 A e) | Delivered body tag \<Rightarrow> Ret body) \<and>
      mq_world t = (case got of
        Delivered body tag \<Rightarrow> a_basic_ack A (mConnection s) tag w3 | _ \<Rightarrow> w3) \<and>
      mQueues t = mQueues s @ (if q \<in> set (mQueues s) then [] else [q]) \<and>
      mq_log t = mq_log s @ (if q \<in> set (mQueues s) then [] else [MqDeclare (c_str q)]) @
        [MqConsume (c_str q), MqReceived got] @
        (case got of Delivered body tag \<Rightarrow> [MqAck tag] | _ \<Rightarrow> [])"
  by (simp add: receive_def declareQueue_def subscribe_def acknowledge_def log_mq_def Let_def
      split: prod.splits consumed.splits)

text \<open>\<open>connect\<close> returns 0 exactly when every step worked: a socket was made, it opened, the
  login was answered normally, and the channel opened; otherwise it returns 1.\<close>

theorem connect_outcome:
  "fst (connect A s) =
     (case a_new_connection A (mq_world s) of (c, w1) \<Rightarrow>
       (case a_tcp_socket_new A c w1 of
          (None, w2) \<Rightarrow> 1
        | (Some sock, w2) \<Rightarrow>
            (case a_socket_open A sock (c_str (mHostname s)) (mPort s) w2 of (err, w3) \<Rightarrow>
              (case a_login_normal A c (c_str (mUser s)) (c_str (mPassword s)) w3 of (normal, w4) \<Rightarrow>
                 if err = 0 \<and> normal \<and> fst (a_rpc_reply_normal A c (a_channel_open A c w4))
                 then 0 else 1))))"
  by (auto simp: connect_def Let_def split: prod.splits option.splits)

section \<open>Examples\<close>

text \<open>A broker that answers receptions from a list, and then blocks.\<close>

definition example_amqp :: "int \<Rightarrow> consumed list amqp_api" where
  "example_amqp publish_result = \<lparr>
     a_new_connection = (\<lambda>w. (1, w)),
     a_tcp_socket_new = (\<lambda>c w. (Some 2, w)),
     a_socket_open = (\<lambda>sock host port w. (0, w)),
     a_login_normal = (\<lambda>c user password w. (True, w)),
     a_channel_open = (\<lambda>c w. w),
     a_rpc_reply_normal = (\<lambda>c w. (True, w)),
     a_channel_close = (\<lambda>c w. w),
     a_connection_close = (\<lambda>c w. w),
     a_destroy_connection = (\<lambda>c w. w),
     a_basic_publish = (\<lambda>c queue body w. (publish_result, w)),
     a_basic_consume = (\<lambda>c queue w. w),
     a_consume_message = (\<lambda>c w. case w of [] \<Rightarrow> (Blocked, []) | r # rs \<Rightarrow> (r, rs)),
     a_basic_ack = (\<lambda>c tag w. w),
     a_queue_declare = (\<lambda>c queue w. w),
     a_error_string2 = (\<lambda>e. ''a socket error occurred'')\<rparr>"

lemma example_amqp_simps [simp]:
  "a_new_connection (example_amqp p) w = (1, w)"
  "a_tcp_socket_new (example_amqp p) c w = (Some 2, w)"
  "a_socket_open (example_amqp p) sock host port w = (0, w)"
  "a_login_normal (example_amqp p) c user password w = (True, w)"
  "a_channel_open (example_amqp p) c w = w"
  "a_rpc_reply_normal (example_amqp p) c w = (True, w)"
  "a_basic_publish (example_amqp p) c queue body w = (p, w)"
  "a_basic_consume (example_amqp p) c queue w = w"
  "a_consume_message (example_amqp p) c [] = (Blocked, [])"
  "a_consume_message (example_amqp p) c (r # rs) = (r, rs)"
  "a_basic_ack (example_amqp p) c tag w = w"
  "a_queue_declare (example_amqp p) c queue w = w"
  "a_error_string2 (example_amqp p) e = ''a socket error occurred''"
  by (simp_all add: example_amqp_def)

definition example_mq :: "consumed list \<Rightarrow> consumed list mq" where
  "example_mq rs = MQSSRabbitMQClient 0 None ''guest'' ''guest'' ''localhost'' 5672 rs"

definition example_received :: "consumed list mq" where
  "example_received =
     snd (receive (example_amqp 0) ''q'' (snd (receive (example_amqp 0) ''q''
       (snd (connect (example_amqp 0) (example_mq [Delivered ''a'' 1, Delivered ''b'' 2]))))))"

lemma example_received_reachable: "mq_reachable (example_amqp 0) example_received"
  unfolding example_received_def example_mq_def
  by (intro reach_step[OF _ step_receive] reach_step[OF _ step_connect] reach_new)

theorem mq_reachable_queues_and_acks_witness:
  "acked_tags (mq_log example_received) = delivered_tags (mq_log example_received)"
  using mq_reachable_queues_and_acks[OF example_received_reachable] by simp

lemma example_received_log:
  "mq_log example_received = [MqDeclare ''q'', MqConsume ''q'', MqReceived (Delivered ''a'' 1),
     MqAck 1, MqConsume ''q'', MqReceived (Delivered ''b'' 2), MqAck 2]"
  by (simp add: example_received_def example_mq_def MQSSRabbitMQClient_def receive_def Let_def
      declareQueue_def subscribe_def acknowledge_def log_mq_def connect_def c_str_def)

theorem mq_consumer_per_reception_witness:
  "receptions (mq_log example_received) = 2 \<and> consumers (mq_log example_received) = 2"
  using mq_consumer_per_reception[OF example_received_reachable]
  by (simp add: example_received_log)

end
