(* ===== verification/Hpc_Client.thy ===== *)
theory Hpc_Client
  imports Rabbitmq Transport
begin

text \<open>
  \<open>MQSSHPCClient\<close> of \<open>src/clients/hpc_client.h\<close> and \<open>hpc_client.cpp\<close>: requests as JSON messages to
  a queue, responses from a queue of the client's own.
\<close>

section \<open>The operating system and the uuid generator\<close>

text \<open>
  \<open>sysconf(_SC_HOST_NAME_MAX)\<close>, \<open>gethostname\<close> for a buffer of the given size (none on failure),
  and the text of a random uuid.
\<close>

record 'w os_api =
  o_sysconf_host_name_max :: "'w \<Rightarrow> int"
  o_gethostname :: "u64 \<Rightarrow> 'w \<Rightarrow> string option"
  o_random_uuid :: "'w \<Rightarrow> string \<times> 'w"

definition getHostName :: "'w os_api \<Rightarrow> 'w \<Rightarrow> string" where
  "getHostName Os w =
     (let max_hostname_size = (word_of_int (o_sysconf_host_name_max Os w) :: u64);
          size = (if max_hostname_size = - 1 then 256 else max_hostname_size)
      in case o_gethostname Os size w of
           Some hostname \<Rightarrow> c_str hostname
         | None \<Rightarrow> [])"

section \<open>The client\<close>

record hpc_client =
  mOffloadListenerQueueName :: string
  mResponseQueueName :: string

text \<open>
  The constructor. If it throws, its member \<open>mRabbitmqClient\<close> is destroyed, which
  disconnects. The token is taken and not used.
\<close>

definition MQSSHPCClient ::
  "'w amqp_api \<Rightarrow> 'w os_api \<Rightarrow> nat \<Rightarrow> nat option \<Rightarrow> string \<Rightarrow> string \<Rightarrow> 'w \<Rightarrow> hpc_client outcome \<times> 'w mq" where
  "MQSSHPCClient A Os junkConnection junkSocket token offloadListenerQueueName w =
     (let offload = (if offloadListenerQueueName = []
            then ''qoffload_api_request_reception_queue_'' @ getHostName Os w
            else offloadListenerQueueName);
          s = MQSSRabbitMQClient junkConnection junkSocket ''guest'' ''guest'' ''localhost'' 5672 w;
          host = getHostName Os w;
          (uuid, w1) = o_random_uuid Os w;
          response = ''response_queue_'' @ host @ ''_'' @ take 8 uuid;
          (isErr, s1) = connect A (s\<lparr>mq_world := w1\<rparr>)
      in if isErr \<noteq> 0 then
           (Exc (Runtime_error ''Error: Failed to connect RabbiitMQ''), disconnect A s1)
         else
           let s2 = snd (declareQueue A offload s1);
               s3 = snd (declareQueue A response s2)
           in (Ret \<lparr>mOffloadListenerQueueName = offload, mResponseQueueName = response\<rparr>, s3))"

definition hpc_request ::
  "'j json_api \<Rightarrow> hpc_client \<Rightarrow> string \<Rightarrow> string \<Rightarrow> 'j \<Rightarrow> 'j" where
  "hpc_request J H method path data =
     j_object J
       [(''authorization'', j_str J ''''),
        (''method'', j_str J method),
        (''request'', j_str J path),
        (''data'', data),
        (''response_queue'', j_str J (mResponseQueueName H))]"

definition mq_send :: "'w amqp_api \<Rightarrow> string \<Rightarrow> string \<Rightarrow> ('w mq, int) io" where
  "mq_send A queue data = (\<lambda>s. case send A queue data s of (err, t) \<Rightarrow> (Ret err, t))"

definition hpc_get ::
  "'w amqp_api \<Rightarrow> 'j json_api \<Rightarrow> hpc_client \<Rightarrow> string \<Rightarrow> ('w mq, string) io" where
  "hpc_get A J H path =
     bind_io (lift_sum (jx (j_dump J (hpc_request J H ''GET'' path (j_str J ''''))))) (\<lambda>text.
     bind_io (mq_send A (mOffloadListenerQueueName H) text) (\<lambda>err.
     receive A (mResponseQueueName H)))"

definition hpc_post ::
  "'w amqp_api \<Rightarrow> 'j json_api \<Rightarrow> hpc_client \<Rightarrow> string \<Rightarrow> 'j \<Rightarrow> ('w mq, string) io" where
  "hpc_post A J H path data =
     bind_io (lift_sum (jx (j_dump J (hpc_request J H ''POST'' path data)))) (\<lambda>text.
     bind_io (mq_send A (mOffloadListenerQueueName H) text) (\<lambda>err.
     receive A (mResponseQueueName H)))"

definition hpc_del ::
  "'w amqp_api \<Rightarrow> 'j json_api \<Rightarrow> hpc_client \<Rightarrow> string \<Rightarrow> ('w mq, unit) io" where
  "hpc_del A J H path =
     bind_io (lift_sum (jx (j_dump J (hpc_request J H ''DELETE'' path (j_str J ''''))))) (\<lambda>text.
     bind_io (mq_send A (mOffloadListenerQueueName H) text) (\<lambda>err.
     if err \<noteq> 0 then throw_io (Runtime_error ''Failed to send HPC cancellation request'')
     else bind_io (receive A (mResponseQueueName H)) (\<lambda>response. ret_io ())))"

definition hpc_transport ::
  "'w amqp_api \<Rightarrow> 'j json_api \<Rightarrow> hpc_client \<Rightarrow> ('w mq, 'j) base_client" where
  "hpc_transport A J H =
     \<lparr>bc_get = hpc_get A J H, bc_post = hpc_post A J H, bc_del = hpc_del A J H\<rparr>"

section \<open>The transport keeps runtime errors to itself\<close>

lemma receive_no_exception: "fst (receive A q s) \<noteq> Exc e"
  by (auto simp: receive_def Let_def split: prod.splits consumed.splits)

lemma mq_send_eval: "mq_send A q d s = (Ret (fst (send A q d s)), snd (send A q d s))"
  by (simp add: mq_send_def split: prod.splits)

lemma hpc_get_eval:
  "hpc_get A J H path s =
     (case j_dump J (hpc_request J H ''GET'' path (j_str J '''')) of
        Inl m \<Rightarrow> (Exc (Json_exn m), s)
      | Inr text \<Rightarrow>
          receive A (mResponseQueueName H) (snd (send A (mOffloadListenerQueueName H) text s)))"
  by (cases "j_dump J (hpc_request J H ''GET'' path (j_str J ''''))")
    (simp_all add: hpc_get_def bind_io_def mq_send_eval)

lemma hpc_post_eval:
  "hpc_post A J H path data s =
     (case j_dump J (hpc_request J H ''POST'' path data) of
        Inl m \<Rightarrow> (Exc (Json_exn m), s)
      | Inr text \<Rightarrow>
          receive A (mResponseQueueName H) (snd (send A (mOffloadListenerQueueName H) text s)))"
  by (cases "j_dump J (hpc_request J H ''POST'' path data)")
    (simp_all add: hpc_post_def bind_io_def mq_send_eval)

lemma receive_not_Exc: "receive A q s = (Exc e, t) \<longleftrightarrow> False"
  using receive_no_exception[of A q s e] by (metis fst_conv)

interpretation hpc: quiet_transport "hpc_transport A J H" for A J H
  by unfold_locales (auto simp: hpc_transport_def hpc_get_eval hpc_post_eval receive_not_Exc
      split: sum.splits)

section \<open>What a request leaves in the log\<close>

lemma receive_declared_log:
  assumes "q \<in> set (mQueues s)"
  obtains got where "mq_log (snd (receive A q s)) = mq_log s @ reception_log q got"
    "mQueues (snd (receive A q s)) = mQueues s"
    "fst (receive A q s) = (case got of
       Blocked \<Rightarrow> Hang | Not_normal e \<Rightarrow> Ret (a_error_string2 A e) | Delivered body tag \<Rightarrow> Ret body)"
proof -
  obtain got where
    "mq_log (snd (receive A q s)) = mq_log (snd (declareQueue A q s)) @ reception_log q got"
    "mQueues (snd (receive A q s)) = mQueues (snd (declareQueue A q s))"
    "fst (receive A q s) = (case got of
       Blocked \<Rightarrow> Hang | Not_normal e \<Rightarrow> Ret (a_error_string2 A e) | Delivered body tag \<Rightarrow> Ret body)"
    by (rule receive_log)
  with that assms show thesis by (simp add: declareQueue_log)
qed

section \<open>Properties\<close>

text \<open>A request message carries what the offload listener needs: reading the JSON object back
  gives the method, the path, the payload, the name of the client's response queue, and an empty
  authorization.\<close>

theorem hpc_request_members:
  assumes "json_laws J"
  shows "j_is_object J (hpc_request J H method path data) \<and>
    j_find J (hpc_request J H method path data) ''method'' = Some (j_str J method) \<and>
    j_find J (hpc_request J H method path data) ''request'' = Some (j_str J path) \<and>
    j_find J (hpc_request J H method path data) ''data'' = Some data \<and>
    j_find J (hpc_request J H method path data) ''response_queue'' = Some (j_str J (mResponseQueueName H)) \<and>
    j_find J (hpc_request J H method path data) ''authorization'' = Some (j_str J '''')"
proof -
  let ?kvs = "[(''authorization'', j_str J ''''), (''method'', j_str J method),
     (''request'', j_str J path), (''data'', data),
     (''response_queue'', j_str J (mResponseQueueName H))]"
  have d: "distinct (map fst ?kvs)" by simp
  show ?thesis unfolding hpc_request_def
    using json_object[OF assms d] json_object_find[OF assms d] by simp
qed

text \<open>A GET in HPC mode publishes the serialized request on the offload queue, whatever the
  broker says to that, and then takes one message from the response queue, which it does not
  declare again; the body of that message is the response.\<close>

theorem hpc_get_outcome:
  assumes "mResponseQueueName H \<in> set (mQueues s)"
    and "j_dump J (hpc_request J H ''GET'' path (j_str J '''')) = Inr body"
  shows "\<exists>err got. mq_log (snd (hpc_get A J H path s)) =
      mq_log s @ [MqPublish (c_str (mOffloadListenerQueueName H)) (c_str body) err,
        MqConsume (c_str (mResponseQueueName H)), MqReceived got] @
        (case got of Delivered m tag \<Rightarrow> [MqAck tag] | _ \<Rightarrow> []) \<and>
    fst (hpc_get A J H path s) = (case got of
       Blocked \<Rightarrow> Hang | Not_normal e \<Rightarrow> Ret (a_error_string2 A e) | Delivered m tag \<Rightarrow> Ret m)"
proof -
  let ?s1 = "snd (send A (mOffloadListenerQueueName H) body s)"
  obtain got where
    "mq_log (snd (receive A (mResponseQueueName H) ?s1)) =
       mq_log ?s1 @ reception_log (mResponseQueueName H) got"
    "fst (receive A (mResponseQueueName H) ?s1) = (case got of
       Blocked \<Rightarrow> Hang | Not_normal e \<Rightarrow> Ret (a_error_string2 A e) | Delivered m tag \<Rightarrow> Ret m)"
    by (rule receive_declared_log[of "mResponseQueueName H" ?s1]) (use assms(1) in auto)
  then show ?thesis
    by (intro exI[of _ "fst (send A (mOffloadListenerQueueName H) body s)"] exI[of _ got])
      (simp add: hpc_get_eval assms(2) reception_log_def)
qed

text \<open>A publication that fails is noticed only by cancellation, which throws and does not wait.
  GET ignores the failure and waits for a response to a request that was never sent: with no
  other message on its way it does not return.\<close>

theorem hpc_failed_publication:
  assumes "j_dump J (hpc_request J H ''DELETE'' path (j_str J '''')) = Inr dbody"
    and "j_dump J (hpc_request J H ''GET'' path (j_str J '''')) = Inr gbody"
    and "fst (send A (mOffloadListenerQueueName H) dbody s) \<noteq> 0"
    and "\<And>c w. fst (a_consume_message A c w) = Blocked"
  shows "hpc_del A J H path s =
      (Exc (Runtime_error ''Failed to send HPC cancellation request''),
       snd (send A (mOffloadListenerQueueName H) dbody s)) \<and>
    fst (hpc_get A J H path s) = Hang"
proof
  show "hpc_del A J H path s =
      (Exc (Runtime_error ''Failed to send HPC cancellation request''),
       snd (send A (mOffloadListenerQueueName H) dbody s))"
    using assms(1,3) by (simp add: hpc_del_def bind_io_def mq_send_eval)
  have "fst (receive A q t) = Hang" for q t
    using assms(4) by (auto simp: receive_def Let_def split: prod.splits) (metis fst_conv consumed.simps)+
  then show "fst (hpc_get A J H path s) = Hang"
    by (simp add: hpc_get_eval assms(2))
qed

lemma MQSSHPCClient_eval:
  fixes c sock token
  defines "s0 w w1 \<equiv> (MQSSRabbitMQClient c sock ''guest'' ''guest'' ''localhost'' 5672 w)\<lparr>mq_world := w1\<rparr>"
  shows "MQSSHPCClient A Os c sock token queue w =
    (let H = \<lparr>mOffloadListenerQueueName = (if queue = []
             then ''qoffload_api_request_reception_queue_'' @ getHostName Os w else queue),
           mResponseQueueName = ''response_queue_'' @ getHostName Os w @ ''_'' @
             take 8 (fst (o_random_uuid Os w))\<rparr>;
         s1 = snd (connect A (s0 w (snd (o_random_uuid Os w))))
     in if fst (connect A (s0 w (snd (o_random_uuid Os w)))) \<noteq> 0
        then (Exc (Runtime_error ''Error: Failed to connect RabbiitMQ''), disconnect A s1)
        else (Ret H, snd (declareQueue A (mResponseQueueName H)
               (snd (declareQueue A (mOffloadListenerQueueName H) s1)))))"
  unfolding MQSSHPCClient_def Let_def s0_def by (simp split: prod.splits)

lemma MQSSHPCClient_cases:
  assumes "MQSSHPCClient A Os c sock token queue w = (r, s)"
  shows "case r of
      Exc e \<Rightarrow> is_runtime_error e \<and> mq_log s = [MqDisconnect] \<and> mQueues s = []
    | Ret H \<Rightarrow> mOffloadListenerQueueName H =
          (if queue = [] then ''qoffload_api_request_reception_queue_'' @ getHostName Os w else queue) \<and>
        prefix (''response_queue_'' @ getHostName Os w @ ''_'') (mResponseQueueName H) \<and>
        set (mQueues s) = {mOffloadListenerQueueName H, mResponseQueueName H} \<and>
        declared (mq_log s) = map c_str (mQueues s) \<and> distinct (mQueues s)
    | Hang \<Rightarrow> False"
proof -
  let ?s0 = "(MQSSRabbitMQClient c sock ''guest'' ''guest'' ''localhost'' 5672 w)
    \<lparr>mq_world := snd (o_random_uuid Os w)\<rparr>"
  have s0: "mq_log ?s0 = []" "mQueues ?s0 = []"
    by (simp_all add: MQSSRabbitMQClient_def)
  show ?thesis
  proof (cases "fst (connect A ?s0) = 0")
    case True
    with assms s0 show ?thesis
      unfolding MQSSHPCClient_eval by (auto simp: Let_def declareQueue_log)
  next
    case False
    with assms s0 show ?thesis
      unfolding MQSSHPCClient_eval by (auto simp: Let_def)
  qed
qed

text \<open>Construction in HPC mode: if the connection fails the constructor throws and the
  connection is torn down again; otherwise the client has declared the offload queue (the given
  one, or one named after the host) and its own response queue, in this order.\<close>

theorem MQSSHPCClient_outcome:
  assumes "MQSSHPCClient A Os c sock token queue w = (r, s)"
  shows "case r of
      Exc e \<Rightarrow> is_runtime_error e \<and> mq_log s = [MqDisconnect] \<and> mQueues s = []
    | Ret H \<Rightarrow> mOffloadListenerQueueName H =
          (if queue = [] then ''qoffload_api_request_reception_queue_'' @ getHostName Os w else queue) \<and>
        prefix (''response_queue_'' @ getHostName Os w @ ''_'') (mResponseQueueName H) \<and>
        set (mQueues s) = {mOffloadListenerQueueName H, mResponseQueueName H} \<and>
        declared (mq_log s) = map c_str (mQueues s) \<and> distinct (mQueues s)
    | Hang \<Rightarrow> False"
  by (rule MQSSHPCClient_cases[OF assms])

text \<open>The host name is lost exactly when it is as long as the system allows: \<open>sysconf\<close> gives
  the greatest length without the terminating NUL, the buffer has no room for it, \<open>gethostname\<close>
  fails and the name is empty. Shorter names are read.\<close>

theorem getHostName_length:
  assumes "\<And>size. o_gethostname Os size w = (if length host < unat size then Some host else None)"
    and "o_sysconf_host_name_max Os w = int m" "m < 2 ^ 63" "\<forall>ch \<in> set host. code_of ch \<noteq> 0"
  shows "getHostName Os w = (if length host < m then host else [])"
proof -
  have u: "unat (word_of_int (int m) :: u64) = m"
    using assms(3) by (simp add: unat_of_nat take_bit_nat_eq_self flip: of_nat_def)
  have "(word_of_int (int m) :: u64) \<noteq> - 1"
  proof
    assume "(word_of_int (int m) :: u64) = - 1"
    then have "unat (word_of_int (int m) :: u64) = unat (- 1 :: u64)" by simp
    moreover have "unat (- 1 :: u64) = 2 ^ 64 - 1"
      by (simp add: unsigned_minus_1_eq_mask mask_eq_exp_minus_1)
    ultimately show False using u assms(3) by simp
  qed
  with u assms(1,2) show ?thesis by (simp add: getHostName_def Let_def c_str_id[OF assms(4)])
qed

section \<open>Examples\<close>

definition example_hpc :: hpc_client where
  "example_hpc = \<lparr>mOffloadListenerQueueName = ''offload'', mResponseQueueName = ''answers''\<rparr>"

definition hpc_json :: "jv json_api" where
  "hpc_json = ref_json
     [(''G'', hpc_request (ref_json []) example_hpc ''GET'' ''resources'' (JStr '''')),
      (''D'', hpc_request (ref_json []) example_hpc ''DELETE'' ''resources'' (JStr ''''))]"

lemma hpc_json_dump:
  "j_dump hpc_json (hpc_request hpc_json example_hpc ''GET'' ''resources'' (j_str hpc_json '''')) = Inr ''G''"
  "j_dump hpc_json (hpc_request hpc_json example_hpc ''DELETE'' ''resources'' (j_str hpc_json '''')) = Inr ''D''"
  by (simp_all add: hpc_json_def hpc_request_def) (simp_all add: ref_json_def)

definition example_hpc_state :: "consumed list \<Rightarrow> consumed list mq" where
  "example_hpc_state rs = (example_mq rs)\<lparr>mQueues := [''offload'', ''answers'']\<rparr>"

theorem hpc_request_members_witness:
  "j_find hpc_json (hpc_request hpc_json example_hpc ''GET'' ''resources'' JNull) ''method'' = Some (JStr ''GET'')"
proof -
  have "json_laws hpc_json" "j_str hpc_json = JStr" by (simp_all add: hpc_json_def ref_json_laws)
  with hpc_request_members[of hpc_json example_hpc "''GET''" "''resources''" JNull] show ?thesis by simp
qed

theorem hpc_get_outcome_witness:
  "\<exists>err got. mq_log (snd (hpc_get (example_amqp 0) hpc_json example_hpc ''resources''
       (example_hpc_state [Delivered ''[]'' 7]))) =
     [MqPublish ''offload'' ''G'' err, MqConsume ''answers'', MqReceived got] @
       (case got of Delivered m tag \<Rightarrow> [MqAck tag] | _ \<Rightarrow> [])"
proof -
  have "mResponseQueueName example_hpc \<in> set (mQueues (example_hpc_state [Delivered ''[]'' 7]))"
    by (simp add: example_hpc_def example_hpc_state_def)
  from hpc_get_outcome[OF this hpc_json_dump(1), of "example_amqp 0"] show ?thesis
    by (auto simp: example_hpc_state_def example_mq_def MQSSRabbitMQClient_def example_hpc_def
        c_str_def)
qed

definition silent_amqp :: "unit amqp_api" where
  "silent_amqp = \<lparr>
     a_new_connection = (\<lambda>w. (1, w)),
     a_tcp_socket_new = (\<lambda>c w. (Some 2, w)),
     a_socket_open = (\<lambda>sock host port w. (0, w)),
     a_login_normal = (\<lambda>c user password w. (True, w)),
     a_channel_open = (\<lambda>c w. w),
     a_rpc_reply_normal = (\<lambda>c w. (True, w)),
     a_channel_close = (\<lambda>c w. w),
     a_connection_close = (\<lambda>c w. w),
     a_destroy_connection = (\<lambda>c w. w),
     a_basic_publish = (\<lambda>c queue body w. (- 9, w)),
     a_basic_consume = (\<lambda>c queue w. w),
     a_consume_message = (\<lambda>c w. (Blocked, w)),
     a_basic_ack = (\<lambda>c tag w. w),
     a_queue_declare = (\<lambda>c queue w. w),
     a_error_string2 = (\<lambda>e. [])\<rparr>"

theorem hpc_failed_publication_witness:
  "fst (hpc_get silent_amqp hpc_json example_hpc ''resources''
     (MQSSRabbitMQClient 0 None ''guest'' ''guest'' ''localhost'' 5672 ())) = Hang"
proof -
  have "fst (send silent_amqp (mOffloadListenerQueueName example_hpc) ''D''
      (MQSSRabbitMQClient 0 None ''guest'' ''guest'' ''localhost'' 5672 ())) \<noteq> 0"
    by (simp add: send_def silent_amqp_def MQSSRabbitMQClient_def)
  moreover have "fst (a_consume_message silent_amqp c w) = Blocked" for c w
    by (simp add: silent_amqp_def)
  ultimately show ?thesis
    using hpc_failed_publication[OF hpc_json_dump(2) hpc_json_dump(1)] by blast
qed

definition example_os :: "consumed list os_api" where
  "example_os = \<lparr>
     o_sysconf_host_name_max = (\<lambda>w. 4),
     o_gethostname = (\<lambda>size w. if length ''node'' < unat size then Some ''node'' else None),
     o_random_uuid = (\<lambda>w. (''0123456789'', w))\<rparr>"

theorem MQSSHPCClient_outcome_witness:
  "case fst (MQSSHPCClient (example_amqp 0) example_os 0 None ''t'' ''offload'' []) of
     Ret H \<Rightarrow> mOffloadListenerQueueName H = ''offload'' | _ \<Rightarrow> True"
  using MQSSHPCClient_outcome[of "example_amqp 0" example_os 0 None "''t''" "''offload''" "[]", OF prod.collapse[symmetric]]
  by (simp split: outcome.splits)

theorem getHostName_length_witness: "getHostName example_os [] = []"
  using getHostName_length[of example_os "[]" "''node''" 4] by (simp add: example_os_def)

end
