(* ===== verification/Client_New.thy ===== *)
theory Client_New
  imports Polling Rest_Client Hpc_Client
begin

text \<open>
  The constructor of \<open>MQSSClient\<close>: the choice between the two transports of \<open>src/clients\<close>. The
  state holds what lies behind either of them.
\<close>

section \<open>Two transports over one state\<close>

definition lift_fst :: "('a, 'r) io \<Rightarrow> ('a \<times> 'b, 'r) io" where
  "lift_fst m = (\<lambda>s. case m (fst s) of (r, a) \<Rightarrow> (r, (a, snd s)))"

definition lift_snd :: "('b, 'r) io \<Rightarrow> ('a \<times> 'b, 'r) io" where
  "lift_snd m = (\<lambda>s. case m (snd s) of (r, b) \<Rightarrow> (r, (fst s, b)))"

definition first_transport :: "('a, 'j) base_client \<Rightarrow> ('a \<times> 'b, 'j) base_client" where
  "first_transport T = \<lparr>bc_get = \<lambda>path. lift_fst (bc_get T path),
     bc_post = \<lambda>path data. lift_fst (bc_post T path data), bc_del = \<lambda>path. lift_fst (bc_del T path)\<rparr>"

definition second_transport :: "('b, 'j) base_client \<Rightarrow> ('a \<times> 'b, 'j) base_client" where
  "second_transport T = \<lparr>bc_get = \<lambda>path. lift_snd (bc_get T path),
     bc_post = \<lambda>path data. lift_snd (bc_post T path data), bc_del = \<lambda>path. lift_snd (bc_del T path)\<rparr>"

context quiet_transport
begin

lemma first_quiet: "quiet_transport (first_transport T)"
  by unfold_locales (auto simp: first_transport_def lift_fst_def dest: get_quiet post_quiet
      split: prod.splits)

lemma second_quiet: "quiet_transport (second_transport T)"
  by unfold_locales (auto simp: second_transport_def lift_snd_def dest: get_quiet post_quiet
      split: prod.splits)

end

section \<open>Construction\<close>

definition MQP_DEFAULT_URL :: string where
  "MQP_DEFAULT_URL = ''https://portal.quantum.lrz.de:4000/v1/''"

text \<open>
  Everything outside the repository that a constructor reaches, and the indeterminate values of
  the members \<open>MQSSRabbitMQClient\<close> leaves uninitialised.
\<close>

record ('wr, 'wm, 'j) outside =
  ext_curl :: "'wr curl_api"
  ext_amqp :: "'wm amqp_api"
  ext_os :: "'wm os_api"
  ext_json :: "'j json_api"
  ext_junk_connection :: nat
  ext_junk_socket :: "nat option"

type_synonym ('wr, 'wm) both = "'wr rest_state \<times> 'wm mq"

definition MQSSClient ::
  "('wr, 'wm, 'j) outside \<Rightarrow> string \<Rightarrow> string \<Rightarrow> bool \<Rightarrow>
     (('wr, 'wm) both, (('wr, 'wm) both, 'j) mqss_client) io" where
  "MQSSClient X token url_or_queue is_hpc = (\<lambda>s.
     if is_hpc then
       (case MQSSHPCClient (ext_amqp X) (ext_os X) (ext_junk_connection X) (ext_junk_socket X)
               token url_or_queue (mq_world (snd s)) of
          (Ret H, m) \<Rightarrow>
            (Ret \<lparr>mIsHpc = True, mClient = second_transport (hpc_transport (ext_amqp X) (ext_json X) H)\<rparr>,
             (fst s, m))
        | (Exc e, m) \<Rightarrow> (Exc e, (fst s, m))
        | (Hang, m) \<Rightarrow> (Hang, (fst s, m)))
     else
       (case MQSSRestClient (ext_curl X) (ext_json X) token url_or_queue (fst s) of
          (Ret R, r) \<Rightarrow>
            (Ret \<lparr>mIsHpc = False, mClient = first_transport (rest_transport (ext_curl X) (ext_json X) R)\<rparr>,
             (r, snd s))
        | (Exc e, r) \<Rightarrow> (Exc e, (r, snd s))
        | (Hang, r) \<Rightarrow> (Hang, (r, snd s))))"

text \<open>Destroying a client: a REST client has nothing to do, an HPC client disconnects.\<close>

definition destroy_client ::
  "('wr, 'wm, 'j) outside \<Rightarrow> (('wr, 'wm) both, 'j) mqss_client \<Rightarrow> ('wr, 'wm) both \<Rightarrow> ('wr, 'wm) both" where
  "destroy_client X C s = (if mIsHpc C then (fst s, disconnect (ext_amqp X) (snd s)) else s)"

lemma MQSSClient_Ret:
  assumes "MQSSClient X token url is_hpc s = (Ret C, s')"
  shows "mIsHpc C = is_hpc \<and> quiet_transport (mClient C)"
  using assms rest.first_quiet hpc.second_quiet
  by (auto simp: MQSSClient_def split: if_splits prod.splits outcome.splits)

section \<open>Properties\<close>

text \<open>C39. A client made by the constructor, in either mode, has a transport that keeps runtime
  errors to itself, so that no query and no submission through it throws \<open>std::runtime_error\<close>;
  only construction and cancellation can.\<close>

theorem constructed_client_quiet:
  assumes "MQSSClient X token url is_hpc s = (Ret C, s')" "is_runtime_error e"
  shows "mIsHpc C = is_hpc \<and> fst (getAllResources J C w) \<noteq> Exc e \<and>
    fst (getResourceInfo J C name w) \<noteq> Exc e \<and> fst (getNumberPendingJobs J C name w) \<noteq> Exc e \<and>
    fst (submitJob J C job w) \<noteq> Exc e \<and> fst (getJobStatus J C job w) \<noteq> Exc e \<and>
    fst (getJobResult J C job wait timeout w) \<noteq> Exc e"
proof -
  from MQSSClient_Ret[OF assms(1)] have h: "mIsHpc C = is_hpc" and q: "quiet_transport (mClient C)"
    by simp_all
  show ?thesis
    using h assms(2) quiet_transport.getAllResources_quiet[OF q refl, of J w]
      quiet_transport.getResourceInfo_quiet[OF q refl, of J name w]
      quiet_transport.getNumberPendingJobs_quiet[OF q refl, of J name w]
      quiet_transport.submitJob_quiet[OF q refl, of J job w]
      quiet_transport.getJobStatus_quiet[OF q refl, of J job w]
      quiet_transport.getJobResult_quiet[OF q refl, of J job wait timeout w]
    by (metis prod.collapse)
qed

text \<open>C40. Construction: with a malformed URL a REST client is refused with
  \<open>std::invalid_argument\<close> and nothing is sent; a REST client that was made has sent exactly one
  request, and the message queue was not touched; in HPC mode the only exception is a runtime
  error, after the connection was torn down again, and nothing is sent over HTTP.\<close>

theorem MQSSClient_construction:
  "(if malformed url then MQSSClient X token url False s = (Exc invalid_url, s)
    else case MQSSClient X token url False s of
      (Ret C, s') \<Rightarrow> length (rs_sent (fst s')) = length (rs_sent (fst s)) + 1 \<and> snd s' = snd s
    | _ \<Rightarrow> True) \<and>
   (case MQSSClient X token queue True s of
      (Exc e, s') \<Rightarrow> is_runtime_error e \<and> mq_log (snd s') = [MqDisconnect] \<and> fst s' = fst s
    | _ \<Rightarrow> True)"
proof (intro conjI)
  show "if malformed url then MQSSClient X token url False s = (Exc invalid_url, s)
    else case MQSSClient X token url False s of
      (Ret C, s') \<Rightarrow> length (rs_sent (fst s')) = length (rs_sent (fst s)) + 1 \<and> snd s' = snd s
    | _ \<Rightarrow> True"
    by (auto simp: MQSSClient_def MQSSRestClient_bad_url split: prod.splits outcome.splits
        dest!: MQSSRestClient_Ret)
  show "case MQSSClient X token queue True s of
      (Exc e, s') \<Rightarrow> is_runtime_error e \<and> mq_log (snd s') = [MqDisconnect] \<and> fst s' = fst s
    | _ \<Rightarrow> True"
    by (auto simp: MQSSClient_def split: prod.splits outcome.splits dest!: MQSSHPCClient_cases)
qed

text \<open>The default address of the library is its own normal form: it is a portal address, so
  that a parser that accepts it gives it back unchanged.\<close>

theorem default_url_is_normal:
  assumes "c_url K w = (True, w1)" "c_url_set K MQP_DEFAULT_URL w1 = (True, w2)"
    and "c_url_get_scheme K MQP_DEFAULT_URL w2 = (Some ''https'', w3)"
  shows "normalizeUrl K MQP_DEFAULT_URL w = (Ret MQP_DEFAULT_URL, w3)"
proof -
  have u: "MQP_DEFAULT_URL = ''https'' @ scheme_sep @ ''portal.quantum.lrz.de:4000'' @ ''/v1/''"
    by (simp add: MQP_DEFAULT_URL_def scheme_sep_def)
  have wf: "\<not> malformed MQP_DEFAULT_URL"
    unfolding u by (rule wellformedI, subst str_find_https)
      (simp_all add: scheme_sep_def clean_char_def is_blank_def)
  have low: "map to_lower ''portal.quantum.lrz.de:4000'' = ''portal'' @ ''.quantum.lrz.de'' @ '':4000''"
    by code_simp
  have "rewrite_url ''https'' MQP_DEFAULT_URL (length ''https'') = MQP_DEFAULT_URL"
    using rewrite_portal[OF low, of "''/v1/''" "''https''"]
    by (simp add: u portal_domains_def portal_port_def short_path_def scheme_sep_def)
  with normalizeUrl_eval[OF wf assms] https_find[of "''portal.quantum.lrz.de:4000'' @ ''/v1/''"]
  show ?thesis by (simp add: u)
qed

theorem default_url_is_normal_witness:
  "normalizeUrl example_curl MQP_DEFAULT_URL [] = (Ret MQP_DEFAULT_URL, [])"
proof -
  have "c_url_get_scheme example_curl MQP_DEFAULT_URL [] = (Some ''https'', [])"
    using example_scheme[of "''portal.quantum.lrz.de:4000'' @ ''/v1/''" "[]"]
    by (simp add: MQP_DEFAULT_URL_def scheme_sep_def)
  from default_url_is_normal[OF example_curl_url(1) example_curl_url(2) this] show ?thesis .
qed

definition example_outside :: "(transfer list, consumed list, jv) outside" where
  "example_outside = \<lparr>ext_curl = example_curl, ext_amqp = example_amqp 0, ext_os = example_os,
     ext_json = ref_json [], ext_junk_connection = 0, ext_junk_socket = None\<rparr>"

lemma example_made:
  "\<exists>C s'. MQSSClient example_outside ''t'' (''https'' @ scheme_sep @ ''localhost/api'') False
     (example_state [example_transfer 200], example_mq []) = (Ret C, s')"
  using example_construction by (simp add: MQSSClient_def example_outside_def)

theorem constructed_client_quiet_witness:
  "\<exists>C s'. MQSSClient example_outside ''t'' (''https'' @ scheme_sep @ ''localhost/api'') False
     (example_state [example_transfer 200], example_mq []) = (Ret C, s') \<and>
     (\<forall>w. fst (submitJob (ref_json []) C example_job w) \<noteq> Exc (Runtime_error ''x''))"
proof -
  from example_made obtain C s' where made: "MQSSClient example_outside ''t''
     (''https'' @ scheme_sep @ ''localhost/api'') False
     (example_state [example_transfer 200], example_mq []) = (Ret C, s')" by blast
  from constructed_client_quiet[OF made, of "Runtime_error ''x''"] made show ?thesis by auto
qed

end
