(* ===== verification/Client_Props.thy ===== *)
theory Client_Props
  imports Polling Resource_Format
begin

text \<open>
  What the operations of \<open>MQSSClient\<close> other than the polling loop do on every response of the
  server: submitting, the resource queries, the error answers, and the exceptions that reach
  the caller.
\<close>

section \<open>Submitting\<close>

text \<open>The uuid a response to a submission carries: none, one, or a member of the wrong type.\<close>

definition response_uuid :: "'j json_api \<Rightarrow> string \<Rightarrow> string option result" where
  "response_uuid J resp =
     (if resp = [] then Inr None
      else case j_parse J resp of
        Inl m \<Rightarrow> Inr None
      | Inr v \<Rightarrow> (case j_find J v ''uuid'' of
            None \<Rightarrow> Inr None
          | Some x \<Rightarrow> (case j_get_string J x of
                Inl m \<Rightarrow> Inl (Json_exn m)
              | Inr u \<Rightarrow> Inr (Some u))))"

lemma read_uuid:
  assumes "json_laws J"
  shows "(if resp = [] \<or> \<not> j_accept J resp then ret_io (None, job)
       else bind_io (lift_sum (jx (j_parse J resp))) (\<lambda>parsed.
           if \<not> j_contains J parsed ''uuid'' then ret_io (None, job)
           else bind_io (lift_sum (jx (j_index J parsed ''uuid''))) (\<lambda>u.
             bind_io (lift_sum (jx (j_get_string J u))) (\<lambda>uuid.
               ret_io (Some uuid, setUuid uuid job))))) =
    (case response_uuid J resp of
        Inl e \<Rightarrow> throw_io e
      | Inr None \<Rightarrow> ret_io (None, job)
      | Inr (Some u) \<Rightarrow> ret_io (Some u, setUuid u job))"
proof (cases "resp = [] \<or> (\<exists>m. j_parse J resp = Inl m)")
  case True
  then show ?thesis by (auto simp: response_uuid_def json_accept[OF assms])
next
  case False
  then obtain v where v: "resp \<noteq> []" "j_parse J resp = Inr v"
    by (cases "j_parse J resp") auto
  show ?thesis
  proof (cases "j_find J v ''uuid''")
    case None
    with v show ?thesis
      by (simp add: response_uuid_def json_accept[OF assms] json_contains[OF assms])
        (simp add: ret_io_def)
  next
    case (Some x)
    with v show ?thesis
      by (cases "j_get_string J x", simp_all add: response_uuid_def json_accept[OF assms]
          json_contains[OF assms] json_index[OF assms Some])
        (simp_all add: ret_io_def throw_io_def)
  qed
qed

lemma submitJob_reads:
  assumes "json_laws J"
  shows "submitJob J C job =
    bind_io (call_post C (getPath job) (toJson J (mIsHpc C) job)) (\<lambda>resp.
      case response_uuid J resp of
        Inl e \<Rightarrow> throw_io e
      | Inr None \<Rightarrow> ret_io (None, job)
      | Inr (Some u) \<Rightarrow> ret_io (Some u, setUuid u job))"
  unfolding submitJob_def read_uuid[OF assms] ..

lemma call_post_trace:
  "trace (snd (call_post C path d w)) = trace w @ [EvPost path (fst (call_post C path d w))]"
  by (simp add: call_post_def split: prod.splits)

lemma submitJob_trace:
  assumes "json_laws J"
  shows "trace (snd (submitJob J C job w)) = trace w @ [EvPost (getPath job)
    (fst (call_post C (getPath job) (toJson J (mIsHpc C) job) w))]"
  unfolding submitJob_reads[OF assms]
  by (subst snd_bind_pure) (auto simp: call_post_trace pure_io_def split: sum.splits option.splits)

text \<open>Submitting a job is one POST to the job's path, and its outcome is decided by the
  response alone: an empty or unparsable response, or one with no uuid, gives none and leaves
  the job as it was; a string uuid is returned and stored in the job; any other uuid throws a
  JSON exception; an exception of the transport is passed on.\<close>

theorem submitJob_outcome:
  assumes "json_laws J"
  shows "trace (snd (submitJob J C job w)) =
      trace w @ [EvPost (getPath job)
        (fst (call_post C (getPath job) (toJson J (mIsHpc C) job) w))] \<and>
    fst (submitJob J C job w) =
      (case fst (call_post C (getPath job) (toJson J (mIsHpc C) job) w) of
         Hang \<Rightarrow> Hang
       | Exc e \<Rightarrow> Exc e
       | Ret resp \<Rightarrow> (case response_uuid J resp of
             Inl e \<Rightarrow> Exc e
           | Inr None \<Rightarrow> Ret (None, job)
           | Inr (Some u) \<Rightarrow> Ret (Some u, setUuid u job)))"
proof (rule conjI)
  show "trace (snd (submitJob J C job w)) = trace w @ [EvPost (getPath job)
        (fst (call_post C (getPath job) (toJson J (mIsHpc C) job) w))]"
    by (rule submitJob_trace[OF assms])
qed (auto simp: submitJob_reads[OF assms] bind_io_def split: prod.splits outcome.splits
    sum.splits option.splits)

theorem submitJob_outcome_witness:
  "fst (submitJob (ref_json [(''U'', JObj [(''uuid'', JStr ''42'')])]) example_client example_job
     (example_sys [''U''])) = Ret (Some ''42'', setUuid ''42'' example_job)"
proof -
  have post: "fst (call_post example_client p d (example_sys [''U''])) = Ret ''U''" for p and d :: jv
    by (simp add: call_post_def example_client_def example_sys_def)
  have "response_uuid (ref_json [(''U'', JObj [(''uuid'', JStr ''42'')])]) ''U'' = Inr (Some ''42'')"
    by (simp add: response_uuid_def)
  with submitJob_outcome[OF ref_json_laws, THEN conjunct2,
      of "[(''U'', JObj [(''uuid'', JStr ''42'')])]" example_client example_job "example_sys [''U'']"]
  show ?thesis unfolding post by simp
qed

section \<open>Resources\<close>

text \<open>What a server describes a resource by, and the resource it stands for.\<close>

type_synonym resource_row = "string \<times> u32 \<times> bool \<times> (nat \<times> nat) list \<times> gate list"

fun row_json :: "'j json_api \<Rightarrow> resource_row \<Rightarrow> 'j" where
  "row_json J (name, qubits, online, coupling, gates) =
     resource_to_json J name qubits online coupling gates"

fun row_resource :: "resource_row \<Rightarrow> resource" where
  "row_resource (name, qubits, online, coupling, gates) =
     Resource_members name qubits online (map pair_row coupling) gates"

fun row_ok :: "resource_row \<Rightarrow> bool" where
  "row_ok (name, qubits, online, coupling, gates) \<longleftrightarrow>
     list_all (\<lambda>p. int (fst p) \<le> int_max \<and> int (snd p) \<le> int_max) coupling \<and>
     list_all printable_gate gates"

lemma row_json_read: "json_laws J \<Longrightarrow> row_ok row \<Longrightarrow> Resource_json J (row_json J row) = Inr (row_resource row)"
  by (cases row) (simp add: Resource_json_read list_all_iff Resource_members_def)

lemma row_json_no_error: "json_laws J \<Longrightarrow> j_find J (row_json J row) ''ERROR'' = None"
  by (cases row) (simp add: resource_to_json_find)

lemma getAllResources_of:
  assumes "json_laws J" "call_get C ''resources'' w = (Ret resp, w1)" "j_parse J resp = Inr v"
  shows "getAllResources J C w = (case mapE (Resource_json J) (j_elems J v) of
      Inl e \<Rightarrow> (Exc e, w1) | Inr rs \<Rightarrow> (Ret rs, w1))"
  using assms(2,3) by (cases "mapE (Resource_json J) (j_elems J v)")
    (simp_all add: getAllResources_def bind_io_def json_accept[OF assms(1)])

text \<open>C15. Round trip: when the server answers with the JSON array of some resource
  descriptions, \<open>getAllResources\<close> returns exactly the resources described, in order, with
  their coupling maps and gate sets.\<close>

theorem getAllResources_roundtrip:
  assumes "json_laws J" "call_get C ''resources'' w = (Ret resp, w1)"
    and "j_parse J resp = Inr (j_array J (map (row_json J) rows))" "list_all row_ok rows"
  shows "getAllResources J C w = (Ret (map row_resource rows), w1)"
proof -
  have "mapE (Resource_json J) (map (row_json J) rows) = Inr (map row_resource rows)"
    using assms(4) by (induction rows) (simp_all add: row_json_read[OF assms(1)])
  then show ?thesis
    by (simp add: getAllResources_of[OF assms(1-3)] json_array[OF assms(1)])
qed

text \<open>C32. All or nothing: one element the constructor of \<open>Resource\<close> rejects (an unknown gate, a
  number beyond \<open>int\<close>, an element that is no object such as the text of an error answer) makes
  \<open>getAllResources\<close> throw a parse error, whatever the other elements are.\<close>

theorem getAllResources_all_or_nothing:
  assumes "json_laws J" "call_get C ''resources'' w = (Ret resp, w1)" "j_parse J resp = Inr v"
    and "x \<in> set (j_elems J v)" "Resource_json J x = Inl e \<or> \<not> j_is_object J x"
  shows "\<exists>e'. getAllResources J C w = (Exc e', w1) \<and> parse_error e'"
proof -
  obtain e'' where e'': "Resource_json J x = Inl e''"
    using assms(5) json_value_non_object[OF assms(1), of x "''name''" "''''"]
    by (fastforce simp: Resource_json_def)
  from mapE_throws[where f = "Resource_json J", OF assms(4) e''] obtain e' where
    e': "mapE (Resource_json J) (j_elems J v) = Inl e'" ..
  then have "parse_error e'" by (elim mapE_Inl) (rule Resource_json_error)
  with e' show ?thesis by (simp add: getAllResources_of[OF assms(1-3)])
qed

lemma getResourceInfo_eval:
  assumes "json_laws J" "call_get C (''resources/'' @ name) w = (Ret resp, w1)"
  shows "getResourceInfo J C name w =
    (case j_parse J resp of
       Inl m \<Rightarrow> (Ret None, w1)
     | Inr v \<Rightarrow>
         if str_find ''RESOURCE NOT FOUND'' resp \<noteq> None \<or> j_find J v ''ERROR'' \<noteq> None
         then (Ret None, w1)
         else (case Resource_json J v of Inl e \<Rightarrow> (Exc e, w1) | Inr r \<Rightarrow> (Ret (Some r), w1)))"
proof (cases "j_parse J resp")
  case (Inl m)
  with assms(2) show ?thesis
    by (simp add: getResourceInfo_def bind_io_def json_accept[OF assms(1)])
next
  case (Inr v)
  with assms(2) show ?thesis
    by (cases "Resource_json J v") (simp_all add: getResourceInfo_def bind_io_def
        json_accept[OF assms(1)] json_contains[OF assms(1)])
qed

lemma str_find_not_None: "str_find p s \<noteq> None \<longleftrightarrow> sublist p s"
  by (simp only: str_find_None_iff not_not)

text \<open>\<open>getResourceInfo\<close> turns every error answer into \<open>nullopt\<close>: a text that contains
  \<open>RESOURCE NOT FOUND\<close>, a text that is no JSON (the empty one included), and a JSON object with
  an \<open>ERROR\<close> member; any other JSON goes to the constructor of \<open>Resource\<close>.\<close>

theorem getResourceInfo_branches:
  assumes "json_laws J" "call_get C (''resources/'' @ name) w = (Ret resp, w1)"
  shows "getResourceInfo J C name w =
    (case j_parse J resp of
       Inl m \<Rightarrow> (Ret None, w1)
     | Inr v \<Rightarrow>
         if sublist ''RESOURCE NOT FOUND'' resp \<or> j_find J v ''ERROR'' \<noteq> None then (Ret None, w1)
         else (case Resource_json J v of Inl e \<Rightarrow> (Exc e, w1) | Inr r \<Rightarrow> (Ret (Some r), w1)))"
  using getResourceInfo_eval[OF assms] unfolding str_find_not_None .

section \<open>Counting pending jobs\<close>

text \<open>The number of pending jobs is \<open>-1\<close> whenever the server does not give one: the response
  is empty or no JSON, or an object with no such member. The call is one GET and changes nothing
  else.\<close>

theorem getNumberPendingJobs_unknown:
  assumes "json_laws J" "call_get C (''resources/'' @ name @ ''/num_pending_jobs'') w = (Ret resp, w1)"
    and "case j_parse J resp of Inl m \<Rightarrow> True
      | Inr v \<Rightarrow> resp = [] \<or> j_is_object J v \<and> j_find J v ''num_pending_jobs'' = None"
  shows "getNumberPendingJobs J C name w = (Ret (- 1), w1)"
proof (cases "j_parse J resp")
  case (Inl m)
  with assms(2) show ?thesis
    by (simp add: getNumberPendingJobs_def bind_io_def json_accept[OF assms(1)])
next
  case (Inr v)
  with assms(2,3) json_default_int[OF assms(1), of v "''num_pending_jobs''" "- 1"] show ?thesis
    by (auto simp: getNumberPendingJobs_def bind_io_def json_accept[OF assms(1)])
qed

section \<open>Exceptions that reach the caller\<close>

text \<open>Over a transport whose \<open>get\<close> and \<open>post\<close> keep runtime errors to themselves, no query of
  the client and no submission ends in a \<open>std::runtime_error\<close>, waiting for a result included.\<close>

theorem client_never_throws_runtime_error:
  assumes "quiet_transport (mClient C)"
  shows "\<forall>e. is_runtime_error e \<longrightarrow>
    fst (getAllResources J C w) \<noteq> Exc e \<and>
    fst (getResourceInfo J C name w) \<noteq> Exc e \<and>
    fst (getNumberPendingJobs J C name w) \<noteq> Exc e \<and>
    fst (submitJob J C job w) \<noteq> Exc e \<and>
    fst (getJobStatus J C job w) \<noteq> Exc e \<and>
    fst (getJobResult J C job wait timeout w) \<noteq> Exc e"
  using quiet_transport.getAllResources_quiet[OF assms refl, of J w]
    quiet_transport.getResourceInfo_quiet[OF assms refl, of J name w]
    quiet_transport.getNumberPendingJobs_quiet[OF assms refl, of J name w]
    quiet_transport.submitJob_quiet[OF assms refl, of J job w]
    quiet_transport.getJobStatus_quiet[OF assms refl, of J job w]
    quiet_transport.getJobResult_quiet[OF assms refl, of J job wait timeout w]
  by (metis prod.collapse)

section \<open>Examples\<close>

definition example_rows :: "resource_row list" where
  "example_rows =
     [(''QExa20'', 20, True, [(0, 1), (1, 0)],
        [\<lparr>gate_mName = ''cz'', gate_mQubitNumber = 2, gate_mParameterNumber = 0,
          gate_mSupportedQubits = [[0, 1], [1, 0]]\<rparr>,
         \<lparr>gate_mName = ''measure'', gate_mQubitNumber = 1, gate_mParameterNumber = 0,
          gate_mSupportedQubits = [[0]]\<rparr>]),
      (''Q5'', 5, False, [], [])]"

definition Q5_row :: resource_row where
  "Q5_row = (''Q5'', 2, True, [(0, 1)],
     [\<lparr>gate_mName = ''cz'', gate_mQubitNumber = 2, gate_mParameterNumber = 0, gate_mSupportedQubits = [[0, 1]]\<rparr>])"

definition resources_json :: "jv json_api" where
  "resources_json = ref_json
     [(''A'', JArr (map (row_json (ref_json [])) example_rows)),
      (''E'', JObj [(''ERROR'', JStr ''no'')]),
      (''N'', JObj []), (''R'', row_json (ref_json []) Q5_row)]"

lemma row_json_ref: "row_json (ref_json t) = row_json (ref_json [])"
proof
  show "row_json (ref_json t) row = row_json (ref_json []) row" for row
    by (cases row) (simp add: resource_to_json_def)
qed

lemma resources_json_laws: "json_laws resources_json"
  by (simp add: resources_json_def ref_json_laws)

lemma example_get:
  "call_get example_client path (example_sys [r]) = (Ret r, \<lparr>net = [], trace = [EvGet path (Ret r)]\<rparr>)"
  by (simp add: call_get_def example_client_def example_sys_def)

theorem getAllResources_roundtrip_witness:
  "fst (getAllResources resources_json example_client (example_sys [''A''])) =
     Ret (map row_resource example_rows)"
proof -
  have "j_parse resources_json ''A'' =
      Inr (j_array resources_json (map (row_json resources_json) example_rows))"
    by (simp add: resources_json_def row_json_ref[of "(''A'', _) # _"])
  moreover have "list_all row_ok example_rows"
    by (simp add: example_rows_def printable_gate_def getGateProterties_def int_qubit_def)
  ultimately show ?thesis
    using getAllResources_roundtrip[OF resources_json_laws example_get] by simp
qed

theorem getAllResources_all_or_nothing_witness:
  "\<exists>e'. fst (getAllResources resources_json example_client (example_sys [''E''])) = Exc e' \<and>
     parse_error e'"
proof -
  have "j_parse resources_json ''E'' = Inr (JObj [(''ERROR'', JStr ''no'')])"
    by (simp add: resources_json_def)
  moreover have "JStr ''no'' \<in> set (j_elems resources_json (JObj [(''ERROR'', JStr ''no'')]))"
    "\<not> j_is_object resources_json (JStr ''no'')"
    by (simp_all add: resources_json_def)
  ultimately show ?thesis
    using getAllResources_all_or_nothing[OF resources_json_laws example_get] by fastforce
qed

theorem getResourceInfo_branches_witness:
  "fst (getResourceInfo resources_json example_client ''Q5'' (example_sys [''E''])) = Ret None"
proof -
  have "j_parse resources_json ''E'' = Inr (JObj [(''ERROR'', JStr ''no'')])"
    "j_find resources_json (JObj [(''ERROR'', JStr ''no'')]) ''ERROR'' \<noteq> None"
    by (simp_all add: resources_json_def)
  with getResourceInfo_branches[OF resources_json_laws example_get, of "''Q5''" "''E''"]
  show ?thesis by simp
qed

theorem getNumberPendingJobs_unknown_witness:
  "fst (getNumberPendingJobs resources_json example_client ''Q5'' (example_sys [''N''])) = Ret (- 1)"
proof -
  have "j_parse resources_json ''N'' = Inr (JObj [])"
    "j_is_object resources_json (JObj [])"
    "j_find resources_json (JObj []) ''num_pending_jobs'' = None"
    by (simp_all add: resources_json_def)
  with getNumberPendingJobs_unknown[OF resources_json_laws example_get, of "''N''" "''Q5''"]
  show ?thesis by simp
qed

theorem client_never_throws_runtime_error_witness:
  "\<forall>e. is_runtime_error e \<longrightarrow>
     fst (submitJob resources_json example_client example_job (example_sys [''E''])) \<noteq> Exc e"
proof -
  have "quiet_transport (mClient example_client)"
    by (simp add: example_client_def script.quiet_transport_axioms)
  from client_never_throws_runtime_error[OF this, of resources_json "example_sys [''E'']"]
  show ?thesis by blast
qed

end
