(* ===== verification/End_To_End.thy ===== *)
theory End_To_End
  imports Client_New Client_Props
begin

text \<open>
  \<open>MQSSClient\<close> composed with its transports: what a submission, a status query or a cancellation
  puts on the wire, and what the caller sees when the server or the broker fails.
\<close>

section \<open>A client over REST\<close>

definition rest_mqss ::
  "'w curl_api \<Rightarrow> 'j json_api \<Rightarrow> rest_client \<Rightarrow> ('w rest_state, 'j) mqss_client" where
  "rest_mqss K J R = \<lparr>mIsHpc = False, mClient = rest_transport K J R\<rparr>"

lemma rest_mqss_calls:
  "call_get (rest_mqss K J R) path w = (case rest_get K J R path (net w) of
     (r, n) \<Rightarrow> (r, \<lparr>net = n, trace = trace w @ [EvGet path r]\<rparr>))"
  "call_post (rest_mqss K J R) path d w = (case rest_post K J R path d (net w) of
     (r, n) \<Rightarrow> (r, \<lparr>net = n, trace = trace w @ [EvPost path r]\<rparr>))"
  "call_del (rest_mqss K J R) path w = (case rest_del K J R path (net w) of
     (r, n) \<Rightarrow> (r, \<lparr>net = n, trace = trace w @ [EvDel path r]\<rparr>))"
  by (simp_all add: call_get_def call_post_def call_del_def rest_mqss_def rest_transport_def)

lemma net_getJobStatus: "net (snd (getJobStatus J C job w)) = net (snd (call_get C (status_url job) w))"
  unfolding getJobStatus_reads by (subst snd_bind_pure) (auto intro: pure_intros)

lemma getJobResult_now_reads:
  "snd (getJobResult_now J C job w) = snd (call_get C (result_url job) w)"
  unfolding getJobResult_now_def by (rule snd_bind_pure) (auto intro!: pure_intros)

text \<open>What a REST client logs for one call, whatever comes back.\<close>

lemma rest_mqss_logs:
  assumes "c_easy_init K (rs_curl (net w)) = (True, w1)"
  shows "rs_sent (net (snd (call_get (rest_mqss K J R) path w))) =
      rs_sent (net w) @ [the_request K R ''GET'' path None w1]"
    and "rs_sent (net (snd (call_del (rest_mqss K J R) path w))) =
      rs_sent (net w) @ [the_request K R ''DELETE'' path None w1]"
  using rest_get_logs[OF assms, of J R path] rest_del_logs[OF assms, of J R path]
  by (auto simp: rest_mqss_calls split: prod.splits)

lemma rest_submit_run:
  assumes "json_laws J" "c_easy_init K (rs_curl (net w)) = (True, w1)"
    and "j_dump J (toJson J False job) = Inr body"
    and "c_easy_perform K (the_request K R ''POST'' (getPath job) (Some body) w1) w1 = (t, w2)"
    and "list_all chunk_ok (tr_chunks t)"
  shows "rs_sent (net (snd (submitJob J (rest_mqss K J R) job w))) =
      rs_sent (net w) @ [the_request K R ''POST'' (getPath job) (Some body) w1] \<and>
    fst (submitJob J (rest_mqss K J R) job w) =
      (if accepted t then
         (case response_uuid J (concat (map ch_data (tr_chunks t))) of
            Inl e \<Rightarrow> Exc e
          | Inr None \<Rightarrow> Ret (None, job)
          | Inr (Some u) \<Rightarrow> Ret (Some u, setUuid u job))
       else Ret (None, job))"
proof -
  have post: "rest_post K J R (getPath job) (toJson J False job) (net w) =
    (Ret (if accepted t then concat (map ch_data (tr_chunks t)) else []),
     \<lparr>rs_curl = w2, rs_sent = rs_sent (net w) @ [the_request K R ''POST'' (getPath job) (Some body) w1]\<rparr>)"
    using rest_post_run[OF assms(2) _ assms(5), of J "toJson J False job" R "getPath job" w2] assms(3,4)
    by simp
  have hpc: "mIsHpc (rest_mqss K J R) = False" by (simp add: rest_mqss_def)
  have none: "response_uuid J [] = Inr None" by (simp add: response_uuid_def)
  show ?thesis
    unfolding submitJob_reads[OF assms(1)] bind_io_def hpc
    using none by (auto simp: rest_mqss_calls post split: sum.splits option.splits)
qed

text \<open>C2. Submitting over REST, end to end: one POST to the base URL with \<open>job\<close> (or
  \<open>hamiltonian_job\<close>) appended, whose body is the text of the job's payload. A transfer that fails,
  a status outside 200 to 299, and a response without a uuid all give none and leave the job as it
  was; with a uuid in the response, the caller gets that uuid and the job holds it.
\<close>

theorem rest_submit_end_to_end:
  assumes "json_laws J" "c_easy_init K (rs_curl (net w)) = (True, w1)"
    and "j_dump J (toJson J False job) = Inr body"
    and "c_easy_perform K (the_request K R ''POST'' (getPath job) (Some body) w1) w1 = (t, w2)"
    and "list_all chunk_ok (tr_chunks t)"
  shows "rs_sent (net (snd (submitJob J (rest_mqss K J R) job w))) =
      rs_sent (net w) @ [the_request K R ''POST'' (getPath job) (Some body) w1] \<and>
    fst (submitJob J (rest_mqss K J R) job w) =
      (if accepted t then
         (case response_uuid J (concat (map ch_data (tr_chunks t))) of
            Inl e \<Rightarrow> Exc e
          | Inr None \<Rightarrow> Ret (None, job)
          | Inr (Some u) \<Rightarrow> Ret (Some u, setUuid u job))
       else Ret (None, job))"
  using assms by (rule rest_submit_run)

text \<open>C27. After a submission over REST every later call for the job is about the job the server accepted:
  the status query, the result query and the cancellation each send exactly one request, to the
  base URL with the job's path, the uuid of the response and \<open>/status\<close>, \<open>/result\<close> or nothing
  appended, whatever the server answers to it.
\<close>

theorem rest_job_addressed:
  assumes "json_laws J" "submitJob J (rest_mqss K J R) job w = (Ret (Some u, job'), w')"
    and "c_easy_init K (rs_curl (net w')) = (True, w1)"
  shows "rs_sent (net (snd (getJobStatus J (rest_mqss K J R) job' w'))) = rs_sent (net w') @
      [the_request K R ''GET'' (getPath job @ ''/'' @ u @ ''/status'') None w1] \<and>
    rs_sent (net (snd (getJobResult J (rest_mqss K J R) job' False n w'))) = rs_sent (net w') @
      [the_request K R ''GET'' (getPath job @ ''/'' @ u @ ''/result'') None w1] \<and>
    rs_sent (net (snd (cancelJob (rest_mqss K J R) job' w'))) = rs_sent (net w') @
      [the_request K R ''DELETE'' (getPath job @ ''/'' @ u) None w1]"
proof -
  have "job' = setUuid u job"
    using assms(2) unfolding submitJob_reads[OF assms(1)] bind_io_def
    by (auto split: prod.splits outcome.splits sum.splits option.splits)
  then have "status_url job' = getPath job @ ''/'' @ u @ ''/status''"
    "result_url job' = getPath job @ ''/'' @ u @ ''/result''"
    "job_url job' = getPath job @ ''/'' @ u"
    by (simp_all add: status_url_def result_url_def job_url_def)
  then show ?thesis
    by (simp add: net_getJobStatus getJobResult_def getJobResult_now_reads cancelJob_def
        rest_mqss_logs[OF assms(3)])
qed

section \<open>A client over the message queue\<close>

definition hpc_mqss ::
  "'w amqp_api \<Rightarrow> 'j json_api \<Rightarrow> hpc_client \<Rightarrow> ('w mq, 'j) mqss_client" where
  "hpc_mqss A J H = \<lparr>mIsHpc = True, mClient = hpc_transport A J H\<rparr>"

lemma hpc_mqss_calls:
  "call_get (hpc_mqss A J H) path w = (case hpc_get A J H path (net w) of
     (r, n) \<Rightarrow> (r, \<lparr>net = n, trace = trace w @ [EvGet path r]\<rparr>))"
  "call_post (hpc_mqss A J H) path d w = (case hpc_post A J H path d (net w) of
     (r, n) \<Rightarrow> (r, \<lparr>net = n, trace = trace w @ [EvPost path r]\<rparr>))"
  by (simp_all add: call_get_def call_post_def hpc_mqss_def hpc_transport_def)

lemma receive_not_normal:
  assumes "\<And>c v. fst (a_consume_message A c v) = Not_normal e"
  shows "fst (receive A q s) = Ret (a_error_string2 A e)"
    and "q \<in> set (mQueues s) \<Longrightarrow>
      mq_log (snd (receive A q s)) = mq_log s @ [MqConsume (c_str q), MqReceived (Not_normal e)]"
proof -
  let ?s1 = "subscribe A q (snd (declareQueue A q s))"
  obtain w where "a_consume_message A (mConnection ?s1) (mq_world ?s1) = (Not_normal e, w)"
    using assms by (metis prod.collapse)
  then have r: "receive A q s = (Ret (a_error_string2 A e),
      log_mq (MqReceived (Not_normal e)) (?s1\<lparr>mq_world := w\<rparr>))"
    by (simp add: receive_def Let_def)
  show "fst (receive A q s) = Ret (a_error_string2 A e)" by (simp add: r)
  show "mq_log (snd (receive A q s)) = mq_log s @ [MqConsume (c_str q), MqReceived (Not_normal e)]"
    if "q \<in> set (mQueues s)"
    using that declareQueue_log(1)[of A q s] subscribe_log(1)[of A q "snd (declareQueue A q s)"]
    by (simp add: r log_mq_def)
qed

text \<open>C29. When the broker fails while the client waits for a response (and the text of the library error
  is no JSON), a submission in HPC mode has handed its request to the broker before, and ends in the same way
  whatever the broker said to that: if it took the request (\<open>err\<close> is 0) the job is published, and if not it is
  lost, but in both cases the caller gets none and the job no uuid; and waiting for a result with a
  positive timeout ends at once with none, as if the job had stopped.
\<close>

theorem hpc_broker_failure:
  assumes "json_laws J" "mResponseQueueName H \<in> set (mQueues (net w))"
    and "\<And>c v. fst (a_consume_message A c v) = Not_normal e"
    and "j_parse J (a_error_string2 A e) = Inl m"
    and "j_dump J (hpc_request J H ''POST'' (getPath job) (toJson J True job)) = Inr pbody"
    and "j_dump J (hpc_request J H ''GET'' (status_url job) (j_str J '''')) = Inr gbody"
    and "0 < uint timeout" "uint timeout < 2 ^ 31"
    and "fst (a_basic_publish A (mConnection (net w)) (c_str (mOffloadListenerQueueName H)) (c_str pbody)
      (mq_world (net w))) = err"
  shows "mq_log (net (snd (submitJob J (hpc_mqss A J H) job w))) = mq_log (net w) @
      [MqPublish (c_str (mOffloadListenerQueueName H)) (c_str pbody) err,
       MqConsume (c_str (mResponseQueueName H)), MqReceived (Not_normal e)] \<and>
    fst (submitJob J (hpc_mqss A J H) job w) = Ret (None, job) \<and>
    fst (getJobResult J (hpc_mqss A J H) job True timeout w) = Ret None"
proof (intro conjI)
  let ?C = "hpc_mqss A J H" and ?q = "mResponseQueueName H"
  let ?s = "snd (send A (mOffloadListenerQueueName H) pbody (net w))"
  have mode: "mIsHpc ?C = True" by (simp add: hpc_mqss_def)
  obtain n where post: "call_post ?C (getPath job) (toJson J True job) w =
      (Ret (a_error_string2 A e), \<lparr>net = snd (receive A ?q ?s), trace = n\<rparr>)"
    using receive_not_normal(1)[OF assms(3), of ?q ?s]
    by (cases "receive A ?q ?s") (auto simp: hpc_mqss_calls hpc_post_eval assms(5))
  have uuid: "response_uuid J (a_error_string2 A e) = Inr None"
    using assms(4) by (simp add: response_uuid_def)
  have sub: "submitJob J ?C job w = (Ret (None, job), \<lparr>net = snd (receive A ?q ?s), trace = n\<rparr>)"
    unfolding submitJob_reads[OF assms(1)] bind_io_def mode post using uuid by (simp add: ret_io_def)
  show "fst (submitJob J ?C job w) = Ret (None, job)" by (simp add: sub)
  have "mq_log (snd (receive A ?q ?s)) = mq_log ?s @ [MqConsume (c_str ?q), MqReceived (Not_normal e)]"
    by (rule receive_not_normal(2)[OF assms(3)]) (simp add: assms(2))
  moreover have "fst (send A (mOffloadListenerQueueName H) pbody (net w)) = err"
    using assms(9) by (auto simp: send_def split: prod.splits)
  ultimately show "mq_log (net (snd (submitJob J ?C job w))) = mq_log (net w) @
      [MqPublish (c_str (mOffloadListenerQueueName H)) (c_str pbody) err,
       MqConsume (c_str ?q), MqReceived (Not_normal e)]"
    by (simp add: sub)
  let ?g = "snd (send A (mOffloadListenerQueueName H) gbody (net w))"
  have "fst (call_get ?C (status_url job) w) = Ret (a_error_string2 A e)"
    using receive_not_normal(1)[OF assms(3), of ?q ?g]
    by (cases "receive A ?q ?g") (auto simp: hpc_mqss_calls hpc_get_eval assms(6))
  moreover have "response_status J (a_error_string2 A e) = []"
    using assms(4) by (simp add: response_status_def)
  ultimately obtain w1 where "getJobStatus J ?C job w = (Ret [], w1)"
    unfolding getJobStatus_cases by (cases "call_get ?C (status_url job) w")
      (auto simp: status_of_response_total[OF assms(1)])
  then show "fst (getJobResult J ?C job True timeout w) = Ret None"
    using assms(7) by (simp add: getJobResult_def waitForJobResult.simps size_to_int_small[OF assms(8)])
qed

section \<open>Examples\<close>

definition rest_json :: "jv json_api" where
  "rest_json = ref_json
     [(''B'', toJson (ref_json []) False example_job), (''abc'', JObj [(''uuid'', JStr ''42'')])]"

lemma rest_json_facts:
  "json_laws rest_json" "toJson rest_json False example_job = toJson (ref_json []) False example_job"
  "j_dump rest_json (toJson rest_json False example_job) = Inr ''B''"
proof -
  show "json_laws rest_json" by (simp add: rest_json_def ref_json_laws)
  show e: "toJson rest_json False example_job = toJson (ref_json []) False example_job"
    by (simp add: example_job_def circuit_toJson_def rest_json_def)
  show "j_dump rest_json (toJson rest_json False example_job) = Inr ''B''"
    unfolding e by (simp add: rest_json_def) (simp add: ref_json_def)
qed

definition rest_sys :: "transfer list \<Rightarrow> transfer list rest_state sys" where
  "rest_sys ts = \<lparr>net = example_state ts, trace = []\<rparr>"

lemma rest_sys_init: "c_easy_init example_curl (rs_curl (net (rest_sys ts))) = (True, ts)"
  by (simp add: rest_sys_def example_state_def)

lemma rest_uuid: "response_uuid rest_json ''abc'' = Inr (Some ''42'')"
  by (simp add: response_uuid_def rest_json_def)

lemma rest_submit_end_to_end_witness:
  "fst (submitJob rest_json (rest_mqss example_curl rest_json example_rest) example_job
      (rest_sys [example_transfer 201])) = Ret (Some ''42'', setUuid ''42'' example_job) \<and>
   fst (submitJob rest_json (rest_mqss example_curl rest_json example_rest) example_job
      (rest_sys [example_transfer 500])) = Ret (None, example_job)"
  using rest_submit_end_to_end[OF rest_json_facts(1) rest_sys_init rest_json_facts(3)
      example_curl_easy(2) example_transfer_chunks, of example_rest]
  by (simp add: example_transfer_accepted rest_uuid)

lemma rest_submitted:
  "\<exists>w'. submitJob rest_json (rest_mqss example_curl rest_json example_rest) example_job
      (rest_sys [example_transfer 201]) = (Ret (Some ''42'', setUuid ''42'' example_job), w') \<and>
    map rq_url (rs_sent (net w')) = [''http://h/job'']"
  using rest_submit_run[OF rest_json_facts(1) rest_sys_init rest_json_facts(3)
      example_curl_easy(2)[where ts = "[]"] example_transfer_chunks[of 201], of example_rest]
  by (cases "submitJob rest_json (rest_mqss example_curl rest_json example_rest) example_job
      (rest_sys [example_transfer 201])")
    (auto simp: example_transfer_accepted rest_uuid rest_sys_def example_state_def the_request_def
      example_rest_def example_job_def c_str_def)

lemma rest_job_addressed_witness:
  "\<exists>w'. submitJob rest_json (rest_mqss example_curl rest_json example_rest) example_job
      (rest_sys [example_transfer 201]) = (Ret (Some ''42'', setUuid ''42'' example_job), w') \<and>
    map rq_url (rs_sent (net (snd (cancelJob (rest_mqss example_curl rest_json example_rest)
      (setUuid ''42'' example_job) w')))) = [''http://h/job'', ''http://h/job/42'']"
proof -
  obtain w' where w': "submitJob rest_json (rest_mqss example_curl rest_json example_rest) example_job
      (rest_sys [example_transfer 201]) = (Ret (Some ''42'', setUuid ''42'' example_job), w')"
    "map rq_url (rs_sent (net w')) = [''http://h/job'']"
    using rest_submitted by (elim exE conjE)
  have "rs_sent (net (snd (cancelJob (rest_mqss example_curl rest_json example_rest)
      (setUuid ''42'' example_job) w'))) = rs_sent (net w') @ [the_request example_curl example_rest
        ''DELETE'' (getPath example_job @ ''/'' @ ''42'') None (rs_curl (net w'))]"
    by (rule rest_job_addressed[OF rest_json_facts(1) w'(1) example_curl_easy(1),
          THEN conjunct2, THEN conjunct2])
  with w'(2) have "map rq_url (rs_sent (net (snd (cancelJob (rest_mqss example_curl rest_json
      example_rest) (setUuid ''42'' example_job) w')))) = [''http://h/job'', ''http://h/job/42'']"
    by (simp add: the_request_def example_rest_def example_job_def c_str_def)
  with w'(1) show ?thesis by (intro exI conjI)
qed

text \<open>A broker that takes every message and fails in every wait.\<close>

definition failing_amqp :: "unit amqp_api" where
  "failing_amqp = silent_amqp\<lparr>a_basic_publish := \<lambda>c queue body w. (0, w),
     a_consume_message := \<lambda>c w. (Not_normal 1, w)\<rparr>"

definition broker_json :: "jv json_api" where
  "broker_json = ref_json
     [(''P'', hpc_request (ref_json []) example_hpc ''POST'' (getPath example_job)
         (toJson (ref_json []) True example_job)),
      (''S'', hpc_request (ref_json []) example_hpc ''GET'' (status_url example_job) (JStr ''''))]"

lemma broker_json_facts:
  "json_laws broker_json" "j_parse broker_json (a_error_string2 failing_amqp 1) = Inl ''parse_error.101''"
  "j_dump broker_json (hpc_request broker_json example_hpc ''POST'' (getPath example_job)
     (toJson broker_json True example_job)) = Inr ''P''"
  "j_dump broker_json (hpc_request broker_json example_hpc ''GET'' (status_url example_job)
     (j_str broker_json '''')) = Inr ''S''"
proof -
  have e: "hpc_request broker_json example_hpc m p d = hpc_request (ref_json []) example_hpc m p d"
    "toJson broker_json True example_job = toJson (ref_json []) True example_job"
    "j_str broker_json = JStr" for m p d
    by (simp_all add: broker_json_def hpc_request_def example_job_def circuit_toJson_def)
  show "json_laws broker_json" by (simp add: broker_json_def ref_json_laws)
  show "j_parse broker_json (a_error_string2 failing_amqp 1) = Inl ''parse_error.101''"
    by (simp add: broker_json_def failing_amqp_def silent_amqp_def)
  show "j_dump broker_json (hpc_request broker_json example_hpc ''POST'' (getPath example_job)
     (toJson broker_json True example_job)) = Inr ''P''"
    unfolding e by (simp add: broker_json_def) (simp add: ref_json_def)
  show "j_dump broker_json (hpc_request broker_json example_hpc ''GET'' (status_url example_job)
     (j_str broker_json '''')) = Inr ''S''"
    unfolding e by (simp add: broker_json_def) (simp add: ref_json_def hpc_request_def)
qed

definition broker_sys :: "unit mq sys" where
  "broker_sys = \<lparr>net = (MQSSRabbitMQClient 0 None ''guest'' ''guest'' ''localhost'' 5672 ())
     \<lparr>mQueues := [''offload'', ''answers'']\<rparr>, trace = []\<rparr>"

lemma hpc_broker_failure_witness:
  "mq_log (net (snd (submitJob broker_json (hpc_mqss failing_amqp broker_json example_hpc) example_job broker_sys))) =
     [MqPublish ''offload'' ''P'' 0, MqConsume ''answers'', MqReceived (Not_normal 1)] \<and>
   fst (submitJob broker_json (hpc_mqss failing_amqp broker_json example_hpc) example_job broker_sys) =
     Ret (None, example_job) \<and>
   fst (getJobResult broker_json (hpc_mqss failing_amqp broker_json example_hpc) example_job True 9
     broker_sys) = Ret None"
proof -
  have q: "mResponseQueueName example_hpc \<in> set (mQueues (net broker_sys))"
    by (simp add: example_hpc_def broker_sys_def)
  have f: "fst (a_consume_message failing_amqp c v) = Not_normal 1" for c v
    by (simp add: failing_amqp_def)
  have p: "fst (a_basic_publish failing_amqp (mConnection (net broker_sys)) (c_str (mOffloadListenerQueueName example_hpc))
      (c_str ''P'') (mq_world (net broker_sys))) = 0"
    by (simp add: failing_amqp_def)
  show ?thesis
    using hpc_broker_failure[OF broker_json_facts(1) q f broker_json_facts(2-4) _ _ p, of 9]
    by (simp add: example_hpc_def broker_sys_def MQSSRabbitMQClient_def c_str_def)
qed

end
