(* ===== verification/Hpc_Session.thy ===== *)
theory Hpc_Session
  imports Hpc_Client
begin

text \<open>
  Calls in HPC mode one after another. Requests and responses carry no identifier; the client takes
  the next message of its response queue for the answer to the request it sent last. This theory
  states which message a call really gets, when the broker keeps the order of the queue; nothing is
  assumed of the service that answers.
\<close>

section \<open>A queue that keeps order\<close>

text \<open>
  \<open>queued w\<close> are the messages in the response queue that the client was not handed yet. What the broker
  promises: a delivery takes the message at the front, nothing else removes one or changes their
  order, and messages may arrive at the end at any time. When and whether the offload service
  answers, with what, and how often, is open.
\<close>

definition queue_order :: "'w amqp_api \<Rightarrow> ('w \<Rightarrow> string list) \<Rightarrow> bool" where
  "queue_order A queued \<longleftrightarrow>
     (\<forall>c q d w. prefix (queued w) (queued (snd (a_basic_publish A c q d w)))) \<and>
     (\<forall>c q w. prefix (queued w) (queued (a_basic_consume A c q w))) \<and>
     (\<forall>c tag w. prefix (queued w) (queued (a_basic_ack A c tag w))) \<and>
     (\<forall>c w. case a_consume_message A c w of
        (Delivered m tag, w') \<Rightarrow> \<exists>extra. queued w @ extra = m # queued w'
      | (other, w') \<Rightarrow> prefix (queued w) (queued w'))"

lemma queue_order_consume:
  assumes "queue_order A queued" "a_consume_message A c w = (got, w')"
  shows "case got of Delivered m tag \<Rightarrow> \<exists>extra. queued w @ extra = m # queued w' | _ \<Rightarrow> prefix (queued w) (queued w')"
proof -
  from assms(1) have "case a_consume_message A c w of
      (Delivered m tag, w') \<Rightarrow> \<exists>extra. queued w @ extra = m # queued w'
    | (other, w') \<Rightarrow> prefix (queued w) (queued w')"
    by (simp add: queue_order_def)
  with assms(2) show ?thesis by (cases got) simp_all
qed

text \<open>What was added before a delivery comes after what was there.\<close>

lemma prefix_delivered:
  assumes "prefix q q1" "q1 @ extra = m # q2" "prefix q2 q3"
  shows "\<exists>extra. q @ extra = m # q3"
  using assms by (auto simp: prefix_def) (metis append.assoc append_Cons)

section \<open>Sequences of calls\<close>

datatype 'j hpc_call = HGet string | HPost string 'j | HDel string

fun request_of :: "'j json_api \<Rightarrow> hpc_client \<Rightarrow> 'j hpc_call \<Rightarrow> 'j" where
  "request_of J H (HGet path) = hpc_request J H ''GET'' path (j_str J '''')"
| "request_of J H (HPost path data) = hpc_request J H ''POST'' path data"
| "request_of J H (HDel path) = hpc_request J H ''DELETE'' path (j_str J '''')"

text \<open>What a call gives to its caller when \<open>m\<close> is the message that was received; a deletion
  drops it.\<close>

fun seen :: "'j hpc_call \<Rightarrow> string \<Rightarrow> string option" where
  "seen (HDel path) m = None"
| "seen call m = Some m"

fun hpc_perform :: "'w amqp_api \<Rightarrow> 'j json_api \<Rightarrow> hpc_client \<Rightarrow> 'j hpc_call \<Rightarrow> ('w mq, string option) io" where
  "hpc_perform A J H (HGet path) = bind_io (hpc_get A J H path) (\<lambda>r. ret_io (Some r))"
| "hpc_perform A J H (HPost path data) = bind_io (hpc_post A J H path data) (\<lambda>r. ret_io (Some r))"
| "hpc_perform A J H (HDel path) = bind_io (hpc_del A J H path) (\<lambda>u. ret_io None)"

fun hpc_session :: "'w amqp_api \<Rightarrow> 'j json_api \<Rightarrow> hpc_client \<Rightarrow> 'j hpc_call list \<Rightarrow> ('w mq, string option list) io" where
  "hpc_session A J H [] = ret_io []"
| "hpc_session A J H (c # cs) =
     bind_io (hpc_perform A J H c) (\<lambda>r. bind_io (hpc_session A J H cs) (\<lambda>rs. ret_io (r # rs)))"

text \<open>A stretch of the log in which every publication worked and every wait ended with a delivery.\<close>

definition healthy :: "mq_event list \<Rightarrow> bool" where
  "healthy evs \<longleftrightarrow> list_all (\<lambda>e. case e of
     MqPublish q d err \<Rightarrow> err = 0 | MqReceived (Delivered m tag) \<Rightarrow> True | MqReceived other \<Rightarrow> False | _ \<Rightarrow> True) evs"

lemma healthy_append [simp]: "healthy (a @ b) \<longleftrightarrow> healthy a \<and> healthy b" "healthy []"
  by (simp_all add: healthy_def)

text \<open>One exchange that works: the request is published, and one message is taken and acknowledged.\<close>

definition exchange :: "hpc_client \<Rightarrow> string \<Rightarrow> string \<times> nat \<Rightarrow> mq_event list" where
  "exchange H body got =
     [MqPublish (c_str (mOffloadListenerQueueName H)) (c_str body) 0, MqConsume (c_str (mResponseQueueName H)),
      MqReceived (Delivered (fst got) (snd got)), MqAck (snd got)]"

section \<open>One call\<close>

text \<open>All three calls are a publication and a reception.\<close>

lemma hpc_perform_eval:
  assumes "j_dump J (request_of J H c) = Inr body"
  shows "hpc_perform A J H c s =
    (case send A (mOffloadListenerQueueName H) body s of (err, s1) \<Rightarrow>
       if err \<noteq> 0 \<and> (\<exists>p. c = HDel p)
       then (Exc (Runtime_error ''Failed to send HPC cancellation request''), s1)
       else case receive A (mResponseQueueName H) s1 of
         (Ret m, s2) \<Rightarrow> (Ret (seen c m), s2) | (Exc e, s2) \<Rightarrow> (Exc e, s2) | (Hang, s2) \<Rightarrow> (Hang, s2))"
  using assms by (cases c) (simp_all add: hpc_get_eval hpc_post_eval hpc_del_def bind_io_def mq_send_eval
      split: prod.splits outcome.splits)

declare hpc_perform.simps [simp del] hpc_session.simps(2) [simp del]

lemma hpc_perform_log: "\<exists>evs. mq_log (snd (hpc_perform A J H c s)) = mq_log s @ evs"
proof (cases "j_dump J (request_of J H c)")
  case (Inl m)
  then have "snd (hpc_perform A J H c s) = s"
    by (cases c) (simp_all add: hpc_perform.simps hpc_get_eval hpc_post_eval hpc_del_def bind_io_def)
  then show ?thesis by simp
next
  case (Inr body)
  obtain err s1 where p: "send A (mOffloadListenerQueueName H) body s = (err, s1)" by fastforce
  obtain r s2 where r: "receive A (mResponseQueueName H) s1 = (r, s2)" by fastforce
  have "\<exists>evs. mq_log s1 = mq_log s @ evs"
    using send_log(1)[of A "mOffloadListenerQueueName H" body s] p by simp
  moreover have "\<exists>evs. mq_log s2 = mq_log s1 @ evs"
    using receive_log[of A "mResponseQueueName H" s1] declareQueue_log(1)[of A "mResponseQueueName H" s1] r
    by (metis append.assoc snd_conv)
  ultimately show ?thesis
    by (cases r) (auto simp: hpc_perform_eval[OF Inr] p r)
qed

lemma hpc_session_cons:
  "hpc_session A J H (c # cs) s =
     (case hpc_perform A J H c s of
        (Ret r, s1) \<Rightarrow>
          (case hpc_session A J H cs s1 of
             (Ret rs, s2) \<Rightarrow> (Ret (r # rs), s2) | (Exc e, s2) \<Rightarrow> (Exc e, s2) | (Hang, s2) \<Rightarrow> (Hang, s2))
      | (Exc e, s1) \<Rightarrow> (Exc e, s1)
      | (Hang, s1) \<Rightarrow> (Hang, s1))"
  by (simp add: hpc_session.simps(2) bind_io_def split: prod.splits outcome.splits)

lemma hpc_session_log: "\<exists>evs. mq_log (snd (hpc_session A J H cs s)) = mq_log s @ evs"
proof (induction cs arbitrary: s)
  case (Cons c cs)
  obtain r s1 where p: "hpc_perform A J H c s = (r, s1)" by fastforce
  obtain e1 where e1: "mq_log s1 = mq_log s @ e1" using hpc_perform_log[of A J H c s] p by auto
  obtain r2 s2 where q: "hpc_session A J H cs s1 = (r2, s2)" by fastforce
  obtain e2 where "mq_log s2 = mq_log s1 @ e2" using Cons.IH[of s1] q by auto
  with p q e1 show ?case
    by (cases r; cases r2) (simp_all add: hpc_session_cons)
qed simp

text \<open>A call that published its request and was handed a message got the front of the queue, where all that
  arrived meanwhile is behind.\<close>

lemma receive_queued:
  assumes "queue_order A queued" "rq \<in> set (mQueues s)"
  shows "case receive A rq s of (r, t) \<Rightarrow> mQueues t = mQueues s \<and>
    (\<exists>got. mq_log t = mq_log s @ reception_log rq got \<and>
      (case got of
         Delivered m tag \<Rightarrow> r = Ret m \<and> (\<exists>extra. queued (mq_world s) @ extra = m # queued (mq_world t))
       | Not_normal e \<Rightarrow> r = Ret (a_error_string2 A e) \<and> prefix (queued (mq_world s)) (queued (mq_world t))
       | Blocked \<Rightarrow> r = Hang \<and> prefix (queued (mq_world s)) (queued (mq_world t))))"
proof -
  let ?w2 = "a_basic_consume A (mConnection s) (c_str rq) (mq_world s)"
  obtain got w3 where g: "a_consume_message A (mConnection s) ?w2 = (got, w3)" by fastforce
  from assms(1) have sub: "prefix (queued (mq_world s)) (queued ?w2)"
    and ack: "prefix (queued w3) (queued (a_basic_ack A (mConnection s) tag w3))" for tag
    by (simp_all add: queue_order_def)
  note next_one = queue_order_consume[OF assms(1) g]
  have "\<exists>extra. queued (mq_world s) @ extra = m # queued (a_basic_ack A (mConnection s) tag w3)"
    if "got = Delivered m tag" for m tag
    using next_one that prefix_delivered[OF sub _ ack] by auto
  moreover have "prefix (queued (mq_world s)) (queued w3)" if "prefix (queued ?w2) (queued w3)"
    using sub that by (rule prefix_order.trans)
  ultimately show ?thesis
    using assms(2) g next_one
    by (cases got) (simp_all add: receive_def declareQueue_def subscribe_def acknowledge_def log_mq_def
        Let_def reception_log_def)
qed

lemma send_queued:
  assumes "queue_order A queued"
  shows "case send A q d s of (err, t) \<Rightarrow> mQueues t = mQueues s \<and>
    mq_log t = mq_log s @ [MqPublish (c_str q) (c_str d) err] \<and>
    prefix (queued (mq_world s)) (queued (mq_world t))"
proof -
  obtain err w where p: "a_basic_publish A (mConnection s) (c_str q) (c_str d) (mq_world s) = (err, w)"
    by fastforce
  from assms have "prefix (queued (mq_world s))
      (queued (snd (a_basic_publish A (mConnection s) (c_str q) (c_str d) (mq_world s))))"
    by (simp add: queue_order_def)
  with p show ?thesis by (simp add: send_def log_mq_def)
qed

lemma hpc_perform_queued:
  assumes f: "queue_order A queued"
    and rq: "mResponseQueueName H \<in> set (mQueues s)"
    and d: "j_dump J (request_of J H c) = Inr body"
    and run: "hpc_perform A J H c s = (r, t)" "mq_log t = mq_log s @ evs"
  shows "healthy evs \<Longrightarrow> \<exists>got extra. r = Ret (seen c (fst got)) \<and> mQueues t = mQueues s \<and>
      evs = exchange H body got \<and> queued (mq_world s) @ extra = fst got # queued (mq_world t)"
    and "evs = [MqPublish pq pd 0, MqConsume cq, MqReceived (Not_normal e)] \<Longrightarrow>
      r = Ret (seen c (a_error_string2 A e)) \<and> mQueues t = mQueues s \<and>
      prefix (queued (mq_world s)) (queued (mq_world t))"
proof -
  obtain err s1 where p: "send A (mOffloadListenerQueueName H) body s = (err, s1)" by fastforce
  obtain x s2 where x: "receive A (mResponseQueueName H) s1 = (x, s2)" by fastforce
  from send_queued[OF f, where q = "mOffloadListenerQueueName H" and d = body and s = s] p
  have s1: "mQueues s1 = mQueues s" "prefix (queued (mq_world s)) (queued (mq_world s1))"
    "mq_log s1 = mq_log s @ [MqPublish (c_str (mOffloadListenerQueueName H)) (c_str body) err]"
    by auto
  with receive_queued[OF f, where rq = "mResponseQueueName H" and s = s1] x rq obtain got where s2: "mQueues s2 = mQueues s"
    "mq_log s2 = mq_log s1 @ reception_log (mResponseQueueName H) got"
    "case got of
       Delivered m tag \<Rightarrow> x = Ret m \<and> (\<exists>extra. queued (mq_world s1) @ extra = m # queued (mq_world s2))
     | Not_normal e \<Rightarrow> x = Ret (a_error_string2 A e) \<and> prefix (queued (mq_world s1)) (queued (mq_world s2))
     | Blocked \<Rightarrow> x = Hang \<and> prefix (queued (mq_world s1)) (queued (mq_world s2))" by auto
  note ev = hpc_perform_eval[OF d, of A s, unfolded p prod.case x run(1)]
  have front: "\<exists>extra. queued (mq_world s) @ extra = m # queued (mq_world s2)"
    if "queued (mq_world s1) @ extra = m # queued (mq_world s2)" for m extra
    by (rule prefix_delivered[OF s1(2) that]) simp
  show "\<exists>got extra. r = Ret (seen c (fst got)) \<and> mQueues t = mQueues s \<and>
      evs = exchange H body got \<and> queued (mq_world s) @ extra = fst got # queued (mq_world t)" if h: "healthy evs"
  proof -
    have evs: "err = 0" "\<exists>m tag. got = Delivered m tag"
      using ev run(2) s1 s2 h by (cases got; auto simp: healthy_def reception_log_def split: if_splits)+
    then obtain m tag where g: "got = Delivered m tag" by blast
    with s2(3) front obtain extra where "x = Ret m" "queued (mq_world s) @ extra = m # queued (mq_world s2)" by auto
    with evs(1) g ev run(2) s1 s2(1,2) show ?thesis
      by (intro exI[of _ "(m, tag)"] exI[of _ extra]) (auto simp: exchange_def reception_log_def)
  qed
  show "evs = [MqPublish pq pd 0, MqConsume cq, MqReceived (Not_normal e)] \<Longrightarrow>
      r = Ret (seen c (a_error_string2 A e)) \<and> mQueues t = mQueues s \<and>
      prefix (queued (mq_world s)) (queued (mq_world t))"
    using ev run(2) s1 s2 by (cases got) (auto simp: reception_log_def intro: prefix_order.trans split: if_splits)
qed

section \<open>Sessions\<close>

lemma hpc_session_queued:
  assumes f: "queue_order A queued"
    and "list_all2 (\<lambda>c body. j_dump J (request_of J H c) = Inr body) cs bodies"
    and "mResponseQueueName H \<in> set (mQueues s)"
    and "hpc_session A J H cs s = (r, t)" "mq_log t = mq_log s @ evs" "healthy evs"
  shows "\<exists>got arrived. length got = length cs \<and> r = Ret (map2 seen cs (map fst got)) \<and>
    evs = concat (map2 (exchange H) bodies got) \<and>
    queued (mq_world s) @ arrived = map fst got @ queued (mq_world t)"
  using assms(2-)
proof (induction arbitrary: s r evs rule: list_all2_induct)
  case Nil
  then show ?case by simp
next
  case (Cons c cs body bodies)
  obtain r1 s1 where p: "hpc_perform A J H c s = (r1, s1)" by fastforce
  obtain e1 where e1: "mq_log s1 = mq_log s @ e1" using hpc_perform_log[of A J H c s] p by auto
  obtain r2 s2 where q: "hpc_session A J H cs s1 = (r2, s2)" by fastforce
  obtain e2 where e2: "mq_log s2 = mq_log s1 @ e2" using hpc_session_log[of A J H cs s1] q by auto
  have "healthy e1"
    using Cons.prems(2-4) p q e1 e2 by (cases r1; cases r2) (auto simp: hpc_session_cons)
  from hpc_perform_queued(1)[OF f Cons.prems(1) Cons.hyps(1) p e1 this] obtain g extra where g:
    "r1 = Ret (seen c (fst g))" "mQueues s1 = mQueues s" "e1 = exchange H body g"
    "queued (mq_world s) @ extra = fst g # queued (mq_world s1)" by blast
  have t: "s2 = t" "r = (case r2 of Ret rs \<Rightarrow> Ret (seen c (fst g) # rs) | Exc e \<Rightarrow> Exc e | Hang \<Rightarrow> Hang)"
    using Cons.prems(2) p q g(1) by (cases r2; auto simp: hpc_session_cons)+
  with Cons.prems(3) e1 e2 have evs: "evs = e1 @ e2" by simp
  with Cons.prems(4) have "healthy e2" by simp
  from Cons.IH[OF _ q[unfolded t(1)] _ this] Cons.prems(1) g(2) e2 t(1) obtain got arrived where ih:
    "length got = length cs" "r2 = Ret (map2 seen cs (map fst got))" "e2 = concat (map2 (exchange H) bodies got)"
    "queued (mq_world s1) @ arrived = map fst got @ queued (mq_world t)" by auto
  have "queued (mq_world s) @ extra @ arrived = map fst (g # got) @ queued (mq_world t)"
    using g(4) ih(4) by (metis append.assoc append_Cons list.simps(9))
  with ih t(2) g(3) evs show ?case by (intro exI[of _ "g # got"] exI[of _ "extra @ arrived"]) simp
qed

section \<open>Properties\<close>

text \<open>C11. A sequence of calls in HPC mode, none of whose publications and waits fails, over a queue that
  keeps order (whatever the service behind it does): every call returns, each call publishes exactly its own
  request and takes exactly one message, one exchange after the other, and the messages
  are, in order, those that were left in the response queue at the start and then those that arrived since:
  the i-th call gets the i-th of them for its response, and the rest stays in the queue.
  So a service that answers in the order of the requests answers each call if the queue was empty at the
  start, and if \<open>n\<close> messages were left every later call gets the message \<open>n\<close> places too early.
\<close>

theorem hpc_session_in_order:
  assumes "queue_order A queued"
    and "list_all2 (\<lambda>c body. j_dump J (request_of J H c) = Inr body) cs bodies"
    and "mResponseQueueName H \<in> set (mQueues s)"
    and "hpc_session A J H cs s = (r, t)" "mq_log t = mq_log s @ evs" "healthy evs"
  shows "\<exists>got arrived. length got = length cs \<and> r = Ret (map2 seen cs (map fst got)) \<and>
    evs = concat (map2 (exchange H) bodies got) \<and>
    map fst got = take (length cs) (queued (mq_world s) @ arrived) \<and>
    queued (mq_world t) = drop (length cs) (queued (mq_world s) @ arrived) \<and>
    (\<forall>i < length cs. fst (got ! i) =
       (if i < length (queued (mq_world s)) then queued (mq_world s) ! i
        else arrived ! (i - length (queued (mq_world s)))))"
proof -
  from hpc_session_queued[OF assms] obtain got arrived where g: "length got = length cs"
    "r = Ret (map2 seen cs (map fst got))" "evs = concat (map2 (exchange H) bodies got)"
    and q: "queued (mq_world s) @ arrived = map fst got @ queued (mq_world t)" by blast
  have "fst (got ! i) = (queued (mq_world s) @ arrived) ! i" if "i < length cs" for i
    unfolding q using that g(1) by (simp add: nth_append)
  moreover have "map fst got = take (length cs) (queued (mq_world s) @ arrived)"
    "queued (mq_world t) = drop (length cs) (queued (mq_world s) @ arrived)"
    unfolding q using g(1) by simp_all
  ultimately show ?thesis using g by (intro exI[of _ got] exI[of _ arrived]) (simp add: nth_append)
qed

text \<open>One failed wait is enough to put the client out of step for good. The call whose wait failed
  returns the library's error text as its response; if its answer has arrived by the time of the next calls,
  they get it, and what is behind it in the queue, although nothing fails any more.
\<close>

theorem hpc_lost_wait_shifts:
  assumes "queue_order A queued"
    and "mResponseQueueName H \<in> set (mQueues s)"
    and "j_dump J (request_of J H c) = Inr body" "hpc_perform A J H c s = (r1, s1)"
    and "mq_log s1 = mq_log s @ [MqPublish q d 0, MqConsume q', MqReceived (Not_normal e)]"
    and "queued (mq_world s1) = late # rest"
    and "list_all2 (\<lambda>c body. j_dump J (request_of J H c) = Inr body) cs bodies"
    and "hpc_session A J H cs s1 = (r, t)" "mq_log t = mq_log s1 @ evs" "healthy evs" "cs \<noteq> []"
  shows "r1 = Ret (seen c (a_error_string2 A e)) \<and>
    (\<exists>arrived. r = Ret (map2 seen cs (late # take (length cs - 1) (rest @ arrived))))"
proof -
  from hpc_perform_queued(2)[OF assms(1-5) refl] assms(2) have s1:
    "r1 = Ret (seen c (a_error_string2 A e))" "mResponseQueueName H \<in> set (mQueues s1)" by simp_all
  from hpc_session_queued[OF assms(1,7) s1(2) assms(8-10)] obtain got :: "(string \<times> nat) list" and arrived where
    g: "length got = length cs" "r = Ret (map2 seen cs (map fst got))"
    "queued (mq_world s1) @ arrived = map fst got @ queued (mq_world t)" by blast
  have "map fst got = take (length cs) (late # rest @ arrived)"
    using g(1) arg_cong[OF g(3), of "take (length cs)"] by (simp add: assms(6))
  also have "\<dots> = late # take (length cs - 1) (rest @ arrived)"
    using assms(11) by (cases cs) simp_all
  finally show ?thesis using s1(1) g(2) by auto
qed

section \<open>Examples\<close>

text \<open>A broker whose offload service echoes each request; the first component says which of the
  next waits fail.\<close>

definition echo_amqp :: "(bool list \<times> string list) amqp_api" where
  "echo_amqp = \<lparr>
     a_new_connection = (\<lambda>w. (1, w)),
     a_tcp_socket_new = (\<lambda>c w. (Some 2, w)),
     a_socket_open = (\<lambda>sock host port w. (0, w)),
     a_login_normal = (\<lambda>c user password w. (True, w)),
     a_channel_open = (\<lambda>c w. w),
     a_rpc_reply_normal = (\<lambda>c w. (True, w)),
     a_channel_close = (\<lambda>c w. w),
     a_connection_close = (\<lambda>c w. w),
     a_destroy_connection = (\<lambda>c w. w),
     a_basic_publish = (\<lambda>c queue body w. (0, (fst w, snd w @ [''re '' @ body]))),
     a_basic_consume = (\<lambda>c queue w. w),
     a_consume_message = (\<lambda>c w. case w of
        (True # fs, ms) \<Rightarrow> (Not_normal 7, (fs, ms))
      | (fs, m # ms) \<Rightarrow> (Delivered m 1, (fs, ms))
      | (fs, []) \<Rightarrow> (Blocked, (fs, []))),
     a_basic_ack = (\<lambda>c tag w. w),
     a_queue_declare = (\<lambda>c queue w. w),
     a_error_string2 = (\<lambda>e. ''a socket error occurred'')\<rparr>"

lemma echo_order: "queue_order echo_amqp snd"
  by (auto simp: queue_order_def echo_amqp_def split: list.splits bool.splits)

definition echo_state :: "bool list \<Rightarrow> (bool list \<times> string list) mq" where
  "echo_state fails =
     (MQSSRabbitMQClient 0 None ''guest'' ''guest'' ''localhost'' 5672 (fails, []))\<lparr>mQueues := [''offload'', ''answers'']\<rparr>"

lemma echo_amqp_simps:
  "a_basic_publish echo_amqp c queue body w = (0, (fst w, snd w @ [''re '' @ body]))"
  "a_basic_consume echo_amqp c queue w = w"
  "a_consume_message echo_amqp c (True # fs, ms) = (Not_normal 7, (fs, ms))"
  "a_consume_message echo_amqp c ([], m # ms) = (Delivered m 1, ([], ms))"
  "a_basic_ack echo_amqp c tag w = w"
  "a_error_string2 echo_amqp e = ''a socket error occurred''"
  by (simp_all add: echo_amqp_def)

lemma echo_state_facts:
  "mResponseQueueName example_hpc \<in> set (mQueues (echo_state fails))"
  "snd (mq_world (echo_state fails)) = []" "mq_log (echo_state fails) = []"
  by (simp_all add: echo_state_def example_hpc_def MQSSRabbitMQClient_def)

lemma echo_dump:
  "j_dump hpc_json (request_of hpc_json example_hpc (HGet ''resources'')) = Inr ''G''"
  "j_dump hpc_json (request_of hpc_json example_hpc (HDel ''resources'')) = Inr ''D''"
  by (simp_all add: hpc_json_dump)

lemma echo_dumps:
  "list_all2 (\<lambda>c body. j_dump hpc_json (request_of hpc_json example_hpc c) = Inr body)
     [HGet ''resources'', HDel ''resources''] [''G'', ''D'']"
  using echo_dump by (simp del: request_of.simps)

lemma echo_call:
  assumes "mResponseQueueName example_hpc \<in> set (mQueues s)"
    and "j_dump J (request_of J example_hpc c) = Inr body"
    and "list_all (\<lambda>ch. code_of ch \<noteq> 0) body"
  shows "mq_world s = (True # fs, ms) \<Longrightarrow>
      hpc_perform echo_amqp J example_hpc c s = (Ret (seen c ''a socket error occurred''),
        s\<lparr>mq_world := (fs, ms @ [''re '' @ body]), mq_log := mq_log s @ [MqPublish ''offload'' body 0,
          MqConsume ''answers'', MqReceived (Not_normal 7)]\<rparr>)"
    and "mq_world s = ([], ms) \<Longrightarrow>
      hpc_perform echo_amqp J example_hpc c s = (Ret (seen c (hd (ms @ [''re '' @ body]))),
        s\<lparr>mq_world := ([], tl (ms @ [''re '' @ body])), mq_log := mq_log s @ [MqPublish ''offload'' body 0,
          MqConsume ''answers'', MqReceived (Delivered (hd (ms @ [''re '' @ body])) 1), MqAck 1]\<rparr>)"
proof -
  have b: "c_str body = body" using assms(3) by (intro c_str_id) (simp add: list_all_iff)
  have q: "c_str ''offload'' = ''offload''" "c_str ''answers'' = ''answers''" by (simp_all add: c_str_def)
  have "mResponseQueueName example_hpc = ''answers''" "mOffloadListenerQueueName example_hpc = ''offload''"
    by (simp_all add: example_hpc_def)
  note ev = this send_def receive_def declareQueue_def subscribe_def acknowledge_def log_mq_def Let_def
    echo_amqp_simps b q
  show "hpc_perform echo_amqp J example_hpc c s = (Ret (seen c ''a socket error occurred''),
        s\<lparr>mq_world := (fs, ms @ [''re '' @ body]), mq_log := mq_log s @ [MqPublish ''offload'' body 0,
          MqConsume ''answers'', MqReceived (Not_normal 7)]\<rparr>)" if "mq_world s = (True # fs, ms)"
    using assms(1) that by (simp add: hpc_perform_eval[OF assms(2)] ev)
  show "hpc_perform echo_amqp J example_hpc c s = (Ret (seen c (hd (ms @ [''re '' @ body]))),
        s\<lparr>mq_world := ([], tl (ms @ [''re '' @ body])), mq_log := mq_log s @ [MqPublish ''offload'' body 0,
          MqConsume ''answers'', MqReceived (Delivered (hd (ms @ [''re '' @ body])) 1), MqAck 1]\<rparr>)"
    if "mq_world s = ([], ms)"
    using assms(1) that by (cases ms) (simp_all add: hpc_perform_eval[OF assms(2)] ev)
qed

theorem hpc_session_in_order_witness:
  "\<exists>arrived. fst (hpc_session echo_amqp hpc_json example_hpc [HGet ''resources'', HDel ''resources''] (echo_state [])) =
     Ret (map2 seen [HGet ''resources'', HDel ''resources'' :: jv hpc_call] (take 2 arrived))"
proof -
  let ?s = "echo_state []" and ?cs = "[HGet ''resources'', HDel ''resources''] :: jv hpc_call list"
  have w: "mq_world ?s = ([], [])" by (simp add: echo_state_def MQSSRabbitMQClient_def)
  have g: "list_all (\<lambda>ch. code_of ch \<noteq> 0) ''G''" "list_all (\<lambda>ch. code_of ch \<noteq> 0) ''D''" by simp_all
  note g1 = echo_call(2)[OF echo_state_facts(1) echo_dump(1) g(1) w]
  let ?s1 = "snd (hpc_perform echo_amqp hpc_json example_hpc (HGet ''resources'') ?s)"
  have s1: "mQueues ?s1 = mQueues ?s" "mq_world ?s1 = ([], [])" by (simp_all add: g1)
  note g2 = echo_call(2)[of ?s1, OF _ echo_dump(2) g(2) s1(2)]
  obtain r t evs where run: "hpc_session echo_amqp hpc_json example_hpc ?cs ?s = (r, t)"
    "mq_log t = mq_log ?s @ evs" "healthy evs"
    using g1 g2 s1(1) echo_state_facts(1) by (auto simp: hpc_session_cons healthy_def)
  from hpc_session_in_order[OF echo_order echo_dumps echo_state_facts(1) run] obtain got :: "(string \<times> nat) list" and arrived where
    "r = Ret (map2 seen ?cs (map fst got))" "map fst got = take (length ?cs) (snd (mq_world ?s) @ arrived)"
    by blast
  moreover from this(2) have "map fst got = take 2 arrived" by (simp add: echo_state_facts(2) numeral_2_eq_2)
  ultimately have "r = Ret (map2 seen ?cs (take 2 arrived))" by metis
  with run(1) show ?thesis by (metis fst_conv)
qed

theorem hpc_lost_wait_shifts_witness:
  "\<exists>s1. hpc_perform echo_amqp hpc_json example_hpc (HGet ''resources'') (echo_state [True]) =
      (Ret (Some ''a socket error occurred''), s1) \<and>
    fst (hpc_session echo_amqp hpc_json example_hpc [HGet ''resources''] s1) = Ret [Some ''re G'']"
proof -
  let ?s = "echo_state [True]" and ?cs = "[HGet ''resources'']"
  have w: "mq_world ?s = ([True], [])" by (simp add: echo_state_def MQSSRabbitMQClient_def)
  have g: "list_all (\<lambda>ch. code_of ch \<noteq> 0) ''G''" by simp
  note g0 = echo_call(1)[OF echo_state_facts(1) echo_dump(1) g(1) w]
  let ?s1 = "snd (hpc_perform echo_amqp hpc_json example_hpc (HGet ''resources'') ?s)"
  have s1: "mQueues ?s1 = mQueues ?s" "mq_world ?s1 = ([], [''re G''])" by (simp_all add: g0)
  then have q1: "mResponseQueueName example_hpc \<in> set (mQueues ?s1)" "snd (mq_world ?s1) = ''re G'' # []"
    using echo_state_facts(1) by simp_all
  note g1 = echo_call(2)[OF q1(1) echo_dump(1) g(1) s1(2)]
  have e: "hpc_perform echo_amqp hpc_json example_hpc (HGet ''resources'') ?s =
      (fst (hpc_perform echo_amqp hpc_json example_hpc (HGet ''resources'') ?s), ?s1)" by simp
  have l: "mq_log ?s1 = mq_log ?s @ [MqPublish ''offload'' ''G'' 0, MqConsume ''answers'', MqReceived (Not_normal 7)]"
    by (simp add: g0)
  obtain r t evs where run: "hpc_session echo_amqp hpc_json example_hpc ?cs ?s1 = (r, t)"
    "mq_log t = mq_log ?s1 @ evs" "healthy evs"
    using g1 by (auto simp: hpc_session_cons healthy_def)
  have dumps: "list_all2 (\<lambda>c body. j_dump hpc_json (request_of hpc_json example_hpc c) = Inr body) ?cs [''G'']"
    using echo_dump(1) by (simp del: request_of.simps)
  from hpc_lost_wait_shifts[OF echo_order echo_state_facts(1) echo_dump(1) e l q1(2) dumps run] run(1) e
  show ?thesis by (auto simp: echo_amqp_simps)
qed

end
