(* ===== verification/Client_Program.thy ===== *)
theory Client_Program
  imports End_To_End Hpc_Session
begin

text \<open>
  Programs over one \<open>MQSSClient\<close>: any sequence of its public operations on any number of jobs. The
  trace of a program is the history of its transport calls; over REST it is what goes over the
  wire, and in HPC mode what is exchanged with the broker.
\<close>

section \<open>Programs\<close>

text \<open>The operations, with jobs by their position in the program's list of jobs.\<close>

datatype client_op =
    AllResources
  | ResourceInfo string
  | PendingJobs string
  | Submit nat
  | Cancel nat
  | Status nat
  | JobOutcome nat bool u64

type_synonym 's program_state = "job list \<times> 's sys"

definition keep_jobs :: "job list \<Rightarrow> 'a outcome \<times> 's sys \<Rightarrow> unit outcome \<times> 's program_state" where
  "keep_jobs js x =
     (case x of (Ret a, w) \<Rightarrow> (Ret (), (js, w)) | (Exc e, w) \<Rightarrow> (Exc e, (js, w)) | (Hang, w) \<Rightarrow> (Hang, (js, w)))"

lemma keep_jobs_snd: "keep_jobs js x = (r, z) \<Longrightarrow> z = (js, snd x)"
  by (auto simp: keep_jobs_def split: prod.splits outcome.splits)

fun client_exec ::
  "'j json_api \<Rightarrow> ('s, 'j) mqss_client \<Rightarrow> client_op \<Rightarrow> 's program_state \<Rightarrow> unit outcome \<times> 's program_state" where
  "client_exec J C AllResources (js, w) = keep_jobs js (getAllResources J C w)"
| "client_exec J C (ResourceInfo name) (js, w) = keep_jobs js (getResourceInfo J C name w)"
| "client_exec J C (PendingJobs name) (js, w) = keep_jobs js (getNumberPendingJobs J C name w)"
| "client_exec J C (Submit i) (js, w) =
     (case submitJob J C (js ! i) w of
        (Ret (u, job), w') \<Rightarrow> (Ret (), (js[i := job], w'))
      | (Exc e, w') \<Rightarrow> (Exc e, (js, w'))
      | (Hang, w') \<Rightarrow> (Hang, (js, w')))"
| "client_exec J C (Cancel i) (js, w) = keep_jobs js (cancelJob C (js ! i) w)"
| "client_exec J C (Status i) (js, w) = keep_jobs js (getJobStatus J C (js ! i) w)"
| "client_exec J C (JobOutcome i wait timeout) (js, w) = keep_jobs js (getJobResult J C (js ! i) wait timeout w)"

fun op_job :: "client_op \<Rightarrow> nat option" where
  "op_job (Submit i) = Some i"
| "op_job (Cancel i) = Some i"
| "op_job (Status i) = Some i"
| "op_job (JobOutcome i wait timeout) = Some i"
| "op_job _ = None"

text \<open>A program goes on after a call that returns and after one that throws.\<close>

inductive client_step ::
  "'j json_api \<Rightarrow> ('s, 'j) mqss_client \<Rightarrow> 's program_state \<Rightarrow> 's program_state \<Rightarrow> bool" for J C where
  client_call: "pred_option (\<lambda>i. i < length (fst x)) (op_job op) \<Longrightarrow> client_exec J C op x = (r, y) \<Longrightarrow>
     r \<noteq> Hang \<Longrightarrow> client_step J C x y"

inductive_cases client_stepE: "client_step J C x y"

abbreviation program ::
  "'j json_api \<Rightarrow> ('s, 'j) mqss_client \<Rightarrow> 's program_state \<Rightarrow> 's program_state \<Rightarrow> bool" where
  "program J C \<equiv> (client_step J C)\<^sup>*\<^sup>*"

section \<open>The trace is the history of the transport\<close>

text \<open>The events of a trace, replayed on the transport, lead from one state to the other.\<close>

inductive replays :: "('s, 'j) base_client \<Rightarrow> event list \<Rightarrow> 's \<Rightarrow> 's \<Rightarrow> bool" for T where
  rp_nil: "replays T [] n n"
| rp_get: "bc_get T path n = (r, m) \<Longrightarrow> replays T es m n' \<Longrightarrow> replays T (EvGet path r # es) n n'"
| rp_post: "bc_post T path d n = (r, m) \<Longrightarrow> replays T es m n' \<Longrightarrow> replays T (EvPost path r # es) n n'"
| rp_del: "bc_del T path n = (r, m) \<Longrightarrow> replays T es m n' \<Longrightarrow> replays T (EvDel path r # es) n n'"
| rp_sleep: "replays T es n n' \<Longrightarrow> replays T (EvSleep k # es) n n'"

lemma replays_append: "replays T es n m \<Longrightarrow> replays T fs m n' \<Longrightarrow> replays T (es @ fs) n n'"
  by (induction rule: replays.induct) (auto intro: replays.intros)

definition follows :: "('s, 'j) mqss_client \<Rightarrow> 's sys \<Rightarrow> 's sys \<Rightarrow> bool" where
  "follows C w w' \<longleftrightarrow> (\<exists>evs. trace w' = trace w @ evs \<and> replays (mClient C) evs (net w) (net w'))"

lemma follows_refl: "follows C w w"
  by (auto simp: follows_def intro: rp_nil)

lemma follows_trans: "follows C u v \<Longrightarrow> follows C v w \<Longrightarrow> follows C u w"
  by (fastforce simp: follows_def intro: replays_append)

lemma follows_call:
  "follows C w (snd (call_get C path w))"
  "follows C w (snd (call_post C path d w))"
  "follows C w (snd (call_del C path w))"
  "follows C w (sleep_for k w)"
  by (auto simp: follows_def call_get_def call_post_def call_del_def sleep_for_def
      intro: replays.intros split: prod.splits)

lemma follows_sleep: "follows C w v \<Longrightarrow> follows C w (sleep_for k v)"
  by (rule follows_trans[OF _ follows_call(4)])

lemma follows_bind: "follows C w (snd (m w)) \<Longrightarrow> (\<And>a. pure_io (f a)) \<Longrightarrow> follows C w (snd (bind_io m f w))"
  by (simp add: snd_bind_pure)

text \<open>Every operation follows its transport.\<close>

lemma follows_queries:
  "follows C w (snd (getAllResources J C w))"
  "follows C w (snd (getResourceInfo J C name w))"
  "follows C w (snd (getNumberPendingJobs J C name w))"
  "follows C w (snd (getJobStatus J C job w))"
  "follows C w (snd (getJobResult_now J C job w))"
  "follows C w (snd (cancelJob C job w))"
  "follows C w (snd (submitJob J C job w))"
  unfolding getAllResources_def getResourceInfo_def getNumberPendingJobs_def getJobStatus_def
    getJobResult_now_def cancelJob_def submitJob_def
  by (auto intro!: follows_bind follows_call pure_intros)

lemma follows_polled:
  "polled J C job p (Polling t w) y \<Longrightarrow> (case y of Polling t' w' \<Rightarrow> follows C w w' | Done r w' \<Rightarrow> follows C w w')"
proof (induction rule: rtranclp_induct)
  case base
  then show ?case by (simp add: follows_refl)
next
  case (step y z)
  have status: "follows C w v'" if "getJobStatus J C job v = (r, v')" "follows C w v" for v r v'
    using follows_trans[OF that(2)] follows_queries(4)[of C v J job] that(1) by simp
  have outcome: "follows C w v'" if "getJobResult_now J C job v = (r, v')" "follows C w v" for v r v'
    using follows_trans[OF that(2)] follows_queries(5)[of C v J job] that(1) by simp
  from step show ?case
    by (cases y) (auto elim!: poll_stepE intro: status outcome[OF _ status] intro!: follows_sleep)
qed

lemma follows_getJobResult: "follows C w (snd (getJobResult J C job wait timeout w))"
proof (cases wait)
  case True
  then show ?thesis
    using follows_polled[OF getJobResult_polled[OF prod.collapse[symmetric], of J C job timeout w]] by simp
next
  case False
  then show ?thesis by (simp add: getJobResult_def follows_queries)
qed

lemma follows_program:
  assumes "program J C x y"
  shows "follows C (snd x) (snd y)"
  using assms
proof (induction rule: rtranclp_induct)
  case base
  then show ?case by (rule follows_refl)
next
  case (step y z)
  obtain js w where y: "y = (js, w)" by fastforce
  from step.hyps(2) obtain op r where e: "client_exec J C op (js, w) = (r, z)" by (auto simp: y elim: client_stepE)
  have "follows C w (snd z)"
  proof (cases op)
    case (Submit i)
    with e follows_queries(7)[of C w J "js ! i"] show ?thesis
      by (auto split: prod.splits outcome.splits)
  qed (use e in \<open>auto simp: follows_queries follows_getJobResult dest!: keep_jobs_snd\<close>)
  with step.IH y show ?case by (auto intro: follows_trans)
qed

text \<open>What every call of a transport does to its state holds for every program: a relation that composes, under an
  invariant of the state.\<close>

locale transport_relation =
  fixes T :: "('s, 'j) base_client"
    and inv :: "'s \<Rightarrow> bool"
    and rel :: "'s \<Rightarrow> 's \<Rightarrow> bool"
  assumes rel_refl: "rel s s"
    and rel_trans: "rel s t \<Longrightarrow> rel t u \<Longrightarrow> rel s u"
    and inv_rel: "inv s \<Longrightarrow> rel s t \<Longrightarrow> inv t"
    and rel_get: "inv s \<Longrightarrow> rel s (snd (bc_get T path s))"
    and rel_post: "inv s \<Longrightarrow> rel s (snd (bc_post T path d s))"
    and rel_del: "inv s \<Longrightarrow> rel s (snd (bc_del T path s))"
begin

lemma rel_replays: "replays T evs s s' \<Longrightarrow> inv s \<Longrightarrow> rel s s'"
proof (induction rule: replays.induct)
  case (rp_get path n r m es n')
  with rel_get[OF rp_get.prems, of path] have l: "rel n m" by simp
  with rp_get inv_rel show ?case by (blast intro: rel_trans)
next
  case (rp_post path d n r m es n')
  with rel_post[OF rp_post.prems, of path d] have l: "rel n m" by simp
  with rp_post inv_rel show ?case by (blast intro: rel_trans)
next
  case (rp_del path n r m es n')
  with rel_del[OF rp_del.prems, of path] have l: "rel n m" by simp
  with rp_del inv_rel show ?case by (blast intro: rel_trans)
qed (simp_all add: rel_refl)

lemma rel_program:
  assumes "program J C x y" "mClient C = T" "inv (net (snd x))"
  shows "rel (net (snd x)) (net (snd y))"
  using follows_program[OF assms(1)] rel_replays assms(2,3) by (auto simp: follows_def)

end

section \<open>The jobs of a program\<close>

text \<open>What may have become of a job while the events \<open>evs\<close> happened: its uuid may have changed, to the
  one in a response to a submission on the job's path.\<close>

definition job_follows :: "'j json_api \<Rightarrow> event list \<Rightarrow> job \<Rightarrow> job \<Rightarrow> bool" where
  "job_follows J evs job job' \<longleftrightarrow> job' = job \<or>
     (\<exists>u resp. job' = setUuid u job \<and> EvPost (getPath job) (Ret resp) \<in> set evs \<and>
        response_uuid J resp = Inr (Some u))"

lemma setUuid_twice: "setUuid u (setUuid v job) = setUuid u job"
  by (cases job) simp_all

lemma job_follows_mono: "job_follows J evs a b \<Longrightarrow> set evs \<subseteq> set fs \<Longrightarrow> job_follows J fs a b"
  unfolding job_follows_def by blast

lemma job_follows_trans:
  "job_follows J evs a b \<Longrightarrow> job_follows J fs b c \<Longrightarrow> job_follows J (evs @ fs) a c"
  unfolding job_follows_def by (elim disjE exE conjE; simp add: setUuid_twice; blast)

lemma submit_follows:
  assumes "json_laws J" "submitJob J C job w = (Ret (u, job'), w')" "trace w' = trace w @ evs"
  shows "job_follows J evs job job'"
proof -
  from assms(1,2) obtain resp where
    "call_post C (getPath job) (toJson J (mIsHpc C) job) w = (Ret resp, w')"
    "job' = job \<or> (\<exists>u. response_uuid J resp = Inr (Some u) \<and> job' = setUuid u job)"
    by (auto simp: submitJob_reads bind_io_def split: prod.splits outcome.splits sum.splits option.splits)
  moreover from this(1) assms(3) have "evs = [EvPost (getPath job) (Ret resp)]"
    using call_post_trace[of C "getPath job" "toJson J (mIsHpc C) job" w] by simp
  ultimately show ?thesis by (auto simp: job_follows_def)
qed

definition program_inv ::
  "'j json_api \<Rightarrow> ('s, 'j) mqss_client \<Rightarrow> 's program_state \<Rightarrow> 's program_state \<Rightarrow> event list \<Rightarrow> bool" where
  "program_inv J C x y evs \<longleftrightarrow> trace (snd y) = trace (snd x) @ evs \<and>
     replays (mClient C) evs (net (snd x)) (net (snd y)) \<and> list_all2 (job_follows J evs) (fst x) (fst y)"

lemma program_inv_trans:
  assumes "program_inv J C x y es" "program_inv J C y z fs"
  shows "program_inv J C x z (es @ fs)"
proof -
  have "list_all2 (job_follows J (es @ fs)) (fst x) (fst z)"
    using assms by (auto simp: program_inv_def intro: list_all2_trans[OF job_follows_trans])
  with assms show ?thesis by (auto simp: program_inv_def intro: replays_append)
qed

lemma program_inv_same:
  assumes "follows C (snd x) (snd y)" "fst y = fst x"
  shows "\<exists>evs. program_inv J C x y evs"
proof -
  have "list_all2 (job_follows J evs) (fst x) (fst y)" for evs
    using assms(2) by (auto simp: job_follows_def list_all2_refl)
  with assms(1) show ?thesis unfolding follows_def program_inv_def by blast
qed

lemma client_step_inv:
  assumes J: "json_laws J" and step: "client_step J C x y"
  shows "\<exists>evs. program_inv J C x y evs"
proof -
  obtain js w where x: "x = (js, w)" by fastforce
  from step obtain op r where e: "client_exec J C op (js, w) = (r, y)"
    "pred_option (\<lambda>i. i < length js) (op_job op)" by (auto simp: x elim: client_stepE)
  have f: "follows C (snd x) (snd y)" using follows_program[of J C x y] step by auto
  show ?thesis
  proof (cases "fst y = js")
    case True
    with program_inv_same[OF f] show ?thesis by (simp add: x)
  next
    case False
    with e obtain i where op: "op = Submit i"
      by (cases op) (auto dest!: keep_jobs_snd)
    with e False obtain u job w' where s: "submitJob J C (js ! i) w = (Ret (u, job), w')"
      "y = (js[i := job], w')" "i < length js"
      by (auto split: prod.splits outcome.splits)
    from f obtain evs where evs: "trace w' = trace w @ evs" "replays (mClient C) evs (net w) (net w')"
      by (auto simp: follows_def x s(2))
    have "job_follows J evs (js ! i) job" by (rule submit_follows[OF J s(1) evs(1)])
    then have "job_follows J evs (js ! k) (js[i := job] ! k)" if "k < length js" for k
      using that by (cases "k = i") (simp_all add: job_follows_def)
    then have "list_all2 (job_follows J evs) js (js[i := job])"
      by (simp add: list_all2_conv_all_nth)
    with evs show ?thesis unfolding program_inv_def by (auto simp: x s(2))
  qed
qed

lemma program_inv:
  assumes "json_laws J" "program J C x y"
  shows "\<exists>evs. program_inv J C x y evs"
  using assms(2)
proof (induction rule: rtranclp_induct)
  case base
  show ?case by (rule program_inv_same) (simp_all add: follows_refl)
next
  case (step y z)
  then show ?case using client_step_inv[OF assms(1)] program_inv_trans by blast
qed

section \<open>A transport with a log\<close>

text \<open>A log that grows by one stretch per event: what holds of each call holds of every history.\<close>

locale transport_log =
  fixes T :: "('s, 'j) base_client"
    and ok :: "'s \<Rightarrow> bool"
    and stretch :: "event \<Rightarrow> 'e list \<Rightarrow> bool"
    and out :: "'s \<Rightarrow> 'e list"
  assumes call_get: "ok s \<Longrightarrow> bc_get T path s = (r, t) \<Longrightarrow>
      ok t \<and> (\<exists>es. stretch (EvGet path r) es \<and> out t = out s @ es)"
    and call_post: "ok s \<Longrightarrow> bc_post T path d s = (q, t) \<Longrightarrow>
      ok t \<and> (\<exists>es. stretch (EvPost path q) es \<and> out t = out s @ es)"
    and call_del: "ok s \<Longrightarrow> bc_del T path s = (u, t) \<Longrightarrow>
      ok t \<and> (\<exists>es. stretch (EvDel path u) es \<and> out t = out s @ es)"
    and call_sleep: "stretch (EvSleep n) []"
begin

lemma stretches: "replays T evs n n' \<Longrightarrow> ok n \<Longrightarrow> \<exists>ess. list_all2 stretch evs ess \<and> out n' = out n @ concat ess"
proof (induction rule: replays.induct)
  case (rp_nil n)
  show ?case by (intro exI[of _ "[]"]) simp
next
  case (rp_get path n r m es n')
  from call_get[OF rp_get.prems rp_get.hyps(1)] rp_get.IH obtain e ess where
    "stretch (EvGet path r) e" "out m = out n @ e" "list_all2 stretch es ess" "out n' = out m @ concat ess" by blast
  then show ?case by (intro exI[of _ "e # ess"]) simp
next
  case (rp_post path d n r m es n')
  from call_post[OF rp_post.prems rp_post.hyps(1)] rp_post.IH obtain e ess where
    "stretch (EvPost path r) e" "out m = out n @ e" "list_all2 stretch es ess" "out n' = out m @ concat ess" by blast
  then show ?case by (intro exI[of _ "e # ess"]) simp
next
  case (rp_del path n r m es n')
  from call_del[OF rp_del.prems rp_del.hyps(1)] rp_del.IH obtain e ess where
    "stretch (EvDel path r) e" "out m = out n @ e" "list_all2 stretch es ess" "out n' = out m @ concat ess" by blast
  then show ?case by (intro exI[of _ "e # ess"]) simp
next
  case (rp_sleep es n n' k)
  then obtain ess where "list_all2 stretch es ess" "out n' = out n @ concat ess" by blast
  then show ?case using call_sleep by (intro exI[of _ "[] # ess"]) simp
qed

lemma program_stretches:
  assumes "program J C (js, w) (js', w')" "mClient C = T" "ok (net w)"
  shows "\<exists>evs ess. trace w' = trace w @ evs \<and> list_all2 stretch evs ess \<and> out (net w') = out (net w) @ concat ess"
proof -
  from follows_program[OF assms(1)] assms(2) obtain evs where "trace w' = trace w @ evs"
    "replays T evs (net w) (net w')" by (auto simp: follows_def)
  with stretches assms(3) show ?thesis by blast
qed

end

section \<open>Over REST the trace is the wire\<close>

text \<open>What one event of the trace put on the wire: its request, or nothing. Nothing is sent only by sleeping,
  when libcurl has no handle to give, and for a submission whose payload cannot be serialized; and then the
  call ended as the last four rules say.\<close>

definition no_handle :: "'w curl_api \<Rightarrow> bool" where
  "no_handle K \<longleftrightarrow> (\<exists>w. \<not> fst (c_easy_init K w))"

inductive wired :: "'w curl_api \<Rightarrow> 'j json_api \<Rightarrow> rest_client \<Rightarrow> event \<Rightarrow> http_request list \<Rightarrow> bool"
  for K J R where
  wired_get: "wired K J R (EvGet path (Ret resp)) [the_request K R ''GET'' path None w]"
| wired_post: "j_dump J d = Inr body \<Longrightarrow>
     wired K J R (EvPost path (Ret resp)) [the_request K R ''POST'' path (Some body) w]"
| wired_del: "r \<noteq> Hang \<Longrightarrow> wired K J R (EvDel path r) [the_request K R ''DELETE'' path None w]"
| wired_sleep: "wired K J R (EvSleep n) []"
| unsent_get: "no_handle K \<Longrightarrow> wired K J R (EvGet path (Ret [])) []"
| unsent_post: "no_handle K \<Longrightarrow> wired K J R (EvPost path (Ret [])) []"
| unsent_del: "no_handle K \<Longrightarrow>
     wired K J R (EvDel path (Exc (Runtime_error ''Failed to initialize REST connection''))) []"
| unsent_payload: "j_dump J d = Inl m \<Longrightarrow> wired K J R (EvPost path (Exc (Json_exn m))) []"

lemma rest_get_wired:
  assumes "rest_get K J R path s = (r, t)"
  shows "\<exists>rqs. wired K J R (EvGet path r) rqs \<and> rs_sent t = rs_sent s @ rqs"
proof -
  obtain ok w1 where init: "c_easy_init K (rs_curl s) = (ok, w1)" by fastforce
  show ?thesis
  proof (cases ok)
    case False
    with init have "no_handle K" unfolding no_handle_def by (metis fst_conv)
    moreover from init False rest_request_no_handle[of K s w1 J R "''GET''" path None] assms
    have "r = Ret []" "rs_sent t = rs_sent s" by (auto simp: rest_get_def catch_io_def)
    ultimately show ?thesis by (auto intro: unsent_get)
  next
    case True
    obtain x w2 where "c_easy_perform K (the_request K R ''GET'' path None w1) w1 = (x, w2)" by fastforce
    with init True rest_request_sent[of K s w1 J None None R "''GET''" path x w2] assms
    have "(\<exists>resp. r = Ret resp) \<and> rs_sent t = rs_sent s @ [the_request K R ''GET'' path None w1]"
      by (auto simp: rest_get_def catch_io_def payload_text_def split: sum.splits)
    then show ?thesis by (auto intro: wired_get)
  qed
qed

lemma rest_post_wired:
  assumes "rest_post K J R path d s = (r, t)"
  shows "\<exists>rqs. wired K J R (EvPost path r) rqs \<and> rs_sent t = rs_sent s @ rqs"
proof -
  obtain ok w1 where init: "c_easy_init K (rs_curl s) = (ok, w1)" by fastforce
  show ?thesis
  proof (cases ok)
    case False
    with init have "no_handle K" unfolding no_handle_def by (metis fst_conv)
    moreover from init False rest_request_no_handle[of K s w1 J R "''POST''" path "Some d"] assms
    have "r = Ret []" "rs_sent t = rs_sent s" by (auto simp: rest_post_def catch_io_def)
    ultimately show ?thesis by (auto intro: unsent_post)
  next
    case True
    show ?thesis
    proof (cases "j_dump J d")
      case (Inl m)
      with init True rest_request_no_payload[of K s w1 J "Some d" "Json_exn m" R "''POST''" path] assms
      have "r = Exc (Json_exn m)" "rs_sent t = rs_sent s"
        by (auto simp: rest_post_def catch_io_def payload_text_def)
      with Inl show ?thesis by (auto intro: unsent_payload)
    next
      case (Inr body)
      obtain x w2 where "c_easy_perform K (the_request K R ''POST'' path (Some body) w1) w1 = (x, w2)" by fastforce
      with init True Inr rest_request_sent[of K s w1 J "Some d" "Some body" R "''POST''" path x w2] assms
      have "(\<exists>resp. r = Ret resp) \<and> rs_sent t = rs_sent s @ [the_request K R ''POST'' path (Some body) w1]"
        by (auto simp: rest_post_def catch_io_def payload_text_def split: sum.splits)
      with Inr show ?thesis by (auto intro: wired_post)
    qed
  qed
qed

lemma rest_del_wired:
  assumes "rest_del K J R path s = (r, t)"
  shows "\<exists>rqs. wired K J R (EvDel path r) rqs \<and> rs_sent t = rs_sent s @ rqs"
proof -
  obtain ok w1 where init: "c_easy_init K (rs_curl s) = (ok, w1)" by fastforce
  show ?thesis
  proof (cases ok)
    case False
    with init have "no_handle K" unfolding no_handle_def by (metis fst_conv)
    moreover from init False rest_request_no_handle[of K s w1 J R "''DELETE''" path None] assms
    have "r = Exc (Runtime_error ''Failed to initialize REST connection'')" "rs_sent t = rs_sent s"
      by (auto simp: rest_del_def bind_io_def)
    ultimately show ?thesis by (auto intro: unsent_del)
  next
    case True
    obtain x w2 where "c_easy_perform K (the_request K R ''DELETE'' path None w1) w1 = (x, w2)" by fastforce
    with init True rest_request_sent[of K s w1 J None None R "''DELETE''" path x w2] assms
    have "r \<noteq> Hang \<and> rs_sent t = rs_sent s @ [the_request K R ''DELETE'' path None w1]"
      by (auto simp: rest_del_def bind_io_def payload_text_def split: sum.splits)
    then show ?thesis by (auto intro: wired_del)
  qed
qed

interpretation wire: transport_log "rest_transport K J R" "\<lambda>s. True" "wired K J R" rs_sent for K J R
  by unfold_locales (simp_all add: rest_transport_def rest_get_wired rest_post_wired rest_del_wired wired_sleep)

section \<open>Over the message queue the trace is the log of the broker\<close>

text \<open>What the client makes of the end of a wait.\<close>

definition wait_outcome :: "'w amqp_api \<Rightarrow> consumed \<Rightarrow> string outcome" where
  "wait_outcome A got =
     (case got of Blocked \<Rightarrow> Hang | Not_normal e \<Rightarrow> Ret (a_error_string2 A e) | Delivered m tag \<Rightarrow> Ret m)"

text \<open>What one event of the trace did at the broker: one publication of its request and one wait, whose end is the
  outcome of the call. GET and POST wait even if the publication failed; DELETE does not.\<close>

inductive exchanged :: "'w amqp_api \<Rightarrow> 'j json_api \<Rightarrow> hpc_client \<Rightarrow> event \<Rightarrow> mq_event list \<Rightarrow> bool"
  for A J H where
  exchanged_get: "j_dump J (hpc_request J H ''GET'' path (j_str J '''')) = Inr body \<Longrightarrow>
     exchanged A J H (EvGet path (wait_outcome A got))
       (MqPublish (c_str (mOffloadListenerQueueName H)) (c_str body) err # reception_log (mResponseQueueName H) got)"
| exchanged_post: "j_dump J (hpc_request J H ''POST'' path d) = Inr body \<Longrightarrow>
     exchanged A J H (EvPost path (wait_outcome A got))
       (MqPublish (c_str (mOffloadListenerQueueName H)) (c_str body) err # reception_log (mResponseQueueName H) got)"
| exchanged_del: "j_dump J (hpc_request J H ''DELETE'' path (j_str J '''')) = Inr body \<Longrightarrow>
     exchanged A J H (EvDel path (if got = Blocked then Hang else Ret ()))
       (MqPublish (c_str (mOffloadListenerQueueName H)) (c_str body) 0 # reception_log (mResponseQueueName H) got)"
| unpublished_del: "j_dump J (hpc_request J H ''DELETE'' path (j_str J '''')) = Inr body \<Longrightarrow> err \<noteq> 0 \<Longrightarrow>
     exchanged A J H (EvDel path (Exc (Runtime_error ''Failed to send HPC cancellation request'')))
       [MqPublish (c_str (mOffloadListenerQueueName H)) (c_str body) err]"
| exchanged_sleep: "exchanged A J H (EvSleep n) []"
| unsaid_get: "j_dump J (hpc_request J H ''GET'' path (j_str J '''')) = Inl m \<Longrightarrow>
     exchanged A J H (EvGet path (Exc (Json_exn m))) []"
| unsaid_post: "j_dump J (hpc_request J H ''POST'' path d) = Inl m \<Longrightarrow>
     exchanged A J H (EvPost path (Exc (Json_exn m))) []"
| unsaid_del: "j_dump J (hpc_request J H ''DELETE'' path (j_str J '''')) = Inl m \<Longrightarrow>
     exchanged A J H (EvDel path (Exc (Json_exn m))) []"

lemma request_logged:
  assumes "rq \<in> set (mQueues s)"
  shows "\<exists>got. mq_log (snd (receive A rq (snd (send A q d s)))) =
      mq_log s @ MqPublish (c_str q) (c_str d) (fst (send A q d s)) # reception_log rq got \<and>
    mQueues (snd (receive A rq (snd (send A q d s)))) = mQueues s \<and>
    fst (receive A rq (snd (send A q d s))) = wait_outcome A got"
proof -
  have "rq \<in> set (mQueues (snd (send A q d s)))" using assms by simp
  then obtain got where "mq_log (snd (receive A rq (snd (send A q d s)))) = mq_log (snd (send A q d s)) @ reception_log rq got"
    "mQueues (snd (receive A rq (snd (send A q d s)))) = mQueues (snd (send A q d s))"
    "fst (receive A rq (snd (send A q d s))) = wait_outcome A got"
    unfolding wait_outcome_def by (rule receive_declared_log)
  then show ?thesis by (intro exI[of _ got]) simp
qed

lemma hpc_get_exchanged:
  assumes "mResponseQueueName H \<in> set (mQueues s)" "hpc_get A J H path s = (r, t)"
  shows "mResponseQueueName H \<in> set (mQueues t) \<and> (\<exists>es. exchanged A J H (EvGet path r) es \<and> mq_log t = mq_log s @ es)"
proof (cases "j_dump J (hpc_request J H ''GET'' path (j_str J ''''))")
  case (Inl m)
  with assms show ?thesis by (auto simp: hpc_get_eval intro: unsaid_get)
next
  case (Inr body)
  with assms(2) have "t = snd (receive A (mResponseQueueName H) (snd (send A (mOffloadListenerQueueName H) body s)))"
    "r = fst (receive A (mResponseQueueName H) (snd (send A (mOffloadListenerQueueName H) body s)))"
    by (simp_all add: hpc_get_eval)
  with request_logged[OF assms(1), of A "mOffloadListenerQueueName H" body] assms(1) exchanged_get[OF Inr]
  show ?thesis by auto
qed

lemma hpc_post_exchanged:
  assumes "mResponseQueueName H \<in> set (mQueues s)" "hpc_post A J H path d s = (r, t)"
  shows "mResponseQueueName H \<in> set (mQueues t) \<and> (\<exists>es. exchanged A J H (EvPost path r) es \<and> mq_log t = mq_log s @ es)"
proof (cases "j_dump J (hpc_request J H ''POST'' path d)")
  case (Inl m)
  with assms show ?thesis by (auto simp: hpc_post_eval intro: unsaid_post)
next
  case (Inr body)
  with assms(2) have "t = snd (receive A (mResponseQueueName H) (snd (send A (mOffloadListenerQueueName H) body s)))"
    "r = fst (receive A (mResponseQueueName H) (snd (send A (mOffloadListenerQueueName H) body s)))"
    by (simp_all add: hpc_post_eval)
  with request_logged[OF assms(1), of A "mOffloadListenerQueueName H" body] assms(1) exchanged_post[OF Inr]
  show ?thesis by auto
qed

lemma hpc_del_exchanged:
  assumes "mResponseQueueName H \<in> set (mQueues s)" "hpc_del A J H path s = (r, t)"
  shows "mResponseQueueName H \<in> set (mQueues t) \<and> (\<exists>es. exchanged A J H (EvDel path r) es \<and> mq_log t = mq_log s @ es)"
proof (cases "j_dump J (hpc_request J H ''DELETE'' path (j_str J ''''))")
  case (Inl m)
  with assms show ?thesis by (auto simp: hpc_del_def bind_io_def intro: unsaid_del)
next
  case (Inr body)
  let ?s1 = "snd (send A (mOffloadListenerQueueName H) body s)"
  have run: "hpc_del A J H path s = (if fst (send A (mOffloadListenerQueueName H) body s) \<noteq> 0
      then (Exc (Runtime_error ''Failed to send HPC cancellation request''), ?s1)
      else case receive A (mResponseQueueName H) ?s1 of
        (Ret m, s2) \<Rightarrow> (Ret (), s2) | (Exc e, s2) \<Rightarrow> (Exc e, s2) | (Hang, s2) \<Rightarrow> (Hang, s2))"
    using Inr by (simp add: hpc_del_def bind_io_def mq_send_eval split: prod.splits outcome.splits)
  show ?thesis
  proof (cases "fst (send A (mOffloadListenerQueueName H) body s) = 0")
    case False
    with run assms unpublished_del[OF Inr False] show ?thesis by auto
  next
    case True
    from request_logged[OF assms(1), of A "mOffloadListenerQueueName H" body] obtain got where g:
      "mq_log (snd (receive A (mResponseQueueName H) ?s1)) = mq_log s @
         MqPublish (c_str (mOffloadListenerQueueName H)) (c_str body) 0 # reception_log (mResponseQueueName H) got"
      "mQueues (snd (receive A (mResponseQueueName H) ?s1)) = mQueues s"
      "fst (receive A (mResponseQueueName H) ?s1) = wait_outcome A got" using True by auto
    from run True assms(2) g(3) have "t = snd (receive A (mResponseQueueName H) ?s1)"
      "r = (if got = Blocked then Hang else Ret ())"
      by (cases "receive A (mResponseQueueName H) ?s1"; cases got; auto simp: wait_outcome_def)+
    with g(1,2) assms(1) exchanged_del[OF Inr, of A got] show ?thesis by auto
  qed
qed

interpretation broker: transport_log "hpc_transport A J H" "\<lambda>s. mResponseQueueName H \<in> set (mQueues s)"
  "exchanged A J H" mq_log for A J H
  by unfold_locales (auto simp only: hpc_transport_def base_client.simps exchanged_sleep
      dest: hpc_get_exchanged hpc_post_exchanged hpc_del_exchanged)

section \<open>Properties\<close>

text \<open>C9. Whatever a program does with a client, its trace is the history of the transport: replaying the
  events of the trace, one transport call each, leads from the transport's first state to its last.
  A job changes in no other way than that it gets the uuid of a response to a submission on its own path.
\<close>

theorem program_history:
  assumes "json_laws J" "program J C (js, w) (js', w')"
  shows "\<exists>evs. trace w' = trace w @ evs \<and> replays (mClient C) evs (net w) (net w') \<and>
    length js' = length js \<and>
    (\<forall>i < length js. js' ! i = js ! i \<or>
       (\<exists>u resp. js' ! i = setUuid u (js ! i) \<and> EvPost (getPath (js ! i)) (Ret resp) \<in> set evs \<and>
          response_uuid J resp = Inr (Some u)))"
  using program_inv[OF assms] by (auto simp: program_inv_def list_all2_conv_all_nth job_follows_def)



section \<open>Examples\<close>

lemma example_program:
  "\<exists>w'. program rest_json (rest_mqss example_curl rest_json example_rest)
      ([example_job], rest_sys [example_transfer 201]) ([setUuid ''42'' example_job], w') \<and>
    map rq_url (rs_sent (net w')) = [''http://h/job'']"
proof -
  obtain w' where w': "submitJob rest_json (rest_mqss example_curl rest_json example_rest) example_job
      (rest_sys [example_transfer 201]) = (Ret (Some ''42'', setUuid ''42'' example_job), w')"
    "map rq_url (rs_sent (net w')) = [''http://h/job'']"
    using rest_submitted by (elim exE conjE)
  have "client_step rest_json (rest_mqss example_curl rest_json example_rest)
      ([example_job], rest_sys [example_transfer 201]) ([setUuid ''42'' example_job], w')"
    by (rule client_call[of _ "Submit 0" _ _ "Ret ()"]) (simp_all add: w'(1))
  then show ?thesis using w'(2) by (intro exI[of _ w'] conjI r_into_rtranclp)
qed

theorem program_history_witness:
  "\<exists>(w' :: transfer list rest_state sys) evs resp. trace w' = trace (rest_sys [example_transfer 201]) @ evs \<and>
     EvPost (getPath example_job) (Ret resp) \<in> set evs \<and> response_uuid rest_json resp = Inr (Some ''42'')"
proof -
  obtain w' where p: "program rest_json (rest_mqss example_curl rest_json example_rest)
      ([example_job], rest_sys [example_transfer 201]) ([setUuid ''42'' example_job], w')"
    using example_program by (elim exE conjE)
  have ne: "setUuid ''42'' example_job \<noteq> example_job" by (simp add: example_job_def CircuitJobRequest_def)
  have inj: "setUuid u example_job = setUuid v example_job \<Longrightarrow> u = v" for u v
    by (metis getUuid_setUuid)
  from program_history[OF rest_json_facts(1) p] ne obtain evs u resp where
    "trace w' = trace (rest_sys [example_transfer 201]) @ evs" "setUuid ''42'' example_job = setUuid u example_job"
    "EvPost (getPath example_job) (Ret resp) \<in> set evs" "response_uuid rest_json resp = Inr (Some u)"
    by auto
  with inj[of "''42''" u] show ?thesis by blast
qed



end
