(* ===== verification/Hpc_Jobs.thy ===== *)
theory Hpc_Jobs
  imports Client_Program
begin

text \<open>
  Jobs in HPC mode, over a queue that keeps order: which uuid a submission stores. It is the one in the
  message at the front of the response queue; so after one submission whose wait failed, the next job can
  get the uuid of the lost one, and cancelling it cancels the other.
\<close>

section \<open>One submission\<close>

abbreviation offload :: "hpc_client \<Rightarrow> string" where
  "offload H \<equiv> c_str (mOffloadListenerQueueName H)"

definition submission :: "'j json_api \<Rightarrow> hpc_client \<Rightarrow> job \<Rightarrow> 'j" where
  "submission J H job = hpc_request J H ''POST'' (getPath job) (toJson J True job)"

text \<open>What a submission comes to when \<open>m\<close> is taken for its response.\<close>

definition submitted :: "'j json_api \<Rightarrow> job \<Rightarrow> string \<Rightarrow> (string option \<times> job) outcome" where
  "submitted J job m =
     (case response_uuid J m of
        Inl e \<Rightarrow> Exc e
      | Inr None \<Rightarrow> Ret (None, job)
      | Inr (Some u) \<Rightarrow> Ret (Some u, setUuid u job))"

lemma submission_call: "submission J H job = request_of J H (HPost (getPath job) (toJson J True job))"
  by (simp add: submission_def)

lemma submitJob_hpc:
  assumes "json_laws J"
  shows "submitJob J (hpc_mqss A J H) job w =
    (case hpc_perform A J H (HPost (getPath job) (toJson J True job)) (net w) of
       (Ret m, n) \<Rightarrow> (submitted J job (the m),
         \<lparr>net = n, trace = trace w @ [EvPost (getPath job) (Ret (the m))]\<rparr>)
     | (Exc e, n) \<Rightarrow> (Exc e, \<lparr>net = n, trace = trace w @ [EvPost (getPath job) (Exc e)]\<rparr>)
     | (Hang, n) \<Rightarrow> (Hang, \<lparr>net = n, trace = trace w @ [EvPost (getPath job) Hang]\<rparr>))"
proof -
  have mode: "mIsHpc (hpc_mqss A J H) = True" by (simp add: hpc_mqss_def)
  show ?thesis
    unfolding submitJob_reads[OF assms] mode
    by (auto simp: hpc_perform.simps bind_io_def hpc_mqss_calls submitted_def
        split: prod.splits outcome.splits sum.splits option.splits)
qed

text \<open>The two ways a published submission can end: with a delivery, which is the front of the queue, or
  with a failed wait, which takes nothing from it.\<close>

lemma submit_delivered:
  assumes J: "json_laws J" and f: "queue_order A queued"
    and rq: "mResponseQueueName H \<in> set (mQueues (net w))"
    and d: "j_dump J (submission J H job) = Inr body"
    and run: "submitJob J (hpc_mqss A J H) job w = (r, w')" "mq_log (net w') = mq_log (net w) @ evs" "healthy evs"
  shows "\<exists>m extra. r = submitted J job m \<and> mQueues (net w') = mQueues (net w) \<and>
    queued (mq_world (net w)) @ extra = m # queued (mq_world (net w'))"
proof -
  let ?c = "HPost (getPath job) (toJson J True job)"
  obtain x n where p: "hpc_perform A J H ?c (net w) = (x, n)" by fastforce
  with run(1) have n: "n = net w'" unfolding submitJob_hpc[OF J] by (cases x) auto
  from hpc_perform_queued(1)[OF f rq d[unfolded submission_call] p] run(2,3) n obtain got extra where
    "x = Ret (Some (fst got))" "mQueues n = mQueues (net w)"
    "queued (mq_world (net w)) @ extra = fst got # queued (mq_world n)" by auto
  with run(1) p n show ?thesis unfolding submitJob_hpc[OF J] by auto
qed

lemma submit_lost:
  assumes J: "json_laws J" and f: "queue_order A queued"
    and rq: "mResponseQueueName H \<in> set (mQueues (net w))"
    and d: "j_dump J (submission J H job) = Inr body"
    and run: "submitJob J (hpc_mqss A J H) job w = (r, w')"
      "mq_log (net w') = mq_log (net w) @ [MqPublish q b 0, MqConsume q', MqReceived (Not_normal e)]"
  shows "r = submitted J job (a_error_string2 A e) \<and> mQueues (net w') = mQueues (net w)"
proof -
  let ?c = "HPost (getPath job) (toJson J True job)"
  obtain x n where p: "hpc_perform A J H ?c (net w) = (x, n)" by fastforce
  with run(1) have n: "n = net w'" unfolding submitJob_hpc[OF J] by (cases x) auto
  from hpc_perform_queued(2)[OF f rq d[unfolded submission_call] p _ refl] run(2) n have
    "x = Ret (Some (a_error_string2 A e))" "mQueues n = mQueues (net w)" by auto
  with run(1) p n show ?thesis unfolding submitJob_hpc[OF J] by auto
qed

text \<open>A cancellation that returns was published.\<close>

lemma cancel_published:
  assumes "mResponseQueueName H \<in> set (mQueues (net w))" "cancelJob (hpc_mqss A J H) job w = (Ret (), w')"
    and "j_dump J (hpc_request J H ''DELETE'' (job_url job) (j_str J '''')) = Inr body"
  shows "\<exists>es. mq_log (net w') = mq_log (net w) @ MqPublish (offload H) (c_str body) 0 # es"
proof -
  have "hpc_del A J H (job_url job) (net w) = (Ret (), net w')"
    using assms(2) by (auto simp: cancelJob_def call_del_def hpc_mqss_def hpc_transport_def split: prod.splits)
  from hpc_del_exchanged[OF assms(1) this] obtain es where
    "exchanged A J H (EvDel (job_url job) (Ret ())) es" "mq_log (net w') = mq_log (net w) @ es" by blast
  then show ?thesis using assms(3) by (cases rule: exchanged.cases) auto
qed

section \<open>Properties\<close>

text \<open>C28. One lost wait gives a job the identity of another. Job \<open>a\<close> is submitted and published, the broker
  fails during the wait, and the caller is told that the submission failed. The answer to \<open>a\<close>, with the uuid
  \<open>u\<close>, reaches the response queue, and job \<open>b\<close> is submitted next, where nothing fails any more: \<open>b\<close> gets the
  uuid of \<open>a\<close>, and its own answer comes behind whatever else is in the queue. A cancellation of \<open>b\<close> that
  returns has then published the deletion of the path of \<open>b\<close> with the uuid of \<open>a\<close>, which is the job \<open>a\<close> if
  both are of the same kind. Of the broker only the order of the queue is assumed, of the service nothing.
\<close>

theorem hpc_lost_submission_misattributed:
  assumes "json_laws J" "queue_order A queued"
    and "mResponseQueueName H \<in> set (mQueues (net w))"
    and "j_dump J (submission J H a) = Inr abody" "j_dump J (submission J H b) = Inr bbody"
    and "j_parse J (a_error_string2 A e) = Inl m"
    and "submitJob J (hpc_mqss A J H) a w = (ra, w1)"
    and "mq_log (net w1) = mq_log (net w) @ [MqPublish (offload H) (c_str abody) 0,
      MqConsume (c_str (mResponseQueueName H)), MqReceived (Not_normal e)]"
    and "queued (mq_world (net w1)) = late # rest" "response_uuid J late = Inr (Some u)"
    and "submitJob J (hpc_mqss A J H) b w1 = (rb, w2)" "mq_log (net w2) = mq_log (net w1) @ evs" "healthy evs"
    and "j_dump J (hpc_request J H ''DELETE'' (getPath b @ ''/'' @ u) (j_str J '''')) = Inr cancel"
    and "cancelJob (hpc_mqss A J H) (setUuid u b) w2 = (Ret (), w3)"
  shows "ra = Ret (None, a) \<and> rb = Ret (Some u, setUuid u b) \<and>
    prefix rest (queued (mq_world (net w2))) \<and>
    (\<exists>es. mq_log (net w3) = mq_log (net w2) @ MqPublish (offload H) (c_str cancel) 0 # es) \<and>
    (getPath a = getPath b \<longrightarrow> job_url (setUuid u b) = job_url (setUuid u a))"
proof -
  have lost: "ra = submitted J a (a_error_string2 A e)" "mQueues (net w1) = mQueues (net w)"
    using submit_lost[OF assms(1-4,7,8)] by auto
  then have rq: "mResponseQueueName H \<in> set (mQueues (net w1))" using assms(3) by simp
  from submit_delivered[OF assms(1,2) rq assms(5,11-13)] obtain n extra where
    b: "rb = submitted J b n" "mQueues (net w2) = mQueues (net w1)"
    and "queued (mq_world (net w1)) @ extra = n # queued (mq_world (net w2))" by blast
  then have q: "n = late" "rest @ extra = queued (mq_world (net w2))" by (simp_all add: assms(9))
  have "rb = Ret (Some u, setUuid u b)" using b(1) q(1) assms(10) by (simp add: submitted_def)
  moreover have "ra = Ret (None, a)" using lost(1) assms(6) by (simp add: submitted_def response_uuid_def)
  moreover have "prefix rest (queued (mq_world (net w2)))" using q(2) by (metis prefixI)
  moreover have "mResponseQueueName H \<in> set (mQueues (net w2))" using rq b(2) by simp
  from cancel_published[OF this assms(15)] assms(14)
  have "\<exists>es. mq_log (net w3) = mq_log (net w2) @ MqPublish (offload H) (c_str cancel) 0 # es"
    by (simp add: job_url_def)
  ultimately show ?thesis by (simp add: job_url_def)
qed

section \<open>Examples\<close>

definition other_job :: job where
  "other_job = CircuitJob (CircuitJobRequest ''other'' ''qasm'' ''QExa20'' 7 True False)"

definition jobs_json :: "jv json_api" where
  "jobs_json = ref_json
     [(''A'', submission (ref_json []) example_hpc example_job), (''B'', submission (ref_json []) example_hpc other_job),
      (''X'', hpc_request (ref_json []) example_hpc ''DELETE'' ''job/42'' (JStr '''')),
      (''re A'', JObj [(''uuid'', JStr ''42'')]), (''re B'', JObj [(''uuid'', JStr ''43'')])]"

lemma jobs_json_facts:
  "json_laws jobs_json"
  "j_dump jobs_json (submission jobs_json example_hpc example_job) = Inr ''A''"
  "j_dump jobs_json (submission jobs_json example_hpc other_job) = Inr ''B''"
  "j_dump jobs_json (hpc_request jobs_json example_hpc ''DELETE'' (getPath other_job @ ''/'' @ ''42'') (j_str jobs_json '''')) = Inr ''X''"
  "response_uuid jobs_json ''re A'' = Inr (Some ''42'')"
  "j_parse jobs_json (a_error_string2 echo_amqp 7) = Inl ''parse_error.101''"
proof -
  have p: "submission jobs_json example_hpc j = submission (ref_json []) example_hpc j" for j
    by (cases j) (simp_all add: submission_def hpc_request_def jobs_json_def circuit_toJson_def hamiltonian_toJson_def)
  have q: "hpc_request jobs_json example_hpc x y z = hpc_request (ref_json []) example_hpc x y z" for x y z
    by (simp add: hpc_request_def jobs_json_def)
  show "json_laws jobs_json" by (simp add: jobs_json_def ref_json_laws)
  show "j_dump jobs_json (submission jobs_json example_hpc example_job) = Inr ''A''"
    unfolding p by (simp add: jobs_json_def ref_json_dump)
  have ne: "submission (ref_json []) example_hpc example_job \<noteq> submission (ref_json []) example_hpc other_job"
    by (simp add: submission_def hpc_request_def example_job_def other_job_def circuit_toJson_def CircuitJobRequest_def)
  from this[symmetric] show "j_dump jobs_json (submission jobs_json example_hpc other_job) = Inr ''B''"
    unfolding p by (simp add: jobs_json_def ref_json_dump)
  have "hpc_request (ref_json []) example_hpc ''DELETE'' ''job/42'' (JStr '''') \<noteq> submission (ref_json []) example_hpc j" for j
    by (simp add: submission_def hpc_request_def)
  moreover have "getPath other_job @ ''/'' @ ''42'' = ''job/42''" by (simp add: other_job_def)
  ultimately show "j_dump jobs_json (hpc_request jobs_json example_hpc ''DELETE'' (getPath other_job @ ''/'' @ ''42'') (j_str jobs_json '''')) = Inr ''X''"
    unfolding q by (simp add: jobs_json_def ref_json_dump)
  show "response_uuid jobs_json ''re A'' = Inr (Some ''42'')"
    by (simp add: response_uuid_def jobs_json_def)
  show "j_parse jobs_json (a_error_string2 echo_amqp 7) = Inl ''parse_error.101''"
    by (simp add: jobs_json_def echo_amqp_simps)
qed

definition jobs_sys :: "bool list \<Rightarrow> (bool list \<times> string list) mq sys" where
  "jobs_sys fails = \<lparr>net = echo_state fails, trace = []\<rparr>"

lemma jobs_sys_facts:
  "mResponseQueueName example_hpc \<in> set (mQueues (net (jobs_sys fails)))"
  "snd (mq_world (net (jobs_sys fails))) = []" "mq_log (net (jobs_sys fails)) = []"
  "mq_world (net (jobs_sys fails)) = (fails, [])"
  using echo_state_facts[of fails] by (simp_all add: jobs_sys_def echo_state_def MQSSRabbitMQClient_def)

text \<open>A submission of the example, from any state: what it leaves in the log.\<close>

lemma echo_submit:
  assumes "mResponseQueueName example_hpc \<in> set (mQueues (net w))"
    and "j_dump jobs_json (submission jobs_json example_hpc job) = Inr body" "list_all (\<lambda>ch. code_of ch \<noteq> 0) body"
  shows "mq_world (net w) = (True # fs, ms) \<Longrightarrow> \<exists>r w'. submitJob jobs_json (hpc_mqss echo_amqp jobs_json example_hpc) job w = (r, w') \<and>
      mq_log (net w') = mq_log (net w) @ [MqPublish ''offload'' body 0, MqConsume ''answers'', MqReceived (Not_normal 7)] \<and>
      mQueues (net w') = mQueues (net w) \<and> mq_world (net w') = (fs, ms @ [''re '' @ body])"
    and "mq_world (net w) = ([], ms) \<Longrightarrow> \<exists>r w' evs. submitJob jobs_json (hpc_mqss echo_amqp jobs_json example_hpc) job w = (r, w') \<and>
      mq_log (net w') = mq_log (net w) @ evs \<and> healthy evs \<and> mQueues (net w') = mQueues (net w) \<and>
      (\<exists>ms'. mq_world (net w') = ([], ms'))"
proof -
  note call = echo_call[OF assms(1) assms(2)[unfolded submission_call] assms(3)]
  show "\<exists>r w'. submitJob jobs_json (hpc_mqss echo_amqp jobs_json example_hpc) job w = (r, w') \<and>
      mq_log (net w') = mq_log (net w) @ [MqPublish ''offload'' body 0, MqConsume ''answers'', MqReceived (Not_normal 7)] \<and>
      mQueues (net w') = mQueues (net w) \<and> mq_world (net w') = (fs, ms @ [''re '' @ body])"
    if "mq_world (net w) = (True # fs, ms)"
    using call(1)[OF that] by (simp add: submitJob_hpc[OF jobs_json_facts(1)])
  show "\<exists>r w' evs. submitJob jobs_json (hpc_mqss echo_amqp jobs_json example_hpc) job w = (r, w') \<and>
      mq_log (net w') = mq_log (net w) @ evs \<and> healthy evs \<and> mQueues (net w') = mQueues (net w) \<and>
      (\<exists>ms'. mq_world (net w') = ([], ms'))" if "mq_world (net w) = ([], ms)"
    using call(2)[OF that] by (simp add: submitJob_hpc[OF jobs_json_facts(1)] healthy_def)
qed

lemma nonzero_bodies: "list_all (\<lambda>ch. code_of ch \<noteq> 0) ''A''" "list_all (\<lambda>ch. code_of ch \<noteq> 0) ''B''"
  by simp_all

text \<open>Cancelling in the example.\<close>

lemma echo_cancel:
  assumes "mResponseQueueName example_hpc \<in> set (mQueues (net w))" "mq_world (net w) = ([], ms)"
  shows "\<exists>w'. cancelJob (hpc_mqss echo_amqp jobs_json example_hpc) (setUuid ''42'' other_job) w = (Ret (), w')"
proof -
  have x: "list_all (\<lambda>ch. code_of ch \<noteq> 0) ''X''" by simp
  have "j_dump jobs_json (Hpc_Session.request_of jobs_json example_hpc (HDel (getPath other_job @ ''/'' @ ''42''))) = Inr ''X''"
    using jobs_json_facts(4) by simp
  from echo_call(2)[OF assms(1) this x assms(2)] obtain n where
    "hpc_perform echo_amqp jobs_json example_hpc (HDel (getPath other_job @ ''/'' @ ''42'')) (net w) = (Ret None, n)" by simp
  then have "hpc_del echo_amqp jobs_json example_hpc (getPath other_job @ ''/'' @ ''42'') (net w) = (Ret (), n)"
    by (auto simp: hpc_perform.simps bind_io_def split: prod.splits outcome.splits)
  then show ?thesis
    by (simp add: cancelJob_def call_del_def hpc_mqss_def hpc_transport_def job_url_def)
qed

theorem hpc_lost_submission_misattributed_witness:
  "\<exists>w1 w2 w3. submitJob jobs_json (hpc_mqss echo_amqp jobs_json example_hpc) example_job (jobs_sys [True]) =
      (Ret (None, example_job), w1) \<and> snd (mq_world (net w1)) = [''re A''] \<and>
    submitJob jobs_json (hpc_mqss echo_amqp jobs_json example_hpc) other_job w1 =
      (Ret (Some ''42'', setUuid ''42'' other_job), w2) \<and>
    cancelJob (hpc_mqss echo_amqp jobs_json example_hpc) (setUuid ''42'' other_job) w2 = (Ret (), w3) \<and>
    MqPublish ''offload'' ''X'' 0 \<in> set (mq_log (net w3))"
proof -
  obtain ra w1 where run1: "submitJob jobs_json (hpc_mqss echo_amqp jobs_json example_hpc) example_job (jobs_sys [True]) = (ra, w1)"
    "mq_log (net w1) = mq_log (net (jobs_sys [True])) @
       [MqPublish ''offload'' ''A'' 0, MqConsume ''answers'', MqReceived (Not_normal 7)]"
    and s1: "mQueues (net w1) = mQueues (net (jobs_sys [True]))" "mq_world (net w1) = ([], [''re A''])"
    using echo_submit(1)[OF jobs_sys_facts(1) jobs_json_facts(2) nonzero_bodies(1) jobs_sys_facts(4)[of "[True]"]] by auto
  have q1: "mResponseQueueName example_hpc \<in> set (mQueues (net w1))" using jobs_sys_facts(1) s1(1) by simp
  obtain rb w2 evs ms where run2: "submitJob jobs_json (hpc_mqss echo_amqp jobs_json example_hpc) other_job w1 = (rb, w2)"
    "mq_log (net w2) = mq_log (net w1) @ evs" "healthy evs"
    and s2: "mQueues (net w2) = mQueues (net w1)" "mq_world (net w2) = ([], ms)"
    using echo_submit(2)[OF q1 jobs_json_facts(3) nonzero_bodies(2) s1(2)] by blast
  have q2: "mResponseQueueName example_hpc \<in> set (mQueues (net w2))" using q1 s2(1) by simp
  obtain w3 where run3: "cancelJob (hpc_mqss echo_amqp jobs_json example_hpc) (setUuid ''42'' other_job) w2 = (Ret (), w3)"
    using echo_cancel[OF q2 s2(2)] by blast
  have names: "offload example_hpc = ''offload''" "c_str (mResponseQueueName example_hpc) = ''answers''"
    "c_str ''A'' = ''A''" "c_str ''X'' = ''X''" by (simp_all add: example_hpc_def c_str_def)
  have l1: "mq_log (net w1) = mq_log (net (jobs_sys [True])) @ [MqPublish (offload example_hpc) (c_str ''A'') 0,
      MqConsume (c_str (mResponseQueueName example_hpc)), MqReceived (Not_normal 7)]"
    unfolding names by (rule run1(2))
  have late: "snd (mq_world (net w1)) = ''re A'' # []" using s1(2) by simp
  from hpc_lost_submission_misattributed[OF jobs_json_facts(1) echo_order jobs_sys_facts(1)
      jobs_json_facts(2,3,6) run1(1) l1 late jobs_json_facts(5) run2 jobs_json_facts(4) run3]
  show ?thesis using run1(1) run2(1) run3 late by (auto simp: names intro!: exI[of _ w1] exI[of _ w2] exI[of _ w3])
qed

end
