(* ===== verification/C_Heap.thy ===== *)
theory C_Heap
  imports Resource Job
begin

text \<open>
  The memory the C interface works on: blocks by address, with allocation that may fail, and
  undefined behaviour (a double free, the wrong kind of object behind a handle) as the value
  \<open>None\<close>. The interface \<open>allocator\<close> states what the C functions rely on; the functions of
  \<open>src/c_bindings\<close> are verified against it.
\<close>

section \<open>Memory\<close>

text \<open>
  What a block holds: integers or characters handed to C, an array of pointers (\<open>None\<close> where it
  was not written yet), or a C++ object behind an opaque handle. \<open>'c\<close> is the type of clients.
\<close>

type_synonym addr = nat

datatype 'c block =
    Ints "int option list"
  | Chars string
  | Ptrs "addr option list"
  | ResourceObj resource
  | GateObj gate
  | JobObj job
  | ResultObj job_result
  | ClientObj 'c

text \<open>
  \<open>oom k\<close> says whether the \<open>k\<close>-th allocation fails; \<open>zero_null\<close> is the choice the C standard
  leaves to \<open>malloc(0)\<close>: \<open>NULL\<close>, or a pointer that can be freed.
\<close>

record 'c heap =
  blocks :: "addr \<Rightarrow> 'c block option"
  next_addr :: addr
  allocations :: nat
  oom :: "nat \<Rightarrow> bool"
  zero_null :: bool

definition heap_ok :: "'c heap \<Rightarrow> bool" where
  "heap_ok h \<longleftrightarrow> 0 < next_addr h \<and> (\<forall>a. a = 0 \<or> next_addr h \<le> a \<longrightarrow> blocks h a = None)"

definition malloc :: "nat \<Rightarrow> 'c block \<Rightarrow> 'c heap \<Rightarrow> addr \<times> 'c heap" where
  "malloc bytes b h =
     (let h1 = h\<lparr>allocations := allocations h + 1\<rparr> in
      if oom h (allocations h) \<or> (bytes = 0 \<and> zero_null h) then (0, h1)
      else (next_addr h, h1\<lparr>blocks := (blocks h)(next_addr h \<mapsto> b), next_addr := next_addr h + 1\<rparr>))"

definition free :: "addr \<Rightarrow> 'c heap \<Rightarrow> 'c heap option" where
  "free a h =
     (if a = 0 then Some h
      else case blocks h a of
        None \<Rightarrow> None
      | Some b \<Rightarrow> Some (h\<lparr>blocks := (blocks h)(a := None)\<rparr>))"

text \<open>A store into a block that exists.\<close>

definition write_block :: "addr \<Rightarrow> 'c block \<Rightarrow> 'c heap \<Rightarrow> 'c heap option" where
  "write_block a b h =
     (case blocks h a of None \<Rightarrow> None | Some old \<Rightarrow> Some (h\<lparr>blocks := (blocks h)(a \<mapsto> b)\<rparr>))"

text \<open>\<open>new T(...)\<close> throws \<open>std::bad_alloc\<close> where \<open>malloc\<close> would return \<open>NULL\<close>; no object has
  size 0.\<close>

definition new_obj :: "'c block \<Rightarrow> 'c heap \<Rightarrow> addr result \<times> 'c heap" where
  "new_obj b h = (case malloc 1 b h of (a, h') \<Rightarrow> (if a = 0 then Inl Bad_alloc else Inr a, h'))"

section \<open>The interface\<close>

locale allocator =
  fixes alloc :: "nat \<Rightarrow> 'b \<Rightarrow> 'h \<Rightarrow> nat \<times> 'h"
    and dealloc :: "nat \<Rightarrow> 'h \<Rightarrow> 'h option"
    and contents :: "'h \<Rightarrow> nat \<Rightarrow> 'b option"
    and ok :: "'h \<Rightarrow> bool"
  assumes alloc_null: "ok h \<Longrightarrow> alloc n b h = (0, h') \<Longrightarrow> contents h' = contents h \<and> ok h'"
    and alloc_fresh: "ok h \<Longrightarrow> alloc n b h = (a, h') \<Longrightarrow> a \<noteq> 0 \<Longrightarrow>
      contents h a = None \<and> contents h' = (contents h)(a \<mapsto> b) \<and> ok h'"
    and dealloc_null: "dealloc 0 h = Some h"
    and dealloc_block: "ok h \<Longrightarrow> contents h a = Some b \<Longrightarrow>
      \<exists>h'. dealloc a h = Some h' \<and> contents h' = (contents h)(a := None) \<and> ok h'"
    and null_free: "ok h \<Longrightarrow> contents h 0 = None"
begin

text \<open>What was just allocated can be freed, and then nothing has changed.\<close>

lemma alloc_dealloc:
  assumes "ok h" "alloc n b h = (a, h')"
  shows "\<exists>h''. dealloc a h' = Some h'' \<and> contents h'' = contents h \<and> ok h''"
proof (cases "a = 0")
  case True
  with assms show ?thesis using alloc_null dealloc_null by blast
next
  case False
  from alloc_fresh[OF assms False] have f: "contents h a = None"
    "contents h' = (contents h)(a \<mapsto> b)" "ok h'" by auto
  then obtain h'' where "dealloc a h' = Some h''" "contents h'' = (contents h')(a := None)" "ok h''"
    using dealloc_block[of h' a b] by auto
  with f show ?thesis by (auto simp: fun_eq_iff)
qed

text \<open>Freeing a list of distinct blocks removes exactly these.\<close>

fun dealloc_all :: "nat list \<Rightarrow> 'h \<Rightarrow> 'h option" where
  "dealloc_all [] h = Some h"
| "dealloc_all (a # as) h = (case dealloc a h of None \<Rightarrow> None | Some h' \<Rightarrow> dealloc_all as h')"

lemma dealloc_all:
  assumes "ok h" "distinct as" "\<forall>a \<in> set as. contents h a \<noteq> None"
  shows "\<exists>h'. dealloc_all as h = Some h' \<and> ok h' \<and>
    contents h' = (\<lambda>a. if a \<in> set as then None else contents h a)"
  using assms
proof (induction as arbitrary: h)
  case (Cons a as)
  then obtain b where "contents h a = Some b" by auto
  with Cons.prems(1) obtain h1 where h1: "dealloc a h = Some h1"
    "contents h1 = (contents h)(a := None)" "ok h1"
    using dealloc_block by blast
  from Cons.prems(2,3) h1(2) have "distinct as" "\<forall>x \<in> set as. contents h1 x \<noteq> None" by auto
  from Cons.IH[OF h1(3) this] obtain h' where "dealloc_all as h1 = Some h'" "ok h'"
    "contents h' = (\<lambda>x. if x \<in> set as then None else contents h1 x)" by blast
  with h1 show ?case by (auto simp: fun_eq_iff)
qed auto

end

lemma malloc_cases:
  assumes "malloc n b h = (a, h')"
  obtains "a = 0" "blocks h' = blocks h" "next_addr h' = next_addr h"
  | "a = next_addr h" "blocks h' = (blocks h)(a \<mapsto> b)" "next_addr h' = next_addr h + 1"
proof (cases "oom h (allocations h) \<or> (n = 0 \<and> zero_null h)")
  case True
  with assms have "a = 0" "h' = h\<lparr>allocations := allocations h + 1\<rparr>"
    by (simp_all add: malloc_def Let_def)
  with that(1) show thesis by simp
next
  case False
  with assms have "a = next_addr h" "blocks h' = (blocks h)(next_addr h \<mapsto> b)"
    "next_addr h' = next_addr h + 1"
    by (auto simp: malloc_def Let_def)
  with that(2) show thesis by simp
qed

lemma malloc_null:
  "heap_ok h \<Longrightarrow> malloc n b h = (0, h') \<Longrightarrow> blocks h' = blocks h \<and> heap_ok h'"
  by (erule malloc_cases) (simp_all add: heap_ok_def)

lemma malloc_fresh:
  assumes "heap_ok h" "malloc n b h = (a, h')" "a \<noteq> 0"
  shows "blocks h a = None \<and> blocks h' = (blocks h)(a \<mapsto> b) \<and> heap_ok h'"
  using assms(2,1,3) by (cases rule: malloc_cases) (simp_all add: heap_ok_def)

lemma free_block:
  assumes "heap_ok h" "blocks h a = Some b"
  shows "\<exists>h'. free a h = Some h' \<and> blocks h' = (blocks h)(a := None) \<and> heap_ok h'"
proof -
  have "blocks h 0 = None" using assms(1) by (simp add: heap_ok_def)
  with assms(2) have "a \<noteq> 0" by (cases "a = 0") simp_all
  with assms show ?thesis by (simp add: free_def heap_ok_def)
qed

interpretation mem: allocator malloc free blocks heap_ok
proof
  show "free 0 h = Some h" for h :: "'a heap"
    by (simp add: free_def)
  show "blocks h 0 = None" if "heap_ok h" for h :: "'a heap"
    using that by (simp add: heap_ok_def)
qed (fact malloc_null malloc_fresh free_block)+

lemma live_nonzero: "heap_ok h \<Longrightarrow> blocks h a = Some b \<Longrightarrow> a \<noteq> 0"
  using mem.null_free[of h] by (cases "a = 0") simp_all

lemma new_obj_cases:
  assumes "heap_ok h" "new_obj b h = (r, h')"
  obtains "r = Inl Bad_alloc" "blocks h' = blocks h" "heap_ok h'"
  | a where "r = Inr a" "a \<noteq> 0" "blocks h a = None" "blocks h' = (blocks h)(a \<mapsto> b)" "heap_ok h'"
proof -
  obtain a h1 where m: "malloc 1 b h = (a, h1)" by fastforce
  with assms(2) have r: "r = (if a = 0 then Inl Bad_alloc else Inr a)" "h' = h1"
    by (auto simp: new_obj_def)
  show thesis
  proof (cases "a = 0")
    case True
    with that(1) r m mem.alloc_null[OF assms(1)] show thesis by auto
  next
    case False
    with that(2)[of a] r mem.alloc_fresh[OF assms(1) m] show thesis by auto
  qed
qed

lemma write_block_blocks:
  "blocks h a = Some old \<Longrightarrow> heap_ok h \<Longrightarrow>
     \<exists>h'. write_block a b h = Some h' \<and> blocks h' = (blocks h)(a \<mapsto> b) \<and> heap_ok h'"
  by (auto simp: write_block_def heap_ok_def)

section \<open>An array of new objects\<close>

text \<open>
  The loop that fills an array of handles, \<open>array[i] = wrap(new T(...))\<close>: it stops at the first
  \<open>std::bad_alloc\<close>.
\<close>

fun fill_objs :: "'c block list \<Rightarrow> nat \<Rightarrow> addr \<Rightarrow> 'c heap \<Rightarrow> (unit result \<times> 'c heap) option" where
  "fill_objs [] i arr h = Some (Inr (), h)"
| "fill_objs (b # bs) i arr h =
     (case new_obj b h of
        (Inl e, h1) \<Rightarrow> Some (Inl e, h1)
      | (Inr a, h1) \<Rightarrow>
          (case blocks h1 arr of
             Some (Ptrs ps) \<Rightarrow>
               (case write_block arr (Ptrs (ps[i := Some a])) h1 of
                  None \<Rightarrow> None
                | Some h2 \<Rightarrow> fill_objs bs (i + 1) arr h2)
           | _ \<Rightarrow> None))"

text \<open>What such a loop keeps, and what it has made when it ends.\<close>

definition keeps :: "'c heap \<Rightarrow> 'c heap \<Rightarrow> addr set \<Rightarrow> bool" where
  "keeps h h' A \<longleftrightarrow> heap_ok h' \<and> (\<forall>a. a \<notin> A \<and> blocks h a \<noteq> None \<longrightarrow> blocks h' a = blocks h a)"

definition objs_at :: "'c heap \<Rightarrow> 'c heap \<Rightarrow> addr \<Rightarrow> addr list \<Rightarrow> 'c block list \<Rightarrow> bool" where
  "objs_at h h' arr as bs \<longleftrightarrow> distinct as \<and> (\<forall>a \<in> set as. blocks h a = None) \<and>
     (\<forall>a. a \<noteq> arr \<and> a \<notin> set as \<longrightarrow> blocks h' a = blocks h a) \<and>
     list_all2 (\<lambda>a b. blocks h' a = Some b) as bs"

lemma fill_objs_cases:
  assumes "heap_ok h" "blocks h arr = Some (Ptrs ps)" "length ps = i + length gs"
  shows "\<exists>r h'. fill_objs gs i arr h = Some (r, h') \<and> keeps h h' {arr} \<and>
    (r = Inl Bad_alloc \<or> r = Inr () \<and> (\<exists>as. objs_at h h' arr as gs \<and>
       blocks h' arr = Some (Ptrs (take i ps @ map Some as))))"
  using assms
proof (induction gs arbitrary: i h ps)
  case Nil
  then show ?case by (auto simp: keeps_def objs_at_def)
next
  case (Cons g gs)
  obtain r h1 where n: "new_obj (g) h = (r, h1)" by fastforce
  from Cons.prems(1) n show ?case
  proof (cases rule: new_obj_cases)
    case 1
    with n show ?thesis by (auto simp: keeps_def)
  next
    case (2 a)
    with Cons.prems(2) have arr: "a \<noteq> arr" "blocks h1 arr = Some (Ptrs ps)" by auto
    then obtain h2 where w: "write_block arr (Ptrs (ps[i := Some a])) h1 = Some h2"
      "blocks h2 = (blocks h1)(arr \<mapsto> Ptrs (ps[i := Some a]))" "heap_ok h2"
      using write_block_blocks[of h1 arr] 2(5) by blast
    obtain r' h' where ih: "fill_objs gs (i + 1) arr h2 = Some (r', h')" "keeps h2 h' {arr}"
      "r' = Inl Bad_alloc \<or> r' = Inr () \<and> (\<exists>as. objs_at h2 h' arr as gs \<and>
         blocks h' arr = Some (Ptrs (take (i + 1) (ps[i := Some a]) @ map Some as)))"
      using Cons.IH[of h2 "ps[i := Some a]" "i + 1"] w Cons.prems(3) by auto
    have e: "fill_objs (g # gs) i arr h = Some (r', h')"
      using n 2(1) arr w(1) ih(1) by simp
    have k: "keeps h h' {arr}"
      using ih(2) w(2) 2(3,4) unfolding keeps_def by (auto split: if_splits)
    have "r' = Inl Bad_alloc \<or> r' = Inr () \<and> (\<exists>as. objs_at h h' arr as (g # gs) \<and>
         blocks h' arr = Some (Ptrs (take i ps @ map Some as)))"
    proof (cases "r' = Inr ()")
      case True
      with ih(3) obtain as where as: "objs_at h2 h' arr as gs"
        "blocks h' arr = Some (Ptrs (take (i + 1) (ps[i := Some a]) @ map Some as))" by auto
      have "i < length ps" using Cons.prems(3) by simp
      then have "take (i + 1) (ps[i := Some a]) = take i ps @ [Some a]"
        by (simp add: take_Suc_conv_app_nth)
      with as(2) have arr': "blocks h' arr = Some (Ptrs (take i ps @ map Some (a # as)))" by simp
      have "blocks h2 a = Some (g)" using w(2) arr(1) 2(4) by simp
      with as(1) ih(2) arr(1) 2(3,4) w(2) have "objs_at h h' arr (a # as) (g # gs)"
        by (auto simp: objs_at_def keeps_def split: if_splits)
      with arr' True show ?thesis by blast
    qed (use ih(3) in auto)
    with e k show ?thesis by blast
  qed
qed

end
