(* ===== verification/C_Resource.thy ===== *)
theory C_Resource
  imports C_Heap
begin

text \<open>
  \<open>src/c_bindings/resource.cpp\<close>: what a C caller gets of a resource and of a gate. Out
  parameters are the fields of a record, the caller's variables; which of the pointers to them
  are not \<open>NULL\<close> is a list of Booleans in the order of the parameters.
\<close>

section \<open>Flattening a table\<close>

text \<open>The inner loop, \<open>result[index++] = static_cast<int>(value)\<close>, and the outer one.\<close>

fun fill_row :: "('a \<Rightarrow> int) \<Rightarrow> 'a list \<Rightarrow> nat \<Rightarrow> int option list \<Rightarrow> nat \<times> int option list" where
  "fill_row to_int [] index result = (index, result)"
| "fill_row to_int (v # row) index result =
     fill_row to_int row (index + 1) (result[index := Some (to_int v)])"

fun fill_rows :: "('a \<Rightarrow> int) \<Rightarrow> 'a list list \<Rightarrow> nat \<Rightarrow> int option list \<Rightarrow> int option list" where
  "fill_rows to_int [] index result = result"
| "fill_rows to_int (row # rows) index result =
     (case fill_row to_int row index result of
        (index', result') \<Rightarrow> fill_rows to_int rows index' result')"

text \<open>\<open>sizeof(int)\<close> is 4; the count is stored in an \<open>unsigned int\<close>.\<close>

definition flatten2D ::
  "('a \<Rightarrow> int) \<Rightarrow> 'a list list \<Rightarrow> bool \<Rightarrow> u32 \<Rightarrow> 'c heap \<Rightarrow> ((addr \<times> u32) \<times> 'c heap) option" where
  "flatten2D to_int input count_given count h =
     (if \<not> count_given then Some ((0, count), h)
      else
        let total = sum_list (map length input);
            (result, h1) = malloc (total * 4) (Ints (replicate total None)) h
        in if result = 0 then Some ((0, count), h1)
           else case write_block result (Ints (fill_rows to_int input 0 (replicate total None))) h1 of
             None \<Rightarrow> None
           | Some h2 \<Rightarrow> Some ((result, word_of_nat total), h2))"

section \<open>A resource\<close>

record info_out =
  out_name :: addr
  out_qubitCount :: u32
  out_online :: bool
  out_couplingMap :: addr
  out_couplingMapSize :: u32
  out_nativeGateset :: addr
  out_gateCount :: u32

text \<open>Two calls of \<open>free\<close> in a row.\<close>

definition free2 :: "addr \<Rightarrow> addr \<Rightarrow> 'c heap \<Rightarrow> 'c heap option" where
  "free2 a b h = (case free a h of None \<Rightarrow> None | Some h' \<Rightarrow> free b h')"

text \<open>
  \<open>junk\<close> is what a failed \<open>asprintf\<close> leaves in \<open>*name\<close>, which is undefined.
\<close>

definition info_gates ::
  "gate list \<Rightarrow> addr \<Rightarrow> addr \<Rightarrow> info_out \<Rightarrow> 'c heap \<Rightarrow> ((int result \<times> info_out) \<times> 'c heap) option" where
  "info_gates gates name couplingMap out h =
     (let (nativeGateset, h1) = malloc (length gates * 8) (Ptrs (replicate (length gates) None)) h;
          out1 = out\<lparr>out_gateCount := word_of_nat (length gates),
                     out_nativeGateset := nativeGateset\<rparr>
      in if nativeGateset = 0 then
           (case free2 couplingMap name h1 of
              None \<Rightarrow> None
            | Some h2 \<Rightarrow> Some ((Inr (- 5), out1\<lparr>out_couplingMap := 0, out_name := 0\<rparr>), h2))
         else
           (case fill_objs (map GateObj gates) 0 nativeGateset h1 of
              None \<Rightarrow> None
            | Some (Inl e, h2) \<Rightarrow> Some ((Inl e, out1), h2)
            | Some (Inr u, h2) \<Rightarrow> Some ((Inr 0, out1), h2)))"

definition info_map ::
  "resource \<Rightarrow> addr \<Rightarrow> info_out \<Rightarrow> 'c heap \<Rightarrow> ((int result \<times> info_out) \<times> 'c heap) option" where
  "info_map r name out h =
     (case flatten2D (\<lambda>i. i) (res_mCouplingMap r) True (out_couplingMapSize out) h of
        None \<Rightarrow> None
      | Some ((couplingMap, count), h1) \<Rightarrow>
          let out1 = out\<lparr>out_couplingMap := couplingMap, out_couplingMapSize := count\<rparr>
          in if couplingMap = 0 then
               (case free name h1 of
                  None \<Rightarrow> None
                | Some h2 \<Rightarrow> Some ((Inr (- 4), out1\<lparr>out_name := 0\<rparr>), h2))
             else info_gates (res_mNativeGateset r) name couplingMap out1 h1)"

definition MQSSClientResourceGetInfo ::
  "addr \<Rightarrow> bool list \<Rightarrow> addr \<Rightarrow> info_out \<Rightarrow> 'c heap \<Rightarrow> ((int result \<times> info_out) \<times> 'c heap) option" where
  "MQSSClientResourceGetInfo resource given junk out h =
     (if \<not> list_all id given then Some ((Inr (- 1), out), h)
      else if resource = 0 then Some ((Inr (- 2), out), h)
      else case blocks h resource of
        Some (ResourceObj r) \<Rightarrow>
          (let text = c_str (res_mName r);
               (name, h1) = malloc (length text + 1) (Chars text) h
           in if name = 0 then Some ((Inr (- 3), out\<lparr>out_name := junk\<rparr>), h1)
              else info_map r name (out\<lparr>out_name := name, out_qubitCount := res_mQubitCount r,
                     out_online := res_mOnline r\<rparr>) h1)
      | _ \<Rightarrow> None)"

section \<open>A gate\<close>

record gate_out =
  gout_name :: addr
  gout_qubitNumber :: u32
  gout_parameterNumber :: u32
  gout_supportedQubits :: addr
  gout_supportedQubitCount :: u32

definition MQSSClientResourceGetGateInfo ::
  "addr \<Rightarrow> bool list \<Rightarrow> gate_out \<Rightarrow> 'c heap \<Rightarrow> ((int \<times> gate_out) \<times> 'c heap) option" where
  "MQSSClientResourceGetGateInfo gate given out h =
     (if gate = 0 \<or> \<not> list_all id given then Some ((- 1, out), h)
      else case blocks h gate of
        Some (GateObj g) \<Rightarrow>
          (let (name, h1) = malloc (length (gate_mName g) + 1) (Chars (gate_mName g)) h;
               out1 = out\<lparr>gout_name := name\<rparr>
           in if name = 0 then Some ((- 2, out1), h1)
              else
                let out2 = out1\<lparr>gout_qubitNumber := gate_mQubitNumber g,
                                gout_parameterNumber := gate_mParameterNumber g\<rparr>
                in case flatten2D (\<lambda>n. sint (n :: u32)) (gate_mSupportedQubits g) True
                       (gout_supportedQubitCount out) h1 of
                     None \<Rightarrow> None
                   | Some ((qubits, count), h2) \<Rightarrow>
                       let out3 = out2\<lparr>gout_supportedQubits := qubits, gout_supportedQubitCount := count\<rparr>
                       in if qubits = 0 then
                            (case free name h2 of
                               None \<Rightarrow> None
                             | Some h3 \<Rightarrow> Some ((- 2, out3\<lparr>gout_name := 0\<rparr>), h3))
                          else Some ((0, out3), h2))
      | _ \<Rightarrow> None)"

section \<open>The loops\<close>

lemma fill_row_fst: "fst (fill_row f row i result) = i + length row"
  by (induction f row i result rule: fill_row.induct) simp_all

lemma fill_row_result:
  "i + length row \<le> length result \<Longrightarrow>
     snd (fill_row f row i result) =
       take i result @ map (\<lambda>v. Some (f v)) row @ drop (i + length row) result"
proof (induction f row i result rule: fill_row.induct)
  case (2 f v row i result)
  then have "i < length result" by simp
  with 2 show ?case
    by (simp add: take_Suc_conv_app_nth)
qed simp

lemma fill_rows_result:
  "i + sum_list (map length rows) \<le> length result \<Longrightarrow>
     fill_rows f rows i result =
       take i result @ map (\<lambda>v. Some (f v)) (concat rows) @
       drop (i + sum_list (map length rows)) result"
proof (induction f rows i result rule: fill_rows.induct)
  case (2 f row rows i result)
  let ?r = "snd (fill_row f row i result)"
  have r: "?r = take i result @ map (\<lambda>v. Some (f v)) row @ drop (i + length row) result"
    by (rule fill_row_result) (use 2(2) in simp)
  have p: "fill_row f row i result = (i + length row, ?r)"
    by (metis fill_row_fst prod.collapse)
  have len: "length ?r = length result" unfolding r using 2(2) by simp
  have "fill_rows f rows (i + length row) ?r =
      take (i + length row) ?r @ map (\<lambda>v. Some (f v)) (concat rows) @
      drop (i + length row + sum_list (map length rows)) ?r"
    by (rule 2(1)[OF p[symmetric]]) (use 2(2) len in simp)
  moreover have "take (i + length row) ?r = take i result @ map (\<lambda>v. Some (f v)) row"
    unfolding r using 2(2) by simp
  moreover have "drop (i + length row + sum_list (map length rows)) ?r =
      drop (i + sum_list (map length (row # rows))) result"
  proof -
    have e: "i + sum_list (map length (row # rows)) = i + length row + sum_list (map length rows)"
      by simp
    show ?thesis unfolding r e using 2(2) by (simp add: add_ac)
  qed
  ultimately show ?case by (subst fill_rows.simps, subst p) simp
qed simp

lemma fill_rows_all:
  "fill_rows f rows 0 (replicate (sum_list (map length rows)) None) = map (\<lambda>v. Some (f v)) (concat rows)"
  using fill_rows_result[of 0 rows "replicate (sum_list (map length rows)) None" f] by simp

text \<open>The table in one block, in row order, or nothing at all.\<close>

lemma flatten2D_cases:
  assumes "heap_ok h"
  obtains h' where "flatten2D f input True count h = Some ((0, count), h')"
    "blocks h' = blocks h" "heap_ok h'"
  | a h' where "flatten2D f input True count h = Some ((a, word_of_nat (length (concat input))), h')"
    "a \<noteq> 0" "blocks h a = None" "heap_ok h'"
    "blocks h' = (blocks h)(a \<mapsto> Ints (map (\<lambda>v. Some (f v)) (concat input)))"
proof -
  let ?total = "sum_list (map length input)"
  obtain a h1 where m: "malloc (?total * 4) (Ints (replicate ?total None)) h = (a, h1)" by fastforce
  show thesis
  proof (cases "a = 0")
    case True
    with that(1)[of h1] m mem.alloc_null[OF assms] show thesis
      by (simp add: flatten2D_def Let_def)
  next
    case False
    from mem.alloc_fresh[OF assms m False] have f: "blocks h a = None"
      "blocks h1 = (blocks h)(a \<mapsto> Ints (replicate ?total None))" "heap_ok h1" by auto
    then obtain h2 where w: "write_block a (Ints (map (\<lambda>v. Some (f v)) (concat input))) h1 = Some h2"
      "blocks h2 = (blocks h1)(a \<mapsto> Ints (map (\<lambda>v. Some (f v)) (concat input)))" "heap_ok h2"
      using write_block_blocks[of h1 a] by fastforce
    show thesis
      by (rule that(2)[of a h2])
        (use m w f False in \<open>simp_all add: flatten2D_def Let_def fill_rows_all length_concat\<close>)
  qed
qed

lemma free2_blocks:
  assumes "heap_ok h" "blocks h a = Some x" "blocks h b = Some y" "a \<noteq> b"
  shows "\<exists>h'. free2 a b h = Some h' \<and> heap_ok h' \<and> blocks h' = (blocks h)(a := None, b := None)"
proof -
  from mem.dealloc_block[OF assms(1,2)] obtain h1 where h1: "free a h = Some h1"
    "blocks h1 = (blocks h)(a := None)" "heap_ok h1" by blast
  with assms(3,4) mem.dealloc_block[of h1 b y] obtain h2 where "free b h1 = Some h2"
    "blocks h2 = (blocks h1)(b := None)" "heap_ok h2" by auto
  with h1 show ?thesis by (simp add: free2_def)
qed

section \<open>Reading a resource\<close>

text \<open>What a successful call hands over: every out parameter, and the blocks behind them.\<close>

definition info_delivered :: "resource \<Rightarrow> 'c heap \<Rightarrow> info_out \<Rightarrow> 'c heap \<Rightarrow> bool" where
  "info_delivered r h out h' \<longleftrightarrow>
     blocks h' (out_name out) = Some (Chars (c_str (res_mName r))) \<and>
     out_qubitCount out = res_mQubitCount r \<and> out_online out = res_mOnline r \<and>
     blocks h' (out_couplingMap out) = Some (Ints (map Some (concat (res_mCouplingMap r)))) \<and>
     out_couplingMapSize out = word_of_nat (length (concat (res_mCouplingMap r))) \<and>
     out_gateCount out = word_of_nat (length (res_mNativeGateset r)) \<and>
     (\<exists>as. blocks h' (out_nativeGateset out) = Some (Ptrs (map Some as)) \<and>
        list_all2 (\<lambda>a g. blocks h' a = Some (GateObj g)) as (res_mNativeGateset r) \<and>
        distinct (out_name out # out_couplingMap out # out_nativeGateset out # as) \<and>
        (\<forall>a \<in> set (out_name out # out_couplingMap out # out_nativeGateset out # as). blocks h a = None) \<and>
        (\<forall>a. a \<notin> set (out_name out # out_couplingMap out # out_nativeGateset out # as) \<longrightarrow>
           blocks h' a = blocks h a))"

lemma info_delivered_keeps:
  assumes "info_delivered r h out h'" "blocks h a \<noteq> None"
  shows "blocks h' a = blocks h a"
proof -
  from assms(1) obtain as where
    "\<forall>a \<in> set (out_name out # out_couplingMap out # out_nativeGateset out # as). blocks h a = None"
    "\<forall>a. a \<notin> set (out_name out # out_couplingMap out # out_nativeGateset out # as) \<longrightarrow>
       blocks h' a = blocks h a" unfolding info_delivered_def by blast
  with assms(2) show ?thesis
    by (cases "a \<in> set (out_name out # out_couplingMap out # out_nativeGateset out # as)") auto
qed

text \<open>
  How a call can end that began in \<open>h\<close>: with everything delivered, with an error code and
  the memory as before, or with an exception of \<open>new\<close>.
\<close>

definition info_end ::
  "resource \<Rightarrow> 'c heap \<Rightarrow> ((int result \<times> info_out) \<times> 'c heap) option \<Rightarrow> bool" where
  "info_end r h x \<longleftrightarrow> (\<exists>res out' h'. x = Some ((res, out'), h') \<and> heap_ok h' \<and>
     (res = Inr 0 \<and> info_delivered r h out' h' \<or>
      res \<in> {Inr (- 3), Inr (- 4), Inr (- 5)} \<and> blocks h' = blocks h \<or>
      res = Inl Bad_alloc))"

text \<open>The state when the loop over the gates ends.\<close>

lemma gates_delivered:
  assumes f: "blocks h2 gs = None" "blocks h3 = (blocks h2)(gs \<mapsto> Ptrs ps)"
    and as: "objs_at h3 h4 gs as (map GateObj (res_mNativeGateset r))" "blocks h4 gs = Some (Ptrs (map Some as))"
    and nc: "blocks h4 name = Some (Chars (c_str (res_mName r)))"
      "blocks h4 cm = Some (Ints (map Some (concat (res_mCouplingMap r))))"
    and h: "blocks h name = None" "blocks h cm = None" "cm \<noteq> name"
    and h2: "blocks h2 = (blocks h)(name \<mapsto> Chars (c_str (res_mName r)),
      cm \<mapsto> Ints (map Some (concat (res_mCouplingMap r))))"
    and out: "out_name out = name" "out_couplingMap out = cm" "out_qubitCount out = res_mQubitCount r"
      "out_online out = res_mOnline r"
      "out_couplingMapSize out = word_of_nat (length (concat (res_mCouplingMap r)))"
  shows "info_delivered r h (out\<lparr>out_gateCount := word_of_nat (length (res_mNativeGateset r)), out_nativeGateset := gs\<rparr>) h4"
proof -
  from as(1) have o: "distinct as" "\<forall>a \<in> set as. blocks h3 a = None"
    "\<forall>a. a \<noteq> gs \<and> a \<notin> set as \<longrightarrow> blocks h4 a = blocks h3 a"
    "list_all2 (\<lambda>a g. blocks h4 a = Some (GateObj g)) as (res_mNativeGateset r)"
    by (simp_all add: objs_at_def list_all2_map2)
  have ne: "gs \<noteq> name" "gs \<noteq> cm" using f(1) h2 h(3) by (auto split: if_splits)
  have "blocks h3 name \<noteq> None" "blocks h3 cm \<noteq> None" "blocks h3 gs \<noteq> None"
    using f(2) h2 by auto
  then have d: "distinct (name # cm # gs # as)" using o(1,2) ne h(3) by auto
  have "blocks h a = None" if "a \<in> set as" for a
    using o(2) that f(2) h2 by (metis fun_upd_apply option.distinct(1))
  moreover have "blocks h gs = None" using f(1) h2 ne by simp
  moreover have "blocks h4 a = blocks h a" if "a \<notin> set (name # cm # gs # as)" for a
    using o(3) that f(2) h2 by auto
  ultimately show ?thesis
    using nc as(2) o(4) d out h(1,2) unfolding info_delivered_def
    by (intro conjI exI[of _ as]) simp_all
qed

lemma info_gates_end:
  assumes h: "heap_ok h" "blocks h name = None" "blocks h cm = None" "cm \<noteq> name"
    and h2: "heap_ok h2" "blocks h2 = (blocks h)(name \<mapsto> Chars (c_str (res_mName r)),
      cm \<mapsto> Ints (map Some (concat (res_mCouplingMap r))))"
    and out: "out_name out = name" "out_couplingMap out = cm" "out_qubitCount out = res_mQubitCount r"
      "out_online out = res_mOnline r"
      "out_couplingMapSize out = word_of_nat (length (concat (res_mCouplingMap r)))"
  shows "info_end r h (info_gates (res_mNativeGateset r) name cm out h2)"
proof -
  let ?gates = "res_mNativeGateset r"
  obtain gs h3 where m: "malloc (length ?gates * 8) (Ptrs (replicate (length ?gates) None)) h2 = (gs, h3)"
    by fastforce
  show ?thesis
  proof (cases "gs = 0")
    case True
    with mem.alloc_null[OF h2(1)] m have h3: "blocks h3 = blocks h2" "heap_ok h3" by auto
    with free2_blocks[OF h3(2), of cm _ name] h2(2) h(4) obtain h4 where
      "free2 cm name h3 = Some h4" "heap_ok h4" "blocks h4 = (blocks h2)(cm := None, name := None)"
      by auto
    with m True h h2(2) show ?thesis by (auto simp: info_gates_def info_end_def fun_eq_iff)
  next
    case False
    from mem.alloc_fresh[OF h2(1) m False] have f: "blocks h2 gs = None"
      "blocks h3 = (blocks h2)(gs \<mapsto> Ptrs (replicate (length ?gates) None))" "heap_ok h3" by auto
    then obtain res h4 where fg: "fill_objs (map GateObj ?gates) 0 gs h3 = Some (res, h4)" "keeps h3 h4 {gs}"
      "res = Inl Bad_alloc \<or> res = Inr () \<and> (\<exists>as. objs_at h3 h4 gs as (map GateObj ?gates) \<and>
         blocks h4 gs = Some (Ptrs (map Some as)))"
      using fill_objs_cases[of h3 gs "replicate (length ?gates) None" 0 "map GateObj ?gates"] by auto
    have ne: "gs \<noteq> name" "gs \<noteq> cm" using f(1) h2(2) h(4) by (auto split: if_splits)
    have old: "blocks h4 a = blocks h3 a" if "a \<noteq> gs" "blocks h3 a \<noteq> None" for a
      using fg(2) that by (simp add: keeps_def)
    have nc: "blocks h4 name = Some (Chars (c_str (res_mName r)))"
      "blocks h4 cm = Some (Ints (map Some (concat (res_mCouplingMap r))))"
      using old[of name] old[of cm] ne h(4) h2(2) f(2) by auto
    note complete = gates_delivered[OF f(1,2) _ _ nc h(2-4) h2(2) out]
    from fg(3) have "res = Inl Bad_alloc \<or> res = Inr () \<and>
      info_delivered r h (out\<lparr>out_gateCount := word_of_nat (length ?gates), out_nativeGateset := gs\<rparr>) h4"
      using complete by blast
    with m False fg(1,2) show ?thesis by (auto simp: info_gates_def info_end_def keeps_def)
  qed
qed

lemma ResourceGetInfo_end:
  assumes ok: "heap_ok h" and r: "blocks h resource = Some (ResourceObj r)" and given: "list_all id given"
  shows "info_end r h (MQSSClientResourceGetInfo resource given junk out h)"
proof -
  have r0: "resource \<noteq> 0" using r mem.null_free[OF ok] by (cases "resource = 0") auto
  let ?text = "c_str (res_mName r)" and ?map = "res_mCouplingMap r"
  obtain name h1 where m: "malloc (length ?text + 1) (Chars ?text) h = (name, h1)" by fastforce
  show ?thesis
  proof (cases "name = 0")
    case True
    with m mem.alloc_null[OF ok] r0 r given show ?thesis
      by (simp add: MQSSClientResourceGetInfo_def info_end_def)
  next
    case n0: False
    from mem.alloc_fresh[OF ok m n0] have f: "blocks h name = None"
      "blocks h1 = (blocks h)(name \<mapsto> Chars ?text)" "heap_ok h1" by auto
    let ?out = "out\<lparr>out_name := name, out_qubitCount := res_mQubitCount r, out_online := res_mOnline r\<rparr>"
    have "info_end r h (info_map r name ?out h1)"
    proof (rule flatten2D_cases[OF f(3), of "\<lambda>i. i" ?map "out_couplingMapSize ?out"])
      fix h2 assume fl: "flatten2D (\<lambda>i. i) ?map True (out_couplingMapSize ?out) h1 =
          Some ((0, out_couplingMapSize ?out), h2)" "blocks h2 = blocks h1" "heap_ok h2"
      from mem.dealloc_block[OF fl(3), of name] fl(2) f(2) obtain h3 where
        "free name h2 = Some h3" "blocks h3 = (blocks h1)(name := None)" "heap_ok h3" by auto
      with fl f show ?thesis by (auto simp: info_map_def info_end_def fun_eq_iff)
    next
      fix cm h2 assume fl: "flatten2D (\<lambda>i. i) ?map True (out_couplingMapSize ?out) h1 =
          Some ((cm, word_of_nat (length (concat ?map))), h2)" "cm \<noteq> 0" "blocks h1 cm = None"
        "heap_ok h2" "blocks h2 = (blocks h1)(cm \<mapsto> Ints (map (\<lambda>v. Some v) (concat ?map)))"
      have "cm \<noteq> name" "blocks h cm = None" using fl(3) f(2) by (auto split: if_splits)
      with fl f show ?thesis
        by (auto simp: info_map_def intro!: info_gates_end[OF ok f(1)])
    qed
    with m n0 r0 r given show ?thesis by (simp add: MQSSClientResourceGetInfo_def)
  qed
qed

lemma GetGateInfo_cases:
  assumes ok: "heap_ok h" and g: "blocks h gate = Some (GateObj g)" and given: "list_all id given"
  shows "\<exists>code out' h'. MQSSClientResourceGetGateInfo gate given out h = Some ((code, out'), h') \<and>
    heap_ok h' \<and>
    (code = 0 \<and> gout_qubitNumber out' = gate_mQubitNumber g \<and>
       gout_parameterNumber out' = gate_mParameterNumber g \<and>
       gout_supportedQubitCount out' = word_of_nat (length (concat (gate_mSupportedQubits g))) \<and>
       blocks h' = (blocks h)(gout_name out' \<mapsto> Chars (gate_mName g),
         gout_supportedQubits out' \<mapsto> Ints (map (\<lambda>n. Some (sint n)) (concat (gate_mSupportedQubits g)))) \<and>
       gout_name out' \<noteq> gout_supportedQubits out' \<and>
       blocks h (gout_name out') = None \<and> blocks h (gout_supportedQubits out') = None \<or>
     code = - 2 \<and> gout_name out' = 0 \<and> blocks h' = blocks h)"
proof -
  have g0: "gate \<noteq> 0" using g mem.null_free[OF ok] by (cases "gate = 0") auto
  obtain name h1 where m: "malloc (length (gate_mName g) + 1) (Chars (gate_mName g)) h = (name, h1)"
    by fastforce
  show ?thesis
  proof (cases "name = 0")
    case True
    with m mem.alloc_null[OF ok] g0 g given show ?thesis
      by (simp add: MQSSClientResourceGetGateInfo_def)
  next
    case n0: False
    from mem.alloc_fresh[OF ok m n0] have f: "blocks h name = None"
      "blocks h1 = (blocks h)(name \<mapsto> Chars (gate_mName g))" "heap_ok h1" by auto
    let ?count = "gout_supportedQubitCount out" and ?qs = "gate_mSupportedQubits g"
    show ?thesis
    proof (rule flatten2D_cases[OF f(3), of sint ?qs ?count])
      fix h2 assume fl: "flatten2D sint ?qs True ?count h1 = Some ((0, ?count), h2)"
        "blocks h2 = blocks h1" "heap_ok h2"
      from mem.dealloc_block[OF fl(3), of name] fl(2) f(2) obtain h3 where
        "free name h2 = Some h3" "blocks h3 = (blocks h1)(name := None)" "heap_ok h3" by auto
      with m n0 g0 g given fl f show ?thesis
        by (auto simp: MQSSClientResourceGetGateInfo_def fun_eq_iff)
    next
      fix q h2 assume fl: "flatten2D sint ?qs True ?count h1 =
          Some ((q, word_of_nat (length (concat ?qs))), h2)" "q \<noteq> 0" "blocks h1 q = None"
        "heap_ok h2" "blocks h2 = (blocks h1)(q \<mapsto> Ints (map (\<lambda>v. Some (sint v)) (concat ?qs)))"
      have "name \<noteq> q" "blocks h q = None" using fl(3) f(2) by (auto split: if_splits)
      with m n0 g0 g given fl f show ?thesis
        by (simp add: MQSSClientResourceGetGateInfo_def)
    qed
  qed
qed

section \<open>Properties\<close>

text \<open>C22. Reading a valid resource from C never has undefined behaviour, and it is all or nothing:
  it returns 0 with every out parameter set and readable (name, qubit count, online flag, the
  coupling map in row order with its length, one new gate handle per gate), all of it in new
  memory, and nothing else was allocated or changed; or an error code with the memory exactly as before, so nothing leaks; or an allocation
  of \<open>new\<close> fails, whose \<open>std::bad_alloc\<close> crosses the C boundary.\<close>

theorem ResourceGetInfo_all_or_nothing:
  assumes "heap_ok h" "blocks h resource = Some (ResourceObj r)" "list_all id given"
  shows "\<exists>res out' h'. MQSSClientResourceGetInfo resource given junk out h = Some ((res, out'), h') \<and>
    (res = Inr 0 \<and> info_delivered r h out' h' \<or>
     res \<in> {Inr (- 3), Inr (- 4), Inr (- 5)} \<and> blocks h' = blocks h \<or>
     res = Inl Bad_alloc)"
  using ResourceGetInfo_end[OF assms] unfolding info_end_def by blast

text \<open>Reading a gate from C is all or nothing in the same way: 0 with the name, the numbers and
  the supported qubits in two new blocks and nothing else changed, or -2 with no name and the memory as before.\<close>

theorem GetGateInfo_all_or_nothing:
  assumes "heap_ok h" "blocks h gate = Some (GateObj g)" "list_all id given"
  shows "\<exists>code out' h'. MQSSClientResourceGetGateInfo gate given out h = Some ((code, out'), h') \<and>
    (code = 0 \<and> gout_qubitNumber out' = gate_mQubitNumber g \<and>
       gout_parameterNumber out' = gate_mParameterNumber g \<and>
       gout_supportedQubitCount out' = word_of_nat (length (concat (gate_mSupportedQubits g))) \<and>
       blocks h' = (blocks h)(gout_name out' \<mapsto> Chars (gate_mName g),
         gout_supportedQubits out' \<mapsto> Ints (map (\<lambda>n. Some (sint n)) (concat (gate_mSupportedQubits g)))) \<and>
       gout_name out' \<noteq> gout_supportedQubits out' \<and>
       blocks h (gout_name out') = None \<and> blocks h (gout_supportedQubits out') = None \<or>
     code = - 2 \<and> gout_name out' = 0 \<and> blocks h' = blocks h)"
  using GetGateInfo_cases[OF assms] by blast

text \<open>A missing out pointer or a null handle is refused before anything is read or allocated:
  -1 and -2 for a resource, -1 for a gate.\<close>

theorem resource_null_arguments:
  "MQSSClientResourceGetInfo resource (False # given) junk out h = Some ((Inr (- 1), out), h) \<and>
   MQSSClientResourceGetInfo 0 (replicate n True) junk out h = Some ((Inr (- 2), out), h) \<and>
   MQSSClientResourceGetGateInfo gate (False # given) gout h = Some ((- 1, gout), h) \<and>
   MQSSClientResourceGetGateInfo 0 given gout h = Some ((- 1, gout), h)"
proof -
  have "list_all id (replicate n True)" by (simp add: list_all_iff)
  then show ?thesis
    by (simp add: MQSSClientResourceGetInfo_def MQSSClientResourceGetGateInfo_def)
qed

text \<open>Where \<open>malloc(0)\<close> is \<open>NULL\<close>, which C allows, a resource with an empty coupling map cannot
  be read at all: with all the memory in the world the call returns -4.\<close>

theorem ResourceGetInfo_empty_map:
  assumes "heap_ok h" "blocks h resource = Some (ResourceObj r)" "list_all id given"
    and "concat (res_mCouplingMap r) = []" "zero_null h" "\<And>k. \<not> oom h k"
  shows "\<exists>out' h'. MQSSClientResourceGetInfo resource given junk out h = Some ((Inr (- 4), out'), h')"
proof -
  have r0: "resource \<noteq> 0" using assms(2) mem.null_free[OF assms(1)] by (cases "resource = 0") auto
  have "sum_list (map length (res_mCouplingMap r)) = 0"
    using assms(4) by (metis length_concat list.size(3))
  moreover have "next_addr h \<noteq> 0" using assms(1) by (simp add: heap_ok_def)
  ultimately show ?thesis
    using assms r0 by (simp add: MQSSClientResourceGetInfo_def malloc_def Let_def info_map_def
        flatten2D_def free_def)
qed

section \<open>Examples\<close>

definition example_resource :: resource where
  "example_resource =
     \<lparr>res_mName = ''Q'', res_mQubitCount = 2, res_mOnline = True, res_mCouplingMap = [[0, 1]],
      res_mNativeGateset = []\<rparr>"

definition example_gate :: gate where
  "example_gate = \<lparr>gate_mName = ''cz'', gate_mQubitNumber = 2, gate_mParameterNumber = 0,
     gate_mSupportedQubits = [[0, 1]]\<rparr>"

definition example_heap :: "(nat \<Rightarrow> bool) \<Rightarrow> bool \<Rightarrow> 'c block list \<Rightarrow> 'c heap" where
  "example_heap fails zero bs =
     \<lparr>blocks = (\<lambda>a. if a = 0 \<or> length bs < a then None else Some (bs ! (a - 1))),
      next_addr = length bs + 1, allocations = 0, oom = fails, zero_null = zero\<rparr>"

lemma example_heap_simps [simp]:
  "heap_ok (example_heap fails zero bs)"
  "blocks (example_heap fails zero bs) a =
     (if a = 0 \<or> length bs < a then None else Some (bs ! (a - 1)))"
  "oom (example_heap fails zero bs) = fails"
  "zero_null (example_heap fails zero bs) = zero"
  by (simp_all add: example_heap_def heap_ok_def)

definition no_info :: info_out where
  "no_info = \<lparr>out_name = 0, out_qubitCount = 0, out_online = False, out_couplingMap = 0,
     out_couplingMapSize = 0, out_nativeGateset = 0, out_gateCount = 0\<rparr>"

definition no_gate :: gate_out where
  "no_gate = \<lparr>gout_name = 0, gout_qubitNumber = 0, gout_parameterNumber = 0,
     gout_supportedQubits = 0, gout_supportedQubitCount = 0\<rparr>"

theorem ResourceGetInfo_all_or_nothing_witness:
  "MQSSClientResourceGetInfo 1 (replicate 7 True) 9 no_info
     (example_heap (\<lambda>k. k = 1) False [ResourceObj example_resource] :: unit heap) \<noteq> None"
  using ResourceGetInfo_all_or_nothing[of "example_heap (\<lambda>k. k = 1) False [ResourceObj example_resource] :: unit heap"
      1 example_resource "replicate 7 True" 9 no_info] by (auto simp: list_all_iff)

theorem GetGateInfo_all_or_nothing_witness:
  "\<exists>code out' h'. MQSSClientResourceGetGateInfo 1 (replicate 5 True) no_gate
     (example_heap (\<lambda>k. False) False [GateObj example_gate] :: unit heap) = Some ((code, out'), h') \<and>
     (code = 0 \<or> code = - 2)"
  using GetGateInfo_all_or_nothing[of "example_heap (\<lambda>k. False) False [GateObj example_gate] :: unit heap"
      1 example_gate "replicate 5 True" no_gate] by (auto simp: list_all_iff)

theorem ResourceGetInfo_empty_map_witness:
  "\<exists>out' h'. MQSSClientResourceGetInfo 1 (replicate 7 True) 9 no_info
     (example_heap (\<lambda>k. False) True [ResourceObj (example_resource\<lparr>res_mCouplingMap := []\<rparr>)] :: unit heap) =
       Some ((Inr (- 4), out'), h')"
  by (rule ResourceGetInfo_empty_map[where r = "example_resource\<lparr>res_mCouplingMap := []\<rparr>"])
    (simp_all add: list_all_iff)

end
