(* ===== verification/C_Job.thy ===== *)
theory C_Job
  imports C_Heap
begin

text \<open>
  \<open>src/c_bindings/job.cpp\<close>: creating and freeing jobs and results from C, and the counts of a
  result as two C arrays. A \<open>const char*\<close> argument is a string or \<open>None\<close> for \<open>NULL\<close>.
\<close>

section \<open>Jobs\<close>

definition wrap_new :: "'c block \<Rightarrow> 'c heap \<Rightarrow> addr result \<times> 'c heap" where
  "wrap_new b h = new_obj b h"

definition MQSSClientCreateCircuitJob ::
  "string option \<Rightarrow> string option \<Rightarrow> string option \<Rightarrow> u32 \<Rightarrow> bool \<Rightarrow> bool \<Rightarrow> 'c heap \<Rightarrow>
     addr result \<times> 'c heap" where
  "MQSSClientCreateCircuitJob circuit circuitFormat resourceName shots noModify queued h =
     (if circuit = None \<or> circuitFormat = None \<or> resourceName = None then (Inr 0, h)
      else wrap_new (JobObj (CircuitJob (CircuitJobRequest (c_str (the circuit))
             (c_str (the circuitFormat)) (c_str (the resourceName)) shots noModify queued))) h)"

definition MQSSClientCreateHamiltonianJob ::
  "string option \<Rightarrow> string option \<Rightarrow> string option \<Rightarrow> 'c heap \<Rightarrow> addr result \<times> 'c heap" where
  "MQSSClientCreateHamiltonianJob resourceName interactionStr coefficientsStr h =
     (if resourceName = None \<or> interactionStr = None \<or> coefficientsStr = None then (Inr 0, h)
      else wrap_new (JobObj (HamiltonianJob (HamiltonianJobRequest (c_str (the resourceName))
             (c_str (the interactionStr)) (c_str (the coefficientsStr))))) h)"

definition is_job :: "'c block \<Rightarrow> bool" where
  "is_job b \<longleftrightarrow> (\<exists>j. b = JobObj j)"

definition is_result :: "'c block \<Rightarrow> bool" where
  "is_result b \<longleftrightarrow> (\<exists>r. b = ResultObj r)"

text \<open>\<open>delete\<close> of a handle: nothing for \<open>NULL\<close>, undefined for anything but a live object of the
  kind.\<close>

definition delete_obj :: "('c block \<Rightarrow> bool) \<Rightarrow> addr \<Rightarrow> 'c heap \<Rightarrow> 'c heap option" where
  "delete_obj kind a h =
     (if a = 0 then Some h
      else case blocks h a of
        None \<Rightarrow> None
      | Some b \<Rightarrow> if kind b then free a h else None)"

definition MQSSClientFreeJob :: "addr \<Rightarrow> 'c heap \<Rightarrow> 'c heap option" where
  "MQSSClientFreeJob job h = delete_obj is_job job h"

definition MQSSClientFreeJobResult :: "addr \<Rightarrow> 'c heap \<Rightarrow> 'c heap option" where
  "MQSSClientFreeJobResult result h = delete_obj is_result result h"

section \<open>Counts\<close>

record counts_out =
  out_bitstreams :: addr
  out_counts :: addr
  out_size :: int

definition put_ptr :: "addr \<Rightarrow> nat \<Rightarrow> addr \<Rightarrow> 'c heap \<Rightarrow> 'c heap option" where
  "put_ptr a i p h =
     (case blocks h a of
        Some (Ptrs ps) \<Rightarrow> if i < length ps then write_block a (Ptrs (ps[i := Some p])) h else None
      | _ \<Rightarrow> None)"

definition put_int :: "addr \<Rightarrow> nat \<Rightarrow> int \<Rightarrow> 'c heap \<Rightarrow> 'c heap option" where
  "put_int a i n h =
     (case blocks h a of
        Some (Ints ns) \<Rightarrow> if i < length ns then write_block a (Ints (ns[i := Some n])) h else None
      | _ \<Rightarrow> None)"

text \<open>The clean-up loop; reading a pointer that was not written is undefined.\<close>

fun free_ptrs :: "addr option list \<Rightarrow> 'c heap \<Rightarrow> 'c heap option" where
  "free_ptrs [] h = Some h"
| "free_ptrs (None # ps) h = None"
| "free_ptrs (Some a # ps) h = (case free a h of None \<Rightarrow> None | Some h' \<Rightarrow> free_ptrs ps h')"

definition clean_up :: "nat \<Rightarrow> addr \<Rightarrow> addr \<Rightarrow> 'c heap \<Rightarrow> 'c heap option" where
  "clean_up index bitstreams counts h =
     (case blocks h bitstreams of
        Some (Ptrs ps) \<Rightarrow>
          (case free_ptrs (take index ps) h of
             None \<Rightarrow> None
           | Some h1 \<Rightarrow>
               (case free bitstreams h1 of
                  None \<Rightarrow> None
                | Some h2 \<Rightarrow> free counts h2))
      | _ \<Rightarrow> None)"

text \<open>The inner loop: the next index, or \<open>None\<close> where the function returns -1.\<close>

fun counts_row ::
  "(string \<times> u32) list \<Rightarrow> nat \<Rightarrow> addr \<Rightarrow> addr \<Rightarrow> 'c heap \<Rightarrow> (nat option \<times> 'c heap) option" where
  "counts_row [] index bitstreams counts h = Some (Some index, h)"
| "counts_row ((bitstream, count) # row) index bitstreams counts h =
     (case malloc (length bitstream + 1) (Chars bitstream) h of
        (p, h1) \<Rightarrow>
          (case put_ptr bitstreams index p h1 of
             None \<Rightarrow> None
           | Some h2 \<Rightarrow>
               if p = 0 then
                 (case clean_up index bitstreams counts h2 of
                    None \<Rightarrow> None
                  | Some h3 \<Rightarrow> Some (None, h3))
               else
                 (case put_int counts index (sint count) h2 of
                    None \<Rightarrow> None
                  | Some h3 \<Rightarrow> counts_row row (index + 1) bitstreams counts h3)))"

fun counts_rows ::
  "(string \<times> u32) list list \<Rightarrow> nat \<Rightarrow> addr \<Rightarrow> addr \<Rightarrow> 'c heap \<Rightarrow> (bool \<times> 'c heap) option" where
  "counts_rows [] index bitstreams counts h = Some (True, h)"
| "counts_rows (row # rows) index bitstreams counts h =
     (case counts_row row index bitstreams counts h of
        None \<Rightarrow> None
      | Some (None, h1) \<Rightarrow> Some (False, h1)
      | Some (Some index', h1) \<Rightarrow> counts_rows rows index' bitstreams counts h1)"

definition MQSSClientGetJobResultCounts ::
  "addr \<Rightarrow> bool list \<Rightarrow> counts_out \<Rightarrow> 'c heap \<Rightarrow> ((int \<times> counts_out) \<times> 'c heap) option" where
  "MQSSClientGetJobResultCounts jobResult given out h =
     (if jobResult = 0 \<or> \<not> list_all id given then Some ((- 1, out), h)
      else case blocks h jobResult of
        Some (ResultObj jr) \<Rightarrow>
          (let results = jr_mResults jr;
               totalEntries = sum_list (map length results);
               out1 = out\<lparr>out_size := sint (word_of_nat totalEntries :: u32)\<rparr>
           in if totalEntries = 0 then
                Some ((0, out1\<lparr>out_bitstreams := 0, out_counts := 0\<rparr>), h)
              else
                let (counts, h1) = malloc (4 * totalEntries) (Ints (replicate totalEntries None)) h;
                    (bitstreams, h2) = malloc (8 * totalEntries) (Ptrs (replicate totalEntries None)) h1;
                    out2 = out1\<lparr>out_counts := counts, out_bitstreams := bitstreams\<rparr>
                in if counts = 0 \<or> bitstreams = 0 then
                     (case free counts h2 of
                        None \<Rightarrow> None
                      | Some h3 \<Rightarrow>
                          (case free bitstreams h3 of
                             None \<Rightarrow> None
                           | Some h4 \<Rightarrow> Some ((- 1, out2), h4)))
                   else
                     (case counts_rows results 0 bitstreams counts h2 of
                        None \<Rightarrow> None
                      | Some (True, h3) \<Rightarrow> Some ((0, out2), h3)
                      | Some (False, h3) \<Rightarrow> Some ((- 1, out2), h3)))
      | _ \<Rightarrow> None)"

section \<open>The two loops\<close>

text \<open>
  The memory after the entries \<open>es\<close> were written, where the call began in \<open>h0\<close>: the two arrays
  filled that far, one new block per bit string, and everything else as in \<open>h0\<close>.
\<close>

definition counts_memory ::
  "'c heap \<Rightarrow> addr \<Rightarrow> addr \<Rightarrow> nat \<Rightarrow> addr list \<Rightarrow> (string \<times> u32) list \<Rightarrow> addr \<Rightarrow> 'c block option" where
  "counts_memory h0 b c N as es =
     (\<lambda>a. if a = b then Some (Ptrs (map Some as @ replicate (N - length es) None))
          else if a = c then
            Some (Ints (map (\<lambda>e. Some (sint (snd e))) es @ replicate (N - length es) None))
          else case map_of (zip as (map fst es)) a of
            Some s \<Rightarrow> Some (Chars s)
          | None \<Rightarrow> blocks h0 a)"

definition counts_inv ::
  "'c heap \<Rightarrow> addr \<Rightarrow> addr \<Rightarrow> nat \<Rightarrow> addr list \<Rightarrow> (string \<times> u32) list \<Rightarrow> 'c heap \<Rightarrow> bool" where
  "counts_inv h0 b c N as es h \<longleftrightarrow> heap_ok h \<and> length as = length es \<and> length es \<le> N \<and>
     distinct (b # c # as) \<and> (\<forall>a \<in> set (b # c # as). blocks h0 a = None) \<and>
     blocks h = counts_memory h0 b c N as es"

lemma free_ptrs_dealloc: "free_ptrs (map Some as) h = mem.dealloc_all as h"
  by (induction as arbitrary: h) (simp_all add: mem.dealloc_all.simps split: option.splits)

lemma counts_memory_at:
  assumes "distinct (b # c # as)" "length as = length es"
  shows "counts_memory h0 b c N as es b = Some (Ptrs (map Some as @ replicate (N - length es) None))"
    and "counts_memory h0 b c N as es c =
      Some (Ints (map (\<lambda>e. Some (sint (snd e))) es @ replicate (N - length es) None))"
    and "a \<in> set as \<Longrightarrow> counts_memory h0 b c N as es a \<noteq> None"
    and "a \<notin> set (b # c # as) \<Longrightarrow> counts_memory h0 b c N as es a = blocks h0 a"
proof -
  show "a \<in> set as \<Longrightarrow> counts_memory h0 b c N as es a \<noteq> None"
    using assms by (auto simp: counts_memory_def split: option.splits)
  show "a \<notin> set (b # c # as) \<Longrightarrow> counts_memory h0 b c N as es a = blocks h0 a"
    using assms by (auto simp: counts_memory_def map_of_eq_None_iff split: option.splits
        dest: map_of_SomeD set_zip_leftD)
qed (use assms in \<open>simp_all add: counts_memory_def\<close>)

lemma counts_inv_at:
  assumes "counts_inv h0 b c N as es h"
  shows "blocks h b = Some (Ptrs (map Some as @ replicate (N - length es) None))"
    and "blocks h c = Some (Ints (map (\<lambda>e. Some (sint (snd e))) es @ replicate (N - length es) None))"
    and "\<And>a. a \<in> set as \<Longrightarrow> blocks h a \<noteq> None"
    and "\<And>a. a \<notin> set (b # c # as) \<Longrightarrow> blocks h a = blocks h0 a"
proof -
  from assms have i: "length as = length es" "distinct (b # c # as)"
    "blocks h = counts_memory h0 b c N as es" by (simp_all add: counts_inv_def)
  show "\<And>a. a \<in> set as \<Longrightarrow> blocks h a \<noteq> None" "\<And>a. a \<notin> set (b # c # as) \<Longrightarrow> blocks h a = blocks h0 a"
    unfolding i(3) by (rule counts_memory_at[OF i(2,1)]; assumption)+
  show "blocks h b = Some (Ptrs (map Some as @ replicate (N - length es) None))"
    "blocks h c = Some (Ints (map (\<lambda>e. Some (sint (snd e))) es @ replicate (N - length es) None))"
    unfolding i(3) by (rule counts_memory_at[OF i(2,1)])+
qed

lemma replicate_upd:
  "k < N \<Longrightarrow> length xs = k \<Longrightarrow>
     (xs @ replicate (N - k) None)[k := Some x] = (xs @ [Some x]) @ replicate (N - Suc k) None"
  by (simp add: Suc_diff_Suc[symmetric] list_update_append)

lemma put_ptr_blocks:
  assumes "blocks h a = Some (Ptrs ps)" "i < length ps" "heap_ok h"
  shows "\<exists>h'. put_ptr a i p h = Some h' \<and> blocks h' = (blocks h)(a \<mapsto> Ptrs (ps[i := Some p])) \<and> heap_ok h'"
  using write_block_blocks[OF assms(1,3)] assms(1,2) by (auto simp: put_ptr_def)

lemma put_int_blocks:
  assumes "blocks h a = Some (Ints ns)" "i < length ns" "heap_ok h"
  shows "\<exists>h'. put_int a i n h = Some h' \<and> blocks h' = (blocks h)(a \<mapsto> Ints (ns[i := Some n])) \<and> heap_ok h'"
  using write_block_blocks[OF assms(1,3)] assms(1,2) by (auto simp: put_int_def)

lemma counts_memory_snoc:
  assumes "length as = length es" "distinct (b # c # as @ [p])" "length es < N"
  shows "(counts_memory h0 b c N as es)
      (p \<mapsto> Chars s,
       b \<mapsto> Ptrs ((map Some as @ replicate (N - length es) None)[length es := Some p]),
       c \<mapsto> Ints ((map (\<lambda>e. Some (sint (snd e))) es @ replicate (N - length es) None)
          [length es := Some (sint n)])) =
    counts_memory h0 b c N (as @ [p]) (es @ [(s, n)])"
proof -
  have z: "map_of (zip (as @ [p]) (map fst (es @ [(s, n)]))) a =
      (if a = p then Some s else map_of (zip as (map fst es)) a)" for a
  proof -
    have p: "map_of (zip as (map fst es)) p = None"
      using assms(1,2) by (simp add: map_of_zip_is_None)
    have "zip (as @ [p]) (map fst (es @ [(s, n)])) = zip as (map fst es) @ [(p, s)]"
      using assms(1) by simp
    then show ?thesis
      by (cases "map_of (zip as (map fst es)) a") (use p in \<open>auto simp only: map_of_append map_add_def
        map_of.simps fun_upd_def option.case fst_conv snd_conv split: if_splits\<close>)
  qed
  have "(map Some as @ replicate (N - length es) None)[length es := Some p] =
      map Some (as @ [p]) @ replicate (N - Suc (length es)) None"
    using replicate_upd[of "length es" N "map Some as" p] assms by simp
  moreover have "(map (\<lambda>e. Some (sint (snd e))) es @ replicate (N - length es) None)[length es := Some (sint n)] =
      map (\<lambda>e. Some (sint (snd e))) (es @ [(s, n)]) @ replicate (N - Suc (length es)) None"
    using replicate_upd[of "length es" N "map (\<lambda>e. Some (sint (snd e))) es" "sint n"] assms by simp
  ultimately show ?thesis
    using assms(2) unfolding counts_memory_def z by (auto simp: fun_eq_iff)
qed

text \<open>An entry for which there is memory.\<close>

lemma counts_entry:
  assumes inv: "counts_inv h0 b c N as es h" and lt: "length es < N"
    and m: "malloc k (Chars s) h = (p, h1)" "p \<noteq> 0"
  shows "\<exists>h2 h3. put_ptr b (length es) p h1 = Some h2 \<and> put_int c (length es) (sint n) h2 = Some h3 \<and>
    counts_inv h0 b c N (as @ [p]) (es @ [(s, n)]) h3"
proof -
  from inv have i: "heap_ok h" "length as = length es" "distinct (b # c # as)"
    "\<forall>a \<in> set (b # c # as). blocks h0 a = None" "blocks h = counts_memory h0 b c N as es"
    by (simp_all add: counts_inv_def)
  note at = counts_inv_at[OF inv]
  from mem.alloc_fresh[OF i(1) m] have f: "blocks h p = None" "blocks h1 = (blocks h)(p \<mapsto> Chars s)"
    "heap_ok h1" by auto
  have new: "p \<notin> set (b # c # as)" using f(1) at(1,2) at(3)[of p] by auto
  with f(1) at(4)[of p] have p0: "blocks h0 p = None" by simp
  have "blocks h1 b = Some (Ptrs (map Some as @ replicate (N - length es) None))"
    using f(2) at(1) new by simp
  from put_ptr_blocks[OF this _ f(3), of "length es" p] lt i(2) obtain h2 where
    h2: "put_ptr b (length es) p h1 = Some h2" "heap_ok h2" "blocks h2 = (blocks h1)
      (b \<mapsto> Ptrs ((map Some as @ replicate (N - length es) None)[length es := Some p]))" by auto
  have "blocks h2 c = Some (Ints (map (\<lambda>e. Some (sint (snd e))) es @ replicate (N - length es) None))"
    using h2(3) f(2) at(2) new i(3) by simp
  from put_int_blocks[OF this _ h2(2), of "length es" "sint n"] lt obtain h3 where
    h3: "put_int c (length es) (sint n) h2 = Some h3" "heap_ok h3" "blocks h3 = (blocks h2)
      (c \<mapsto> Ints ((map (\<lambda>e. Some (sint (snd e))) es @ replicate (N - length es) None)
        [length es := Some (sint n)]))" by auto
  have "blocks h3 = counts_memory h0 b c N (as @ [p]) (es @ [(s, n)])"
    unfolding h3(3) h2(3) f(2) i(5) using counts_memory_snoc[OF i(2) _ lt, of b c p h0 s n] i(3) new by simp
  with h2(1) h3(1,2) i new p0 lt show ?thesis
    by (auto simp: counts_inv_def)
qed

text \<open>An entry for which there is none: everything is freed again.\<close>

lemma counts_entry_fails:
  assumes inv: "counts_inv h0 b c N as es h" and lt: "length es < N"
    and m: "malloc k (Chars s) h = (0, h1)"
  shows "\<exists>h2 h3. put_ptr b (length es) 0 h1 = Some h2 \<and> clean_up (length es) b c h2 = Some h3 \<and>
    heap_ok h3 \<and> blocks h3 = blocks h0"
proof -
  from inv have i: "heap_ok h" "length as = length es" "distinct (b # c # as)"
    "\<forall>a \<in> set (b # c # as). blocks h0 a = None" "blocks h = counts_memory h0 b c N as es"
    by (simp_all add: counts_inv_def)
  note at = counts_inv_at[OF inv]
  from mem.alloc_null[OF i(1) m] have h1: "blocks h1 = blocks h" "heap_ok h1" by auto
  let ?ps = "(map Some as @ replicate (N - length es) None)[length es := Some 0]"
  have "blocks h1 b = Some (Ptrs (map Some as @ replicate (N - length es) None))"
    using at(1) h1(1) by simp
  from put_ptr_blocks[OF this _ h1(2), of "length es" 0] lt i(2) h1(1) obtain h2 where
    h2: "put_ptr b (length es) 0 h1 = Some h2" "heap_ok h2" "blocks h2 = (blocks h)(b \<mapsto> Ptrs ?ps)"
    by auto
  have take: "take (length es) ?ps = map Some as" using i(2) by simp
  have "\<forall>a \<in> set as. blocks h2 a \<noteq> None" using at(3) h2(3) by auto
  from mem.dealloc_all[OF h2(2) _ this] i(3) obtain h3 where h3: "mem.dealloc_all as h2 = Some h3"
    "heap_ok h3" "blocks h3 = (\<lambda>a. if a \<in> set as then None else blocks h2 a)" by auto
  have "blocks h3 b = Some (Ptrs ?ps)" using h3(3) h2(3) i(3) by simp
  from mem.dealloc_block[OF h3(2) this] obtain h4 where h4: "free b h3 = Some h4"
    "blocks h4 = (blocks h3)(b := None)" "heap_ok h4" by blast
  have "blocks h4 c \<noteq> None" using h4(2) h3(3) h2(3) at(2) i(3) by simp
  then obtain x where "blocks h4 c = Some x" by blast
  from mem.dealloc_block[OF h4(3) this] obtain h5 where h5: "free c h4 = Some h5"
    "blocks h5 = (blocks h4)(c := None)" "heap_ok h5" by blast
  have "blocks h5 a = blocks h0 a" for a
    using h5(2) h4(2) h3(3) h2(3) at(4)[of a] i(4) by (cases "a \<in> set (b # c # as)") auto
  moreover have "clean_up (length es) b c h2 = Some h5"
    using h2(3) h3(1) h4(1) h5(1) unfolding clean_up_def
    by (simp add: take free_ptrs_dealloc)
  ultimately show ?thesis using h2(1) h5(3) by blast
qed

text \<open>A row, and then all rows: filled to the end, or freed to the beginning.\<close>

lemma counts_row_cases:
  assumes "counts_inv h0 b c N as es h" "length es + length row \<le> N" "b \<noteq> 0"
  shows "(\<exists>as' h'. counts_row row (length es) b c h = Some (Some (length (es @ row)), h') \<and>
      counts_inv h0 b c N as' (es @ row) h') \<or>
    (\<exists>h'. counts_row row (length es) b c h = Some (None, h') \<and> heap_ok h' \<and> blocks h' = blocks h0)"
  using assms
proof (induction row arbitrary: es as h)
  case (Cons e row)
  obtain s n where e: "e = (s, n)" by (cases e)
  obtain p h1 where m: "malloc (length s + 1) (Chars s) h = (p, h1)" by fastforce
  have lt: "length es < N" using Cons.prems(2) by simp
  show ?case
  proof (cases "p = 0")
    case True
    with counts_entry_fails[OF Cons.prems(1) lt] m show ?thesis
      by (fastforce simp: e)
  next
    case False
    from counts_entry[OF Cons.prems(1) lt m False, of n] obtain h2 h3 where
      w: "put_ptr b (length es) p h1 = Some h2" "put_int c (length es) (sint n) h2 = Some h3"
      "counts_inv h0 b c N (as @ [p]) (es @ [(s, n)]) h3" by blast
    have "length (es @ [(s, n)]) + length row \<le> N" using Cons.prems(2) by simp
    from Cons.IH[OF w(3) this Cons.prems(3)] show ?thesis
      using m False w(1,2) by (simp add: e)
  qed
qed auto

lemma counts_rows_cases:
  assumes "counts_inv h0 b c N as es h" "length es + length (concat rows) \<le> N" "b \<noteq> 0"
  shows "(\<exists>as' h'. counts_rows rows (length es) b c h = Some (True, h') \<and>
      counts_inv h0 b c N as' (es @ concat rows) h') \<or>
    (\<exists>h'. counts_rows rows (length es) b c h = Some (False, h') \<and> heap_ok h' \<and> blocks h' = blocks h0)"
  using assms
proof (induction rows arbitrary: es as h)
  case (Cons row rows)
  have le: "length es + length row \<le> N" using Cons.prems(2) by simp
  from counts_row_cases[OF Cons.prems(1) le Cons.prems(3)] show ?case
  proof (elim disjE exE conjE)
    fix as' h' assume r: "counts_row row (length es) b c h = Some (Some (length (es @ row)), h')"
      "counts_inv h0 b c N as' (es @ row) h'"
    have "length (es @ row) + length (concat rows) \<le> N" using Cons.prems(2) by simp
    from Cons.IH[OF r(2) this Cons.prems(3)] r(1) show ?thesis by simp
  qed simp
qed auto

text \<open>What a successful call hands over: two arrays of the same length, entry by entry.\<close>

definition counts_delivered ::
  "(string \<times> u32) list \<Rightarrow> 'c heap \<Rightarrow> counts_out \<Rightarrow> 'c heap \<Rightarrow> bool" where
  "counts_delivered es h out h' \<longleftrightarrow>
     blocks h' (out_counts out) = Some (Ints (map (\<lambda>e. Some (sint (snd e))) es)) \<and>
     (\<exists>as. blocks h' (out_bitstreams out) = Some (Ptrs (map Some as)) \<and>
        list_all2 (\<lambda>a e. blocks h' a = Some (Chars (fst e))) as es \<and>
        distinct (out_bitstreams out # out_counts out # as) \<and>
        (\<forall>a \<in> set (out_bitstreams out # out_counts out # as). blocks h a = None) \<and>
        (\<forall>a. a \<notin> set (out_bitstreams out # out_counts out # as) \<longrightarrow> blocks h' a = blocks h a))"

lemma counts_delivered_keeps:
  assumes "counts_delivered es h out h'" "blocks h a \<noteq> None"
  shows "blocks h' a = blocks h a"
proof -
  from assms(1) obtain as where
    "\<forall>a \<in> set (out_bitstreams out # out_counts out # as). blocks h a = None"
    "\<forall>a. a \<notin> set (out_bitstreams out # out_counts out # as) \<longrightarrow> blocks h' a = blocks h a"
    unfolding counts_delivered_def by blast
  with assms(2) show ?thesis by (cases "a \<in> set (out_bitstreams out # out_counts out # as)") auto
qed

text \<open>What was handed over is all there is to free: with the strings, the array of strings and the
  counts released, the memory is as it was before the call.\<close>

lemma counts_released:
  assumes "counts_delivered es h out h'" "heap_ok h'"
  shows "\<exists>as h''. blocks h' (out_bitstreams out) = Some (Ptrs (map Some as)) \<and>
    free_ptrs (map Some (as @ [out_bitstreams out, out_counts out])) h' = Some h'' \<and>
    blocks h'' = blocks h \<and> heap_ok h''"
proof -
  let ?b = "out_bitstreams out" and ?c = "out_counts out"
  from assms(1) obtain as where a: "blocks h' ?b = Some (Ptrs (map Some as))"
    "list_all2 (\<lambda>a e. blocks h' a = Some (Chars (fst e))) as es" "distinct (?b # ?c # as)"
    "\<forall>a \<in> set (?b # ?c # as). blocks h a = None"
    "\<forall>a. a \<notin> set (?b # ?c # as) \<longrightarrow> blocks h' a = blocks h a"
    and c: "blocks h' ?c \<noteq> None" unfolding counts_delivered_def by auto
  have "blocks h' x \<noteq> None" if "x \<in> set as" for x
    using a(2) that by (induction rule: list_all2_induct) auto
  with a(1) c have "\<forall>x \<in> set (as @ [?b, ?c]). blocks h' x \<noteq> None" by auto
  from mem.dealloc_all[OF assms(2) _ this] a(3) obtain h'' where
    "mem.dealloc_all (as @ [?b, ?c]) h' = Some h''" "heap_ok h''"
    "blocks h'' = (\<lambda>x. if x \<in> set (as @ [?b, ?c]) then None else blocks h' x)" by auto
  moreover from this(3) have "blocks h'' = blocks h"
    using a(4,5) by (auto simp: fun_eq_iff)
  ultimately show ?thesis using a(1) unfolding free_ptrs_dealloc[symmetric] by blast
qed

lemma counts_inv_delivered:
  assumes "counts_inv h0 b c N as es h" "length es = N"
  shows "counts_delivered es h0 \<lparr>out_bitstreams = b, out_counts = c, out_size = k\<rparr> h"
proof -
  from assms(1) have i: "length as = length es" "distinct (b # c # as)"
    "\<forall>a \<in> set (b # c # as). blocks h0 a = None" "blocks h = counts_memory h0 b c N as es"
    by (simp_all add: counts_inv_def)
  note at = counts_inv_at[OF assms(1)]
  have "list_all2 (\<lambda>a e. blocks h a = Some (Chars (fst e))) as es"
    unfolding list_all2_conv_all_nth
  proof (intro conjI allI impI)
    fix k assume k: "k < length as"
    then have "map_of (zip as (map fst es)) (as ! k) = Some (fst (es ! k))"
      using i(1,2) by (intro map_of_is_SomeI) (auto simp: in_set_zip intro!: exI[of _ k])
    moreover have "as ! k \<noteq> b" "as ! k \<noteq> c" using i(2) k by auto
    ultimately show "blocks h (as ! k) = Some (Chars (fst (es ! k)))"
      by (simp add: i(4) counts_memory_def)
  qed (rule i(1))
  then show ?thesis
    using at(1,2,4) i(2,3) assms(2) unfolding counts_delivered_def by (intro conjI exI[of _ as]) simp_all
qed

lemma concat_length: "sum_list (map length xss) = length (concat xss)"
  by (simp add: length_concat)

lemma GetJobResultCounts_eval:
  assumes "jobResult \<noteq> 0" "list_all id given" "blocks h jobResult = Some (ResultObj jr)"
    and "concat (jr_mResults jr) = es" "es \<noteq> []"
    and "malloc (4 * length es) (Ints (replicate (length es) None)) h = (c, h1)"
    and "malloc (8 * length es) (Ptrs (replicate (length es) None)) h1 = (b, h2)"
  shows "MQSSClientGetJobResultCounts jobResult given out h =
    (let out2 = out\<lparr>out_size := sint (word_of_nat (length es) :: u32), out_counts := c, out_bitstreams := b\<rparr>
     in if c = 0 \<or> b = 0 then
          (case free c h2 of
             None \<Rightarrow> None
           | Some h3 \<Rightarrow>
               (case free b h3 of None \<Rightarrow> None | Some h4 \<Rightarrow> Some ((- 1, out2), h4)))
        else
          (case counts_rows (jr_mResults jr) 0 b c h2 of
             None \<Rightarrow> None
           | Some (True, h3) \<Rightarrow> Some ((0, out2), h3)
           | Some (False, h3) \<Rightarrow> Some ((- 1, out2), h3)))"
  using assms(1-3,5-7) unfolding MQSSClientGetJobResultCounts_def concat_length Let_def
    assms(4)[symmetric] by (auto simp del: concat_eq_Nil_conv)

lemma malloc_ok: "heap_ok h \<Longrightarrow> malloc n b h = (a, h') \<Longrightarrow> heap_ok h'"
  by (cases "a = 0") (auto dest: malloc_null malloc_fresh)

text \<open>Freeing both arrays when one of them could not be made.\<close>

lemma free_arrays:
  assumes "heap_ok h" "malloc n x h = (c, h1)" "malloc k y h1 = (b, h2)" "c = 0 \<or> b = 0"
  shows "\<exists>h3 h4. free c h2 = Some h3 \<and> free b h3 = Some h4 \<and> heap_ok h4 \<and> blocks h4 = blocks h"
proof (cases "c = 0")
  case True
  with malloc_null[OF assms(1)] assms(2) have "blocks h1 = blocks h" "heap_ok h1" by auto
  with mem.alloc_dealloc[OF _ assms(3)] True show ?thesis by (auto simp: mem.dealloc_null)
next
  case False
  with malloc_fresh[OF assms(1,2)] have f: "blocks h c = None" "blocks h1 = (blocks h)(c \<mapsto> x)"
    "heap_ok h1" by auto
  from False assms(4) have "b = 0" by simp
  with malloc_null[OF f(3)] assms(3) have "blocks h2 = blocks h1" "heap_ok h2" by auto
  with f free_block[of h2 c x] \<open>b = 0\<close> show ?thesis by (auto simp: mem.dealloc_null fun_eq_iff)
qed

lemma GetJobResultCounts_cases:
  assumes ok: "heap_ok h" and r: "blocks h jobResult = Some (ResultObj jr)" and given: "list_all id given"
    and es: "concat (jr_mResults jr) = es" and some: "es \<noteq> []"
  shows "\<exists>code out' h'. MQSSClientGetJobResultCounts jobResult given out h = Some ((code, out'), h') \<and>
    heap_ok h' \<and> out_size out' = sint (word_of_nat (length es) :: u32) \<and>
    (code = 0 \<and> counts_delivered es h out' h' \<or>
     code = - 1 \<and> blocks h' = blocks h \<and> blocks h (out_counts out') = None \<and>
       blocks h (out_bitstreams out') = None)"
proof -
  have r0: "jobResult \<noteq> 0" using r mem.null_free[OF ok] by (cases "jobResult = 0") auto
  let ?N = "length es"
  obtain c h1 where m1: "malloc (4 * ?N) (Ints (replicate ?N None)) h = (c, h1)" by fastforce
  obtain b h2 where m2: "malloc (8 * ?N) (Ptrs (replicate ?N None)) h1 = (b, h2)" by fastforce
  note eval = GetJobResultCounts_eval[OF r0 given r es some m1 m2] Let_def
  have cn: "blocks h c = None"
    using malloc_fresh[OF ok m1] mem.null_free[OF ok] by (cases "c = 0") auto
  have bn: "blocks h b = None"
  proof (cases "b = 0")
    case False
    with malloc_fresh[OF malloc_ok[OF ok m1] m2] have "blocks h1 b = None" by simp
    with m1 show ?thesis by (elim malloc_cases) (auto split: if_splits)
  qed (simp add: mem.null_free[OF ok])
  show ?thesis
  proof (cases "c = 0 \<or> b = 0")
    case True
    with free_arrays[OF ok m1 m2] cn bn show ?thesis by (auto simp: eval)
  next
    case False
    from malloc_fresh[OF ok m1] malloc_fresh[OF malloc_ok[OF ok m1] m2] False have f:
      "blocks h c = None" "blocks h1 = (blocks h)(c \<mapsto> Ints (replicate ?N None))" "blocks h1 b = None"
      "blocks h2 = (blocks h1)(b \<mapsto> Ptrs (replicate ?N None))" "heap_ok h2" by auto
    then have "b \<noteq> c" by auto
    with f bn have inv: "counts_inv h b c ?N [] [] h2"
      by (auto simp: counts_inv_def counts_memory_def fun_eq_iff)
    have le: "length [] + length (concat (jr_mResults jr)) \<le> ?N" by (simp add: es)
    have b0: "b \<noteq> 0" using False by simp
    from counts_rows_cases[OF inv le b0]
    have "(\<exists>as h3. counts_rows (jr_mResults jr) 0 b c h2 = Some (True, h3) \<and> counts_inv h b c ?N as es h3) \<or>
      (\<exists>h3. counts_rows (jr_mResults jr) 0 b c h2 = Some (False, h3) \<and> heap_ok h3 \<and> blocks h3 = blocks h)"
      by (simp add: es)
    then show ?thesis
    proof (elim disjE exE conjE)
      fix as h3 assume s: "counts_rows (jr_mResults jr) 0 b c h2 = Some (True, h3)"
        "counts_inv h b c ?N as es h3"
      then have "heap_ok h3" by (simp add: counts_inv_def)
      with s(1) False counts_inv_delivered[OF s(2) refl] show ?thesis
        by (simp add: eval counts_delivered_def)
    next
      fix h3 assume "counts_rows (jr_mResults jr) 0 b c h2 = Some (False, h3)" "heap_ok h3"
        "blocks h3 = blocks h"
      with False cn bn show ?thesis by (simp add: eval)
    qed
  qed
qed

section \<open>Properties\<close>

text \<open>The counts of a result reach C completely or not at all. With at least one entry the call
  returns 0 with one array of counts and one of bit strings, in the order of the result maps,
  entry by entry, all of it in new memory, and nothing else was allocated or changed; or -1 with the memory exactly as before, whichever
  allocation failed (also half way through the bit strings), and then neither out pointer points
  to live memory.\<close>

theorem GetJobResultCounts_all_or_nothing:
  assumes "heap_ok h" "blocks h jobResult = Some (ResultObj jr)" "list_all id given"
    and "concat (jr_mResults jr) \<noteq> []"
  shows "\<exists>code out' h'. MQSSClientGetJobResultCounts jobResult given out h = Some ((code, out'), h') \<and>
    (code = 0 \<and> counts_delivered (concat (jr_mResults jr)) h out' h' \<or>
     code = - 1 \<and> blocks h' = blocks h \<and> blocks h' (out_counts out') = None \<and>
       blocks h' (out_bitstreams out') = None)"
  using GetJobResultCounts_cases[OF assms(1-3) refl assms(4), of out] by fastforce

text \<open>The size reported with the counts is the number of entries of all result maps together,
  as long as it is below 2 to the 31, and it is reported on failure, too; with no entries the call
  succeeds with two null pointers and size 0.\<close>

theorem GetJobResultCounts_size:
  assumes "heap_ok h" "blocks h jobResult = Some (ResultObj jr)" "list_all id given"
    and "length (concat (jr_mResults jr)) < 2 ^ 31"
  shows "\<exists>code out' h'. MQSSClientGetJobResultCounts jobResult given out h = Some ((code, out'), h') \<and>
    out_size out' = int (length (concat (jr_mResults jr))) \<and>
    (concat (jr_mResults jr) = [] \<longrightarrow> code = 0 \<and> out_counts out' = 0 \<and> out_bitstreams out' = 0 \<and> h' = h)"
proof (cases "concat (jr_mResults jr) = []")
  case True
  have "jobResult \<noteq> 0" using assms(2) mem.null_free[OF assms(1)] by (cases "jobResult = 0") auto
  with assms(2,3) show ?thesis
    unfolding MQSSClientGetJobResultCounts_def concat_length Let_def by (simp add: True)
next
  case False
  have "sint (word_of_nat (length (concat (jr_mResults jr))) :: u32) = int (length (concat (jr_mResults jr)))"
    using assms(4) by (simp only: signed_of_nat) (simp add: signed_take_bit_int_eq_self)
  with GetJobResultCounts_cases[OF assms(1-3) refl False, of out] False show ?thesis by fastforce
qed

text \<open>Jobs made from C: \<open>NULL\<close> text gives \<open>NULL\<close>; otherwise the new object holds the arguments,
  and freeing it leaves the memory as it was. Freeing \<open>NULL\<close> does nothing.\<close>

theorem create_free_circuit_job:
  assumes "heap_ok h" "MQSSClientCreateCircuitJob (Some c) (Some f) (Some r) shots noModify queued h = (Inr a, h')"
  shows "blocks h' a = Some (JobObj (CircuitJob (CircuitJobRequest (c_str c) (c_str f) (c_str r) shots noModify queued))) \<and>
    (\<exists>h''. MQSSClientFreeJob a h' = Some h'' \<and> blocks h'' = blocks h) \<and>
    MQSSClientFreeJob 0 h' = Some h' \<and>
    MQSSClientCreateCircuitJob None (Some f) (Some r) shots noModify queued h = (Inr 0, h)"
proof -
  let ?b = "JobObj (CircuitJob (CircuitJobRequest (c_str c) (c_str f) (c_str r) shots noModify queued))"
  from assms(2) have n: "new_obj ?b h = (Inr a, h')"
    by (simp add: MQSSClientCreateCircuitJob_def wrap_new_def)
  from assms(1) n have a: "a \<noteq> 0" "blocks h a = None" "blocks h' = (blocks h)(a \<mapsto> ?b)" "heap_ok h'"
    by (auto elim: new_obj_cases)
  with free_block[of h' a ?b] obtain h'' where "free a h' = Some h''" "blocks h'' = (blocks h')(a := None)"
    by auto
  with a show ?thesis
    by (auto simp: MQSSClientFreeJob_def delete_obj_def is_job_def MQSSClientCreateCircuitJob_def fun_eq_iff)
qed

section \<open>Examples\<close>

definition example_counts :: job_result where
  "example_counts =
     \<lparr>jr_mResults = [[(''00'', 60), (''11'', 40)], [(''0'', 1)]], jr_mTimestampCompleted = [],
      jr_mTimestampSubmitted = [], jr_mTimestampScheduled = []\<rparr>"

definition counts_heap :: "(nat \<Rightarrow> bool) \<Rightarrow> unit heap" where
  "counts_heap fails =
     \<lparr>blocks = (\<lambda>a. if a = 1 then Some (ResultObj example_counts) else None), next_addr = 2,
      allocations = 0, oom = fails, zero_null = False\<rparr>"

lemma counts_heap_simps [simp]:
  "heap_ok (counts_heap fails)" "blocks (counts_heap fails) (Suc 0) = Some (ResultObj example_counts)"
  "blocks (counts_heap fails) 1 = Some (ResultObj example_counts)"
  by (simp_all add: counts_heap_def heap_ok_def)

definition no_counts :: counts_out where
  "no_counts = \<lparr>out_bitstreams = 0, out_counts = 0, out_size = 0\<rparr>"

theorem GetJobResultCounts_all_or_nothing_witness:
  "\<exists>code out' h'. MQSSClientGetJobResultCounts 1 [True, True, True] no_counts (counts_heap (\<lambda>k. k = 3)) =
     Some ((code, out'), h') \<and> (code = 0 \<or> code = - 1)"
  using GetJobResultCounts_all_or_nothing[of "counts_heap (\<lambda>k. k = 3)" 1 example_counts "[True, True, True]" no_counts]
  by (auto simp: example_counts_def)

theorem GetJobResultCounts_size_witness:
  "\<exists>code out' h'. MQSSClientGetJobResultCounts 1 [True, True, True] no_counts (counts_heap (\<lambda>k. False)) =
     Some ((code, out'), h') \<and> out_size out' = 3"
  using GetJobResultCounts_size[of "counts_heap (\<lambda>k. False)" 1 example_counts "[True, True, True]" no_counts]
  by (auto simp: example_counts_def)

lemma example_create:
  "MQSSClientCreateCircuitJob (Some ''c'') (Some ''f'') (Some ''r'') 5 False True (counts_heap (\<lambda>k. False)) =
     (Inr 2, snd (malloc 1 (JobObj (CircuitJob (CircuitJobRequest ''c'' ''f'' ''r'' 5 False True)))
        (counts_heap (\<lambda>k. False))))"
  by (simp add: MQSSClientCreateCircuitJob_def wrap_new_def new_obj_def malloc_def counts_heap_def c_str_def)

theorem create_free_circuit_job_witness:
  "MQSSClientCreateCircuitJob None (Some ''f'') (Some ''r'') 5 False True (counts_heap (\<lambda>k. False)) =
     (Inr 0, counts_heap (\<lambda>k. False))"
  using create_free_circuit_job[OF counts_heap_simps(1) example_create] by blast

end
