(* ===== verification/C_Client.thy ===== *)
theory C_Client
  imports C_Resource C_Job Client_Props
begin

text \<open>
  \<open>src/c_bindings/client.cpp\<close>: the client as a C caller sees it. A C function has three kinds of
  end: a return value, an exception that crosses the C boundary, a call that does not return;
  and undefined behaviour, the value \<open>None\<close>, when a handle is not a live object of its kind.
\<close>

section \<open>State\<close>

record ('s, 'j) c_state =
  c_heap :: "('s, 'j) mqss_client heap"
  c_sys :: "'s sys"

type_synonym ('s, 'j, 'a) c_call =
  "('s, 'j) c_state \<Rightarrow> ('a outcome \<times> ('s, 'j) c_state) option"

definition c_ret :: "'a \<Rightarrow> ('s, 'j, 'a) c_call" where
  "c_ret a st = Some (Ret a, st)"

text \<open>\<open>unwrap<MQSSClient>(client)\<close> and \<open>*unwrap<CircuitJobRequest>(job)\<close>. The cast is to
  \<open>CircuitJobRequest\<close> for every job: a handle that \<open>MQSSClientCreateHamiltonianJob\<close> made refers to no
  object of this class, and using it is undefined.\<close>

definition with_client ::
  "addr \<Rightarrow> (('s, 'j) mqss_client \<Rightarrow> ('s, 'j, 'a) c_call) \<Rightarrow> ('s, 'j, 'a) c_call" where
  "with_client client f st =
     (case blocks (c_heap st) client of Some (ClientObj C) \<Rightarrow> f C st | _ \<Rightarrow> None)"

definition with_job :: "addr \<Rightarrow> (job \<Rightarrow> ('s, 'j, 'a) c_call) \<Rightarrow> ('s, 'j, 'a) c_call" where
  "with_job job f st =
     (case blocks (c_heap st) job of Some (JobObj (CircuitJob r)) \<Rightarrow> f (CircuitJob r) st | _ \<Rightarrow> None)"

text \<open>A method call on the client, and what is done with its value.\<close>

definition call_method ::
  "('s sys, 'a) io \<Rightarrow> ('a \<Rightarrow> ('s, 'j, 'b) c_call) \<Rightarrow> ('s, 'j, 'b) c_call" where
  "call_method m f st =
     (case m (c_sys st) of
        (Ret a, w) \<Rightarrow> f a (st\<lparr>c_sys := w\<rparr>)
      | (Exc e, w) \<Rightarrow> Some (Exc e, st\<lparr>c_sys := w\<rparr>)
      | (Hang, w) \<Rightarrow> Some (Hang, st\<lparr>c_sys := w\<rparr>))"

definition c_new :: "('s, 'j) mqss_client block \<Rightarrow> ('s, 'j, addr) c_call" where
  "c_new b st =
     (case new_obj b (c_heap st) of
        (Inl e, h) \<Rightarrow> Some (Exc e, st\<lparr>c_heap := h\<rparr>)
      | (Inr a, h) \<Rightarrow> Some (Ret a, st\<lparr>c_heap := h\<rparr>))"

section \<open>Operations\<close>

text \<open>
  \<open>new MQSSClient(...)\<close> takes its memory before the constructor runs and gives it back when the
  constructor throws; both kinds of failure are \<open>std::exception\<close>s. \<open>ctor\<close> is the constructor.
\<close>

definition MQSSClientCreateClient ::
  "(string \<Rightarrow> string \<Rightarrow> bool \<Rightarrow> ('s sys, ('s, 'j) mqss_client) io) \<Rightarrow>
     string option \<Rightarrow> string option \<Rightarrow> bool \<Rightarrow> ('s, 'j, addr) c_call" where
  "MQSSClientCreateClient ctor token urlOrQueue isHpc st =
     (if token = None \<or> urlOrQueue = None then c_ret 0 st
      else if oom (c_heap st) (allocations (c_heap st)) then
        c_ret 0 (st\<lparr>c_heap := (c_heap st)\<lparr>allocations := allocations (c_heap st) + 1\<rparr>\<rparr>)
      else case ctor (c_str (the token)) (c_str (the urlOrQueue)) isHpc (c_sys st) of
          (Ret C, w) \<Rightarrow> c_new (ClientObj C) (st\<lparr>c_sys := w\<rparr>)
        | (Exc e, w) \<Rightarrow> c_ret 0 (st\<lparr>c_sys := w\<rparr>)
        | (Hang, w) \<Rightarrow> Some (Hang, st\<lparr>c_sys := w\<rparr>))"

text \<open>\<open>given\<close>: the pointer to the size is not \<open>NULL\<close>; the value is the array and the size.\<close>

definition MQSSClientGetAllResources ::
  "'j json_api \<Rightarrow> addr \<Rightarrow> bool \<Rightarrow> int \<Rightarrow> ('s, 'j, addr \<times> int) c_call" where
  "MQSSClientGetAllResources J client given n st =
     (if client = 0 \<or> \<not> given then c_ret (0, n) st
      else with_client client (\<lambda>C. call_method (getAllResources J C) (\<lambda>found st.
        let n' = sint (word_of_nat (length found) :: u32);
            (resources, h) = malloc (length found * 8)
              (Ptrs (replicate (length found) None)) (c_heap st);
            st1 = st\<lparr>c_heap := h\<rparr>
        in if resources = 0 \<and> found \<noteq> [] then c_ret (0, n') st1
           else if found = [] then c_ret (resources, n') st1
           else case fill_objs (map ResourceObj found) 0 resources h of
               None \<Rightarrow> None
             | Some (Inl e, h1) \<Rightarrow> Some (Exc e, st1\<lparr>c_heap := h1\<rparr>)
             | Some (Inr u, h1) \<Rightarrow> c_ret (resources, n') (st1\<lparr>c_heap := h1\<rparr>))) st)"

definition MQSSClientGetResourceInfo ::
  "'j json_api \<Rightarrow> addr \<Rightarrow> string option \<Rightarrow> ('s, 'j, addr) c_call" where
  "MQSSClientGetResourceInfo J client resourceName st =
     (if client = 0 \<or> resourceName = None then c_ret 0 st
      else with_client client (\<lambda>C.
        call_method (getResourceInfo J C (c_str (the resourceName))) (\<lambda>resource.
          case resource of
            None \<Rightarrow> c_ret 0
          | Some r \<Rightarrow> c_new (ResourceObj r))) st)"

definition MQSSClientSubmitJob :: "'j json_api \<Rightarrow> addr \<Rightarrow> addr \<Rightarrow> ('s, 'j, int) c_call" where
  "MQSSClientSubmitJob J client job st =
     (if client = 0 \<or> job = 0 then c_ret (- 1) st
      else with_client client (\<lambda>C. with_job job (\<lambda>j.
        call_method (submitJob J C j) (\<lambda>(uuid, j') st.
          case write_block job (JobObj j') (c_heap st) of
            None \<Rightarrow> None
          | Some h \<Rightarrow>
              (case uuid of
                 None \<Rightarrow> c_ret (- 1) (st\<lparr>c_heap := h\<rparr>)
               | Some u \<Rightarrow>
                   (case stoi u of
                      Inl e \<Rightarrow> c_ret (- 2) (st\<lparr>c_heap := h\<rparr>)
                    | Inr n \<Rightarrow> c_ret n (st\<lparr>c_heap := h\<rparr>)))))) st)"

definition MQSSClientCancelJob :: "addr \<Rightarrow> addr \<Rightarrow> ('s, 'j, unit) c_call" where
  "MQSSClientCancelJob client job st =
     (if client = 0 \<or> job = 0 then c_ret () st
      else with_client client (\<lambda>C. with_job job (\<lambda>j st.
        case cancelJob C j (c_sys st) of
          (Hang, w) \<Rightarrow> Some (Hang, st\<lparr>c_sys := w\<rparr>)
        | (r, w) \<Rightarrow> c_ret () (st\<lparr>c_sys := w\<rparr>))) st)"

definition MQSSClientGetJobResult ::
  "'j json_api \<Rightarrow> addr \<Rightarrow> addr \<Rightarrow> bool \<Rightarrow> u32 \<Rightarrow> ('s, 'j, addr) c_call" where
  "MQSSClientGetJobResult J client job wait timeout st =
     (if client = 0 \<or> job = 0 then c_ret 0 st
      else with_client client (\<lambda>C. with_job job (\<lambda>j.
        call_method (getJobResult J C j wait (ucast timeout)) (\<lambda>jobResult.
          case jobResult of
            None \<Rightarrow> c_ret 0
          | Some r \<Rightarrow> c_new (ResultObj r)))) st)"

definition MQSSClientGetNumberPendingJobs ::
  "'j json_api \<Rightarrow> addr \<Rightarrow> string option \<Rightarrow> ('s, 'j, int) c_call" where
  "MQSSClientGetNumberPendingJobs J client resourceName st =
     (if client = 0 \<or> resourceName = None then c_ret (- 1) st
      else with_client client (\<lambda>C.
        call_method (getNumberPendingJobs J C (c_str (the resourceName))) c_ret) st)"

definition is_client :: "'c block \<Rightarrow> bool" where
  "is_client b \<longleftrightarrow> (\<exists>C. b = ClientObj C)"

text \<open>\<open>destroy\<close> is the destructor's effect outside.\<close>

definition MQSSClientFreeClient ::
  "(('s, 'j) mqss_client \<Rightarrow> 's sys \<Rightarrow> 's sys) \<Rightarrow> addr \<Rightarrow> ('s, 'j) c_state \<Rightarrow> ('s, 'j) c_state option" where
  "MQSSClientFreeClient destroy client st =
     (if client = 0 then Some st
      else case blocks (c_heap st) client of
        Some (ClientObj C) \<Rightarrow>
          (case delete_obj is_client client (c_heap st) of
             None \<Rightarrow> None
           | Some h \<Rightarrow> Some (st\<lparr>c_heap := h, c_sys := destroy C (c_sys st)\<rparr>))
      | _ \<Rightarrow> None)"

section \<open>Evaluation\<close>

lemmas c_call_defs = c_ret_def with_client_def with_job_def call_method_def

text \<open>A live client and a live circuit job.\<close>

definition handles :: "('s, 'j) c_state \<Rightarrow> addr \<Rightarrow> ('s, 'j) mqss_client \<Rightarrow> addr \<Rightarrow> job \<Rightarrow> bool" where
  "handles st client C job j \<longleftrightarrow> heap_ok (c_heap st) \<and>
     blocks (c_heap st) client = Some (ClientObj C) \<and> blocks (c_heap st) job = Some (JobObj j) \<and>
     (\<exists>r. j = CircuitJob r)"

lemma handles_nonzero: "handles st client C job j \<Longrightarrow> client \<noteq> 0 \<and> job \<noteq> 0"
  using live_nonzero by (auto simp: handles_def)

definition submit_code :: "string option \<Rightarrow> int" where
  "submit_code uuid =
     (case uuid of None \<Rightarrow> - 1 | Some u \<Rightarrow> (case stoi u of Inl e \<Rightarrow> - 2 | Inr n \<Rightarrow> n))"

lemma SubmitJob_eval:
  assumes "handles st client C job j" "submitJob J C j (c_sys st) = (r, w)"
  shows "\<exists>st'. MQSSClientSubmitJob J client job st =
      Some (case r of Hang \<Rightarrow> Hang | Exc e \<Rightarrow> Exc e | Ret (u, j') \<Rightarrow> Ret (submit_code u), st') \<and>
    c_sys st' = w \<and> heap_ok (c_heap st') \<and>
    blocks (c_heap st') = (case r of Ret (u, j') \<Rightarrow> (blocks (c_heap st))(job \<mapsto> JobObj j') | _ \<Rightarrow> blocks (c_heap st))"
proof -
  from assms(1) have h: "heap_ok (c_heap st)" "blocks (c_heap st) client = Some (ClientObj C)"
    "blocks (c_heap st) job = Some (JobObj j)" and "\<exists>r. j = CircuitJob r" by (simp_all add: handles_def)
  then obtain q where q: "j = CircuitJob q" by blast
  note nz = handles_nonzero[OF assms(1)]
  show ?thesis
  proof (cases r)
    case (Ret x)
    obtain u j' where x: "x = (u, j')" by (cases x)
    obtain h' where w: "write_block job (JobObj j') (c_heap st) = Some h'"
      "blocks h' = (blocks (c_heap st))(job \<mapsto> JobObj j')" "heap_ok h'"
      using write_block_blocks[OF h(3,1)] by blast
    with Ret x h nz q assms(2) show ?thesis
      by (simp add: MQSSClientSubmitJob_def c_call_defs submit_code_def split: option.splits sum.splits)
  qed (use h nz q assms(2) in \<open>simp_all add: MQSSClientSubmitJob_def c_call_defs\<close>)
qed

lemma submitJob_response:
  assumes "json_laws J" "call_post C (getPath j) (toJson J (mIsHpc C) j) w = (Ret resp, w1)"
  shows "submitJob J C j w =
    (case response_uuid J resp of
       Inl e \<Rightarrow> (Exc e, w1)
     | Inr None \<Rightarrow> (Ret (None, j), w1)
     | Inr (Some u) \<Rightarrow> (Ret (Some u, setUuid u j), w1))"
  using assms(2) by (simp add: submitJob_reads[OF assms(1)] bind_io_def split: sum.splits option.splits)

lemma SubmitJob_response:
  assumes "json_laws J" "handles st client C job j"
    and "call_post C (getPath j) (toJson J (mIsHpc C) j) (c_sys st) = (Ret resp, w)"
  shows "\<exists>st'. MQSSClientSubmitJob J client job st =
      Some (case response_uuid J resp of
          Inl e \<Rightarrow> Exc e
        | Inr u \<Rightarrow> Ret (submit_code u), st') \<and>
    c_sys st' = w \<and> heap_ok (c_heap st') \<and>
    blocks (c_heap st') = (case response_uuid J resp of
        Inr (Some u) \<Rightarrow> (blocks (c_heap st))(job \<mapsto> JobObj (setUuid u j))
      | _ \<Rightarrow> blocks (c_heap st))"
proof -
  have "(blocks (c_heap st))(job \<mapsto> JobObj j) = blocks (c_heap st)"
    using assms(2) by (simp add: handles_def fun_upd_idem)
  with SubmitJob_eval[where J = J, OF assms(2) surjective_pairing] submitJob_response[OF assms(1,3)]
  show ?thesis by (auto split: sum.splits option.splits)
qed

section \<open>Properties\<close>

text \<open>Submitting from C, on every response: -1 when the server gives no uuid, -2 when the uuid
  starts with no number, otherwise the number the uuid starts with; a uuid that is no string is a
  JSON exception that crosses the C boundary. The job object gets the uuid exactly when there is
  one, and nothing else in memory changes.\<close>

theorem C_submit_outcome:
  assumes "json_laws J" "handles st client C job j"
    and "call_post C (getPath j) (toJson J (mIsHpc C) j) (c_sys st) = (Ret resp, w)"
  shows "\<exists>st'. MQSSClientSubmitJob J client job st =
      Some (case response_uuid J resp of
          Inl e \<Rightarrow> Exc e
        | Inr None \<Rightarrow> Ret (- 1)
        | Inr (Some u) \<Rightarrow> Ret (case stoi u of Inl e \<Rightarrow> - 2 | Inr n \<Rightarrow> n), st') \<and>
    c_sys st' = w \<and>
    blocks (c_heap st') = (case response_uuid J resp of
        Inr (Some u) \<Rightarrow> (blocks (c_heap st))(job \<mapsto> JobObj (setUuid u j))
      | _ \<Rightarrow> blocks (c_heap st))"
  using SubmitJob_response[OF assms] by (auto simp: submit_code_def split: sum.splits option.splits)

text \<open>What a submission from C stores is what the later calls use: after the server gave the
  uuid \<open>u\<close>, cancelling the same handle sends one DELETE for \<open>path/u\<close>; and when \<open>u\<close> is the decimal
  text of an \<open>int\<close>, the submission returned that number.\<close>

theorem C_submit_then_cancel:
  assumes "json_laws J" "handles st client C job j" "client \<noteq> job"
    and "call_post C (getPath j) (toJson J (mIsHpc C) j) (c_sys st) = (Ret resp, w)"
    and "response_uuid J resp = Inr (Some u)"
  shows "\<exists>code st1. MQSSClientSubmitJob J client job st = Some (Ret code, st1) \<and>
    (\<forall>i. int_min \<le> i \<and> i \<le> int_max \<and> u = to_string i \<longrightarrow> code = i) \<and>
    (\<forall>r st2. MQSSClientCancelJob client job st1 = Some (r, st2) \<longrightarrow>
       trace (c_sys st2) = trace w @ [EvDel (getPath j @ ''/'' @ u) (fst (call_del C (getPath j @ ''/'' @ u) w))])"
proof -
  from SubmitJob_response[OF assms(1,2,4)] assms(5) obtain st1 where st1:
    "MQSSClientSubmitJob J client job st = Some (Ret (submit_code (Some u)), st1)" "c_sys st1 = w"
    "blocks (c_heap st1) = (blocks (c_heap st))(job \<mapsto> JobObj (setUuid u j))" by auto
  have h: "blocks (c_heap st1) client = Some (ClientObj C)" "client \<noteq> 0" "job \<noteq> 0"
    using assms(2,3) st1(3) handles_nonzero[OF assms(2)] by (simp_all add: handles_def)
  from assms(2) obtain q where q: "setUuid u j = CircuitJob q" by (auto simp: handles_def)
  have url: "job_url (CircuitJob q) = getPath j @ ''/'' @ u" unfolding q[symmetric] by (simp add: job_url_def)
  have "trace (c_sys st2) = trace w @ [EvDel (getPath j @ ''/'' @ u) (fst (call_del C (getPath j @ ''/'' @ u) w))]"
    if "MQSSClientCancelJob client job st1 = Some (r, st2)" for r st2
  proof -
    have "c_sys st2 = snd (call_del C (getPath j @ ''/'' @ u) w)"
      using that h st1(2,3) unfolding MQSSClientCancelJob_def cancelJob_def q
      by (auto simp: c_call_defs url split: prod.splits outcome.splits)
    then show ?thesis by (simp add: call_del_def split: prod.splits)
  qed
  moreover have "submit_code (Some u) = i" if "int_min \<le> i" "i \<le> int_max" "u = to_string i" for i
    using stoi_to_string[OF that(1,2)] that(3) by (simp add: submit_code_def)
  ultimately show ?thesis using st1(1) by blast
qed

text \<open>The number a C caller gets for a job is only the leading number of its uuid: any uuid
  that starts with the digits of \<open>n\<close> and goes on with something else is reported as \<open>n\<close>, so that
  different jobs can get the same number.\<close>

theorem C_submit_number_is_prefix:
  assumes "json_laws J" "handles st client C job j"
    and "call_post C (getPath j) (toJson J (mIsHpc C) j) (c_sys st) = (Ret resp, w)"
    and "response_uuid J resp = Inr (Some (nat_digits n @ rest))" "int n \<le> int_max"
    and "rest = [] \<or> \<not> is_digit (hd rest)"
  shows "\<exists>st'. MQSSClientSubmitJob J client job st = Some (Ret (int n), st')"
  using SubmitJob_response[OF assms(1-3)] assms(4) stoi_nat_digits[OF assms(5,6)]
  by (auto simp: submit_code_def)

text \<open>A job for a Hamiltonian can be made from C, but nothing can be done with it: submitting it, cancelling it
  and asking for its result all go through the cast to \<open>CircuitJobRequest\<close>, which it is not.\<close>

theorem C_hamiltonian_undefined:
  assumes "blocks (c_heap st) job = Some (JobObj (HamiltonianJob r))" "client \<noteq> 0" "job \<noteq> 0"
  shows "MQSSClientSubmitJob J client job st = None \<and> MQSSClientCancelJob client job st = None \<and>
    MQSSClientGetJobResult J client job wait timeout st = None"
  using assms by (simp add: MQSSClientSubmitJob_def MQSSClientCancelJob_def MQSSClientGetJobResult_def
      with_client_def with_job_def split: option.splits block.splits)

text \<open>Cancelling from C never lets an exception out and changes no memory: whatever the
  transport throws, the call returns.\<close>

theorem C_cancel_contains_exceptions:
  assumes "handles st client C job j"
  shows "\<exists>r st'. MQSSClientCancelJob client job st = Some (r, st') \<and> (\<forall>e. r \<noteq> Exc e) \<and>
    c_heap st' = c_heap st \<and> c_sys st' = snd (cancelJob C j (c_sys st))"
  using assms handles_nonzero[OF assms]
  by (cases "cancelJob C j (c_sys st)"; cases "fst (cancelJob C j (c_sys st))")
    (auto simp: handles_def MQSSClientCancelJob_def c_call_defs)

text \<open>Creating a client from C never throws: it returns \<open>NULL\<close> with the memory as before, when
  an argument is \<open>NULL\<close>, the memory is missing or the constructor throws (a bad URL, a server that
  does not answer, a broker that cannot be reached), and otherwise the handle of the client the
  constructor made.\<close>

theorem C_create_contains_exceptions:
  assumes "heap_ok (c_heap st)"
  shows "\<exists>r st'. MQSSClientCreateClient ctor token url isHpc st = Some (r, st') \<and>
    (case r of
       Exc e \<Rightarrow> False
     | Hang \<Rightarrow> fst (ctor (c_str (the token)) (c_str (the url)) isHpc (c_sys st)) = Hang
     | Ret a \<Rightarrow>
         if a = 0 then blocks (c_heap st') = blocks (c_heap st)
         else \<exists>C. ctor (c_str (the token)) (c_str (the url)) isHpc (c_sys st) = (Ret C, c_sys st') \<and>
           blocks (c_heap st) a = None \<and> blocks (c_heap st') = (blocks (c_heap st))(a \<mapsto> ClientObj C))"
proof -
  let ?r = "ctor (c_str (the token)) (c_str (the url)) isHpc (c_sys st)"
  obtain out w where cw: "?r = (out, w)" by fastforce
  show ?thesis
  proof (cases "token \<noteq> None \<and> url \<noteq> None \<and> \<not> oom (c_heap st) (allocations (c_heap st))")
    case True
    show ?thesis
    proof (cases out)
      case (Ret C)
      obtain a h where n: "new_obj (ClientObj C) (c_heap st) = (Inr a, h)"
        using True assms by (auto simp: new_obj_def malloc_def Let_def heap_ok_def)
      from assms n have "a \<noteq> 0" "blocks (c_heap st) a = None"
        "blocks h = (blocks (c_heap st))(a \<mapsto> ClientObj C)" by (auto elim: new_obj_cases)
      with True Ret cw n show ?thesis by (auto simp: MQSSClientCreateClient_def c_new_def)
    qed (use True cw in \<open>simp_all add: MQSSClientCreateClient_def c_ret_def\<close>)
  qed (auto simp: MQSSClientCreateClient_def c_ret_def)
qed

text \<open>The resources reach C as one array with one new object per resource, in order; without
  memory for the array the call returns \<open>NULL\<close> and nothing has changed, but the size is still
  reported. What \<open>getAllResources\<close> throws is not caught: an answer of the server that cannot be
  read as resources ends in an exception across the C boundary.\<close>

theorem C_all_resources:
  assumes "heap_ok (c_heap st)" "blocks (c_heap st) client = Some (ClientObj C)"
    and "getAllResources J C (c_sys st) = (out, w)" "out \<noteq> Ret []"
  shows "\<exists>r st'. MQSSClientGetAllResources J client True n st = Some (r, st') \<and> c_sys st' = w \<and>
    (case out of
       Hang \<Rightarrow> r = Hang
     | Exc e \<Rightarrow> r = Exc e \<and> c_heap st' = c_heap st
     | Ret found \<Rightarrow>
         r = Exc Bad_alloc \<or>
         (\<exists>a. r = Ret (a, sint (word_of_nat (length found) :: u32)) \<and>
            (if a = 0 then blocks (c_heap st') = blocks (c_heap st)
             else \<exists>as. blocks (c_heap st') a = Some (Ptrs (map Some as)) \<and> distinct as \<and>
               list_all2 (\<lambda>p x. blocks (c_heap st') p = Some (ResourceObj x)) as found)))"
proof (cases out)
  case (Ret found)
  have c0: "client \<noteq> 0" using live_nonzero[OF assms(1,2)] .
  let ?N = "length found"
  obtain a h where m: "malloc (?N * 8) (Ptrs (replicate ?N None)) (c_heap st) = (a, h)" by fastforce
  show ?thesis
  proof (cases "a = 0")
    case True
    with malloc_null[OF assms(1)] m have "blocks h = blocks (c_heap st)" by auto
    with True c0 assms Ret m show ?thesis by (simp add: MQSSClientGetAllResources_def c_call_defs)
  next
    case False
    from malloc_fresh[OF assms(1) m False] have f: "heap_ok h" "blocks h a = Some (Ptrs (replicate ?N None))"
      by auto
    then obtain res h' where fo: "fill_objs (map ResourceObj found) 0 a h = Some (res, h')"
      "res = Inl Bad_alloc \<or> res = Inr () \<and> (\<exists>as. objs_at h h' a as (map ResourceObj found) \<and>
         blocks h' a = Some (Ptrs (map Some as)))"
      using fill_objs_cases[of h a "replicate ?N None" 0 "map ResourceObj found"] by auto
    have "found \<noteq> []" using assms(4) Ret by simp
    note eval = this False c0 assms(2,3) Ret m fo(1) MQSSClientGetAllResources_def c_call_defs
    show ?thesis
    proof (cases "res = Inl Bad_alloc")
      case True
      then show ?thesis by (simp add: eval)
    next
      case ok: False
      with fo(2) obtain as where "res = Inr ()" "blocks h' a = Some (Ptrs (map Some as))" "distinct as"
        "list_all2 (\<lambda>p x. blocks h' p = Some (ResourceObj x)) as found"
        by (auto simp: objs_at_def list_all2_map2)
      then show ?thesis by (auto simp: eval)
    qed
  qed
qed (use assms live_nonzero[OF assms(1,2)] in
    \<open>simp_all add: MQSSClientGetAllResources_def c_call_defs\<close>)

text \<open>Freeing a client that was created gives its memory back, runs its destructor once, and
  leaves every other object alone; \<open>NULL\<close> is ignored, and freeing the same handle again is
  undefined.\<close>

theorem C_free_client:
  assumes "heap_ok (c_heap st)" "blocks (c_heap st) client = Some (ClientObj C)"
  shows "\<exists>st'. MQSSClientFreeClient destroy client st = Some st' \<and>
    blocks (c_heap st') = (blocks (c_heap st))(client := None) \<and>
    c_sys st' = destroy C (c_sys st) \<and> MQSSClientFreeClient destroy client st' = None \<and>
    MQSSClientFreeClient destroy 0 st' = Some st'"
proof -
  have c0: "client \<noteq> 0" using live_nonzero[OF assms] .
  from free_block[OF assms] obtain h where "free client (c_heap st) = Some h"
    "blocks h = (blocks (c_heap st))(client := None)" by blast
  with c0 assms(2) show ?thesis
    by (simp add: MQSSClientFreeClient_def delete_obj_def is_client_def)
qed

text \<open>Null handles and null names are refused before the client, the job or the server is
  touched.\<close>

theorem C_client_null_arguments:
  "MQSSClientSubmitJob J 0 job st = Some (Ret (- 1), st) \<and>
   MQSSClientSubmitJob J client 0 st = Some (Ret (- 1), st) \<and>
   MQSSClientCancelJob 0 job st = Some (Ret (), st) \<and>
   MQSSClientGetJobResult J client 0 wait timeout st = Some (Ret 0, st) \<and>
   MQSSClientGetResourceInfo J client None st = Some (Ret 0, st) \<and>
   MQSSClientGetNumberPendingJobs J 0 name st = Some (Ret (- 1), st) \<and>
   MQSSClientGetAllResources J client False n st = Some (Ret (0, n), st) \<and>
   MQSSClientCreateClient ctor None url isHpc st = Some (Ret 0, st)"
  by (simp add: MQSSClientSubmitJob_def MQSSClientCancelJob_def MQSSClientGetJobResult_def
      MQSSClientGetResourceInfo_def MQSSClientGetNumberPendingJobs_def
      MQSSClientGetAllResources_def MQSSClientCreateClient_def c_ret_def)

text \<open>A timeout given in C always reaches the client as it is (an \<open>unsigned int\<close> fits a
  \<open>size_t\<close>), but from 2 to the 31 on the client takes it for negative: the call returns \<open>NULL\<close> at
  once without asking for the status.\<close>

theorem C_wait_oversize:
  assumes "handles st client C job j" "2 ^ 31 \<le> uint timeout"
  shows "MQSSClientGetJobResult J client job True timeout st = Some (Ret 0, st)"
proof -
  have lt: "uint timeout < 2 ^ 32" using uint_lt2p[of timeout] by simp
  then have u: "uint (ucast timeout :: u64) = uint timeout"
    by (simp add: unsigned_ucast_eq take_bit_int_eq_self_iff)
  with assms(2) lt have "size_to_int (ucast timeout) < 0" by (intro size_to_int_negative) simp_all
  then have "getJobResult J C j True (ucast timeout) w = (Ret None, w)" for w
    by (simp add: getJobResult_def waitForJobResult.simps)
  with assms(1) handles_nonzero[OF assms(1)] show ?thesis
    by (auto simp: handles_def MQSSClientGetJobResult_def c_call_defs)
qed

section \<open>Examples\<close>

definition c_example :: "string \<Rightarrow> (string list, jv) c_state" where
  "c_example resp =
     \<lparr>c_heap = example_heap (\<lambda>k. False) False [ClientObj example_client, JobObj example_job],
      c_sys = example_sys [resp]\<rparr>"

lemma c_example_handles:
  "handles (c_example resp) 1 example_client 2 example_job"
  "heap_ok (c_heap (c_example resp))"
  "blocks (c_heap (c_example resp)) 1 = Some (ClientObj example_client)"
  by (simp_all add: handles_def c_example_def example_job_def)

definition uuid_json :: "jv json_api" where
  "uuid_json = ref_json
     [(''U'', JObj [(''uuid'', JStr ''42'')]), (''V'', JObj [(''uuid'', JStr ''550e8400'')])]"

lemma uuid_json_laws: "json_laws uuid_json"
  by (simp add: uuid_json_def ref_json_laws)

lemma c_example_post:
  "call_post example_client (getPath example_job) d (c_sys (c_example resp)) =
     (Ret resp, \<lparr>net = [], trace = [EvPost (getPath example_job) (Ret resp)]\<rparr>)" for d :: jv
  by (simp add: call_post_def example_client_def example_sys_def c_example_def)

lemma uuid_responses:
  "response_uuid uuid_json ''U'' = Inr (Some ''42'')"
  "response_uuid uuid_json ''V'' = Inr (Some ''550e8400'')"
  by (simp_all add: response_uuid_def uuid_json_def)

lemma digits_550: "nat_digits 550 = ''550''"
  by code_simp

theorem C_submit_outcome_witness:
  "\<exists>st'. MQSSClientSubmitJob uuid_json 1 2 (c_example ''U'') =
     Some (Ret (case stoi ''42'' of Inl e \<Rightarrow> - 2 | Inr n \<Rightarrow> n), st')"
  using C_submit_outcome[OF uuid_json_laws c_example_handles(1) c_example_post, of "''U''"]
  by (auto simp: uuid_responses)

theorem C_submit_number_is_prefix_witness:
  "\<exists>st'. MQSSClientSubmitJob uuid_json 1 2 (c_example ''V'') = Some (Ret 550, st')"
proof -
  have u: "response_uuid uuid_json ''V'' = Inr (Some (nat_digits 550 @ ''e8400''))"
    by (simp add: uuid_responses digits_550)
  have "\<not> is_digit (hd ''e8400'')" by (simp add: is_digit_def)
  with C_submit_number_is_prefix[OF uuid_json_laws c_example_handles(1) c_example_post u] show ?thesis
    by simp
qed

theorem C_submit_then_cancel_witness:
  "\<exists>st1. MQSSClientSubmitJob uuid_json 1 2 (c_example ''U'') = Some (Ret 42, st1)"
proof -
  have "to_string 42 = ''42''" by code_simp
  with C_submit_then_cancel[OF uuid_json_laws c_example_handles(1) _ c_example_post uuid_responses(1)]
  show ?thesis by fastforce
qed

theorem C_cancel_contains_exceptions_witness:
  "\<exists>r st'. MQSSClientCancelJob 1 2 (c_example ''U'') = Some (r, st') \<and> (\<forall>e. r \<noteq> Exc e)"
  using C_cancel_contains_exceptions[OF c_example_handles(1), of "''U''"] by blast

theorem C_create_contains_exceptions_witness:
  "\<exists>r st'. MQSSClientCreateClient (\<lambda>token url isHpc. throw_io (Runtime_error ''down'')) (Some ''t'') (Some ''u'')
     False (c_example ''U'') = Some (r, st')"
  using C_create_contains_exceptions[OF c_example_handles(2)] by blast

lemma example_all_resources:
  "getAllResources resources_json example_client (c_sys (c_example ''E'')) \<noteq> (Ret [], w)"
  "getAllResources resources_json example_client (c_sys (c_example ''E'')) =
     (Exc (Json_exn ''type_error.306''), \<lparr>net = [], trace = [EvGet ''resources'' (Ret ''E'')]\<rparr>)"
  by (simp_all add: getAllResources_def bind_io_def c_example_def example_get resources_json_def
      Resource_json_def jv_simps)

theorem C_all_resources_witness:
  "\<exists>st'. MQSSClientGetAllResources resources_json 1 True 0 (c_example ''E'') =
     Some (Exc (Json_exn ''type_error.306''), st')"
  using C_all_resources[OF c_example_handles(2,3) example_all_resources(2)] by auto

theorem C_free_client_witness:
  "\<exists>st'. MQSSClientFreeClient (\<lambda>C w. w) 1 (c_example ''U'') = Some st' \<and>
     MQSSClientFreeClient (\<lambda>C w. w) 1 st' = None"
  using C_free_client[OF c_example_handles(2,3), of "\<lambda>C w. w" "''U''"] by blast

theorem C_wait_oversize_witness:
  "MQSSClientGetJobResult uuid_json 1 2 True (2 ^ 31) (c_example ''C'') = Some (Ret 0, c_example ''C'')"
  by (rule C_wait_oversize[OF c_example_handles(1)]) simp

end
