(* ===== verification/Timestamp.thy ===== *)
theory Timestamp
  imports C_Job
begin

text \<open>
  \<open>parseTimestamp\<close> and the three timestamp getters of \<open>src/c_bindings/job.cpp\<close>. \<open>std::get_time\<close>
  is modelled for the one format used, as the GNU library reads it: leading white space is
  skipped, fields have exactly the full number of digits and a range, and on a mismatch the fields
  read so far stay set. (A year of two digits, which some versions of the library read, is taken
  for a mismatch.)
  \<open>std::mktime\<close> depends on the time zone of the process, so it is a parameter.
\<close>

section \<open>Reading a date\<close>

record tm =
  tm_year :: int
  tm_mon :: int
  tm_mday :: int
  tm_hour :: int
  tm_min :: int
  tm_sec :: int

definition zero_tm :: tm where
  "zero_tm = \<lparr>tm_year = 0, tm_mon = 0, tm_mday = 0, tm_hour = 0, tm_min = 0, tm_sec = 0\<rparr>"

definition get_field :: "nat \<Rightarrow> nat \<Rightarrow> nat \<Rightarrow> string \<Rightarrow> (nat \<times> string) option" where
  "get_field k lo hi s =
     (let ds = take k s in
      if length ds = k \<and> list_all is_digit ds \<and> lo \<le> dec_val ds \<and> dec_val ds \<le> hi
      then Some (dec_val ds, drop k s)
      else None)"

fun get_literal :: "char \<Rightarrow> string \<Rightarrow> string option" where
  "get_literal c [] = None"
| "get_literal c (d # s) = (if d = c then Some s else None)"

text \<open>A field after a literal, both or nothing: the conversion that sets one member.\<close>

definition get_next :: "char \<Rightarrow> nat \<Rightarrow> nat \<Rightarrow> string \<Rightarrow> (nat \<times> string) option" where
  "get_next c lo hi s = (case get_literal c s of None \<Rightarrow> None | Some s' \<Rightarrow> get_field 2 lo hi s')"

text \<open>The format \<open>%Y-%m-%d %H:%M:%S\<close>; a blank in it matches any white space, also none.\<close>

definition get_time :: "string \<Rightarrow> tm \<Rightarrow> tm" where
  "get_time s t0 =
     (case get_field 4 0 9999 (dropWhile is_space s) of None \<Rightarrow> t0 | Some (y, s1) \<Rightarrow>
      let t1 = t0\<lparr>tm_year := int y - 1900\<rparr> in
      case get_next CHR ''-'' 1 12 s1 of None \<Rightarrow> t1 | Some (mo, s2) \<Rightarrow>
      let t2 = t1\<lparr>tm_mon := int mo - 1\<rparr> in
      case get_next CHR ''-'' 1 31 s2 of None \<Rightarrow> t2 | Some (d, s3) \<Rightarrow>
      let t3 = t2\<lparr>tm_mday := int d\<rparr> in
      case get_field 2 0 23 (dropWhile is_space s3) of None \<Rightarrow> t3 | Some (ho, s4) \<Rightarrow>
      let t4 = t3\<lparr>tm_hour := int ho\<rparr> in
      case get_next CHR '':'' 0 59 s4 of None \<Rightarrow> t4 | Some (mi, s5) \<Rightarrow>
      let t5 = t4\<lparr>tm_min := int mi\<rparr> in
      case get_next CHR '':'' 0 60 s5 of None \<Rightarrow> t5 | Some (se, s6) \<Rightarrow>
      t5\<lparr>tm_sec := int se\<rparr>)"

section \<open>Microseconds since the epoch\<close>

text \<open>The clock counts nanoseconds in 64 bits; beyond them the arithmetic is undefined.\<close>

definition clock_ok :: "int \<Rightarrow> bool" where
  "clock_ok ns \<longleftrightarrow> - (2 ^ 63) \<le> ns \<and> ns < 2 ^ 63"

definition parseTimestamp :: "(tm \<Rightarrow> int) \<Rightarrow> string \<Rightarrow> u64 result option" where
  "parseTimestamp mktime s =
     (let tt = mktime (get_time (take 19 s) zero_tm) in
      if \<not> clock_ok (tt * 10 ^ 9) then None
      else case str_find ''.'' s of
        None \<Rightarrow> Some (Inr (word_of_int (tt * 10 ^ 6)))
      | Some dot \<Rightarrow>
          (case stoi (drop (dot + 1) s) of
             Inl e \<Rightarrow> Some (Inl e)
           | Inr micros \<Rightarrow>
               if \<not> clock_ok (tt * 10 ^ 9 + micros * 10 ^ 3) then None
               else Some (Inr (word_of_int (tt * 10 ^ 6 + micros)))))"

text \<open>The texts for which the clock is wide enough: the date and, if a number follows a dot, the date with its
  fraction. A 64-bit \<open>mktime\<close> goes far beyond it (the clock ends in the year 2262).\<close>

definition clock_holds :: "(tm \<Rightarrow> int) \<Rightarrow> string \<Rightarrow> bool" where
  "clock_holds mktime s \<longleftrightarrow>
     (let tt = mktime (get_time (take 19 s) zero_tm) in
      clock_ok (tt * 10 ^ 9) \<and>
      (\<forall>dot micros. str_find ''.'' s = Some dot \<and> stoi (drop (dot + 1) s) = Inr micros \<longrightarrow>
         clock_ok (tt * 10 ^ 9 + micros * 10 ^ 3)))"

lemma parseTimestamp_defined: "parseTimestamp mktime s = None \<longleftrightarrow> \<not> clock_holds mktime s"
  by (auto simp: parseTimestamp_def clock_holds_def Let_def split: option.splits sum.splits)

section \<open>The getters\<close>

text \<open>\<open>given\<close> says whether the out pointer is not \<open>NULL\<close>; \<open>out\<close> is the caller's variable.\<close>

definition timestamp_getter ::
  "(job_result \<Rightarrow> string) \<Rightarrow> (tm \<Rightarrow> int) \<Rightarrow> addr \<Rightarrow> bool \<Rightarrow> u64 \<Rightarrow> 'c heap \<Rightarrow> (int \<times> u64) option" where
  "timestamp_getter field mktime jobResult given out h =
     (if jobResult = 0 \<or> \<not> given then Some (- 1, out)
      else case blocks h jobResult of
        Some (ResultObj jr) \<Rightarrow>
          (case parseTimestamp mktime (field jr) of
             None \<Rightarrow> None
           | Some (Inl e) \<Rightarrow> Some (- 2, out)
           | Some (Inr t) \<Rightarrow> Some (0, t))
      | _ \<Rightarrow> None)"

definition MQSSClientGetJobResultCompletedTimestamp ::
  "(tm \<Rightarrow> int) \<Rightarrow> addr \<Rightarrow> bool \<Rightarrow> u64 \<Rightarrow> 'c heap \<Rightarrow> (int \<times> u64) option" where
  "MQSSClientGetJobResultCompletedTimestamp = timestamp_getter jr_mTimestampCompleted"

definition MQSSClientGetJobResultSubmittedTimestamp ::
  "(tm \<Rightarrow> int) \<Rightarrow> addr \<Rightarrow> bool \<Rightarrow> u64 \<Rightarrow> 'c heap \<Rightarrow> (int \<times> u64) option" where
  "MQSSClientGetJobResultSubmittedTimestamp = timestamp_getter jr_mTimestampSubmitted"

definition MQSSClientGetJobResultScheduledTimestamp ::
  "(tm \<Rightarrow> int) \<Rightarrow> addr \<Rightarrow> bool \<Rightarrow> u64 \<Rightarrow> 'c heap \<Rightarrow> (int \<times> u64) option" where
  "MQSSClientGetJobResultScheduledTimestamp = timestamp_getter jr_mTimestampScheduled"

section \<open>Writing a date\<close>

text \<open>\<open>n\<close> in \<open>k\<close> digits.\<close>

fun pad :: "nat \<Rightarrow> nat \<Rightarrow> string" where
  "pad 0 n = []"
| "pad (Suc k) n = pad k (n div 10) @ [digit_char (n mod 10)]"

lemma pad_length [simp]: "length (pad k n) = k"
  by (induction k arbitrary: n) simp_all

lemma pad_digits: "list_all is_digit (pad k n)"
  by (induction k arbitrary: n) simp_all

lemma dec_val_pad: "dec_val (pad k n) = n mod 10 ^ k"
proof (induction k arbitrary: n)
  case 0
  show ?case by (simp add: dec_val_def)
next
  case (Suc k)
  then show ?case by (simp add: dec_val_snoc mod_mult2_eq add.commute)
qed

definition print_date :: "nat \<Rightarrow> nat \<Rightarrow> nat \<Rightarrow> nat \<Rightarrow> nat \<Rightarrow> nat \<Rightarrow> string" where
  "print_date y mo d ho mi se =
     pad 4 y @ ''-'' @ pad 2 mo @ ''-'' @ pad 2 d @ '' '' @ pad 2 ho @ '':'' @ pad 2 mi @ '':'' @ pad 2 se"

definition date_ok :: "nat \<Rightarrow> nat \<Rightarrow> nat \<Rightarrow> nat \<Rightarrow> nat \<Rightarrow> nat \<Rightarrow> bool" where
  "date_ok y mo d ho mi se \<longleftrightarrow> y \<le> 9999 \<and> 1 \<le> mo \<and> mo \<le> 12 \<and> 1 \<le> d \<and> d \<le> 31 \<and> ho \<le> 23 \<and> mi \<le> 59 \<and> se \<le> 60"

definition date_tm :: "nat \<Rightarrow> nat \<Rightarrow> nat \<Rightarrow> nat \<Rightarrow> nat \<Rightarrow> nat \<Rightarrow> tm" where
  "date_tm y mo d ho mi se =
     \<lparr>tm_year = int y - 1900, tm_mon = int mo - 1, tm_mday = int d, tm_hour = int ho,
      tm_min = int mi, tm_sec = int se\<rparr>"

lemma get_field_pad:
  assumes "lo \<le> n" "n \<le> hi" "hi < 10 ^ k"
  shows "get_field k lo hi (pad k n @ s) = Some (n, s)"
proof -
  have "n < 10 ^ k" using assms by simp
  then show ?thesis using assms pad_digits[of k n] by (simp add: get_field_def Let_def dec_val_pad)
qed

lemma get_next_pad: "lo \<le> n \<Longrightarrow> n \<le> hi \<Longrightarrow> hi < 100 \<Longrightarrow>
     get_next c lo hi (c # pad 2 n @ s) = Some (n, s)"
  using get_field_pad[of lo n hi 2 s] by (simp add: get_next_def)

lemma get_next_pad_pos:
  "0 < n \<Longrightarrow> n \<le> hi \<Longrightarrow> hi < 100 \<Longrightarrow> get_next c (Suc 0) hi (c # pad 2 n @ s) = Some (n, s)"
  by (rule get_next_pad) simp_all

lemma pad_not_space:
  assumes "0 < k"
  shows "dropWhile is_space (pad k n @ s) = pad k n @ s"
proof -
  have "pad k n \<noteq> []" using assms pad_length[of k n] by (metis list.size(3) less_irrefl)
  moreover from this have "is_digit (hd (pad k n))"
    using pad_digits[of k n] by (cases "pad k n") simp_all
  ultimately show ?thesis by (cases "pad k n") (simp_all add: is_digit_not_space)
qed

lemma blank_is_space: "is_space CHR '' ''"
  by (simp add: is_space_def)

lemma get_time_print:
  assumes "date_ok y mo d ho mi se"
  shows "get_time (print_date y mo d ho mi se @ s) t0 = date_tm y mo d ho mi se"
proof -
  from assms have b: "y \<le> 9999" "0 < mo" "mo \<le> 12" "0 < d" "d \<le> 31" "ho \<le> 23" "mi \<le> 59" "se \<le> 60"
    by (simp_all add: date_ok_def)
  show ?thesis
    unfolding get_time_def print_date_def
    by (simp add: get_field_pad get_next_pad get_next_pad_pos pad_not_space blank_is_space b date_tm_def Let_def)
qed

lemma print_date_length [simp]: "length (print_date y mo d ho mi se) = 19"
  by (simp add: print_date_def)

section \<open>Properties\<close>

lemma str_find_dot:
  assumes "CHR ''.'' \<notin> set u"
  shows "str_find ''.'' (u @ ''.'' @ v) = Some (length u)"
  using assms by (induction u) auto

lemma print_date_no_dot: "CHR ''.'' \<notin> set (print_date y mo d ho mi se)"
proof -
  have "CHR ''.'' \<notin> set (pad k n)" for k n
    using pad_digits[of k n] by (auto simp: list_all_iff is_digit_def)
  then show ?thesis by (simp add: print_date_def)
qed

lemma parse_fraction:
  assumes "date_ok y mo d ho mi se" "clock_ok (mktime (date_tm y mo d ho mi se) * 10 ^ 9)"
    and "ds \<noteq> []" "list_all is_digit ds" "int (dec_val ds) \<le> int_max"
    and "clock_ok (mktime (date_tm y mo d ho mi se) * 10 ^ 9 + int (dec_val ds) * 10 ^ 3)"
    and "rest = [] \<or> \<not> is_digit (hd rest)"
  shows "parseTimestamp mktime (print_date y mo d ho mi se @ ''.'' @ ds @ rest) =
    Some (Inr (word_of_int (mktime (date_tm y mo d ho mi se) * 10 ^ 6 + int (dec_val ds))))"
proof -
  let ?p = "print_date y mo d ho mi se"
  have t: "get_time (take 19 (?p @ ''.'' @ ds @ rest)) zero_tm = date_tm y mo d ho mi se"
    using get_time_print[OF assms(1), of "[]"] by simp
  have "stoi (ds @ rest) = stoi_value False ds"
    by (rule stoi_digits) (use assms(3,4,7) in \<open>auto simp: list_all_iff\<close>)
  also have "\<dots> = Inr (int (dec_val ds))"
    using assms(3,5) by (simp add: stoi_value_def Let_def)
  finally have "stoi (drop (length ?p + 1) (?p @ ''.'' @ ds @ rest)) = Inr (int (dec_val ds))"
    by simp
  moreover have "str_find ''.'' (?p @ ''.'' @ ds @ rest) = Some (length ?p)"
    by (rule str_find_dot[OF print_date_no_dot])
  ultimately show ?thesis
    using assms(2,6) unfolding parseTimestamp_def Let_def t by simp
qed

text \<open>Round trip of timestamps: a date written as \<open>YYYY-MM-DD HH:MM:SS.ffffff\<close>, with six digits
  of fraction and whatever after them, gives the microseconds since the epoch, for every time
  zone (\<open>mktime\<close>) and every date the clock can hold.\<close>

theorem parseTimestamp_roundtrip:
  assumes "date_ok y mo d ho mi se" "us < 10 ^ 6" "rest = [] \<or> \<not> is_digit (hd rest)"
    and "clock_ok (mktime (date_tm y mo d ho mi se) * 10 ^ 9)"
    and "clock_ok (mktime (date_tm y mo d ho mi se) * 10 ^ 9 + int us * 10 ^ 3)"
  shows "parseTimestamp mktime (print_date y mo d ho mi se @ ''.'' @ pad 6 us @ rest) =
    Some (Inr (word_of_int (mktime (date_tm y mo d ho mi se) * 10 ^ 6 + int us)))"
proof -
  have us: "dec_val (pad 6 us) = us" using assms(2) by (simp add: dec_val_pad)
  have "pad 6 us \<noteq> []" by (metis pad_length length_0_conv zero_neq_numeral)
  with parse_fraction[where mktime = mktime, OF assms(1,4) _ pad_digits, of 6 us rest] assms(2,3,5) us show ?thesis by simp
qed

text \<open>The fraction is read as a count of microseconds whatever its length: with \<open>k\<close> digits the
  value of the digits is added unscaled, so half a second written \<open>.5\<close> counts as 5 microseconds.\<close>

theorem parseTimestamp_fraction_unscaled:
  assumes "date_ok y mo d ho mi se" "n < 10 ^ k" "0 < k" "k \<le> 9"
    and "clock_ok (mktime (date_tm y mo d ho mi se) * 10 ^ 9)"
    and "clock_ok (mktime (date_tm y mo d ho mi se) * 10 ^ 9 + int n * 10 ^ 3)"
  shows "parseTimestamp mktime (print_date y mo d ho mi se @ ''.'' @ pad k n) =
    Some (Inr (word_of_int (mktime (date_tm y mo d ho mi se) * 10 ^ 6 + int n)))"
proof -
  have n: "dec_val (pad k n) = n" using assms(2) by (simp add: dec_val_pad)
  have "(10::nat) ^ k \<le> 10 ^ 9" using assms(4) by (rule power_increasing) simp
  with assms(2) have "int n \<le> int_max" by simp
  moreover have "pad k n \<noteq> []" using assms(3) by (metis pad_length length_0_conv less_irrefl)
  ultimately show ?thesis
    using parse_fraction[where mktime = mktime, OF assms(1,5) _ pad_digits, of k n "[]"] assms(6) n by simp
qed

text \<open>A date that \<open>std::get_time\<close> reads (the years up to 9999) may be too late for the clock: then
  \<open>from_time_t\<close> overflows, which is undefined and which the getters' handlers do not catch.\<close>

theorem parseTimestamp_overflow:
  assumes "date_ok y mo d ho mi se" "\<not> clock_ok (mktime (date_tm y mo d ho mi se) * 10 ^ 9)"
  shows "parseTimestamp mktime (print_date y mo d ho mi se @ rest) = None"
proof -
  have "get_time (take 19 (print_date y mo d ho mi se @ rest)) zero_tm = date_tm y mo d ho mi se"
    using get_time_print[OF assms(1), of "[]"] by simp
  with assms(2) show ?thesis by (simp add: parseTimestamp_def Let_def)
qed

text \<open>A text that is no date is not noticed: the empty timestamp (what a result with unreadable
  counts has) is reported with code 0 as the time of the zeroed fields, and -2 is returned only
  when the text after a dot is no number.\<close>

theorem timestamp_getter_codes:
  assumes "jobResult \<noteq> 0" "blocks h jobResult = Some (ResultObj jr)"
    and "parseTimestamp mktime (jr_mTimestampCompleted jr) = Some r"
  shows "case r of
      Inr t \<Rightarrow> MQSSClientGetJobResultCompletedTimestamp mktime jobResult True out h = Some (0, t) \<and>
        (jr_mTimestampCompleted jr = [] \<longrightarrow> t = word_of_int (mktime zero_tm * 10 ^ 6))
    | Inl e \<Rightarrow> MQSSClientGetJobResultCompletedTimestamp mktime jobResult True out h = Some (- 2, out) \<and>
        (\<exists>dot. str_find ''.'' (jr_mTimestampCompleted jr) = Some dot \<and>
           stoi (drop (dot + 1) (jr_mTimestampCompleted jr)) = Inl e)"
proof -
  have "get_time [] zero_tm = zero_tm" by (simp add: get_time_def get_field_def Let_def)
  with assms show ?thesis
    by (auto simp: MQSSClientGetJobResultCompletedTimestamp_def timestamp_getter_def parseTimestamp_def
        Let_def split: if_splits option.splits sum.splits)
qed

section \<open>Examples\<close>

text \<open>\<open>mktime\<close> of a process whose clock stands at one moment.\<close>

definition fixed_mktime :: "tm \<Rightarrow> int" where
  "fixed_mktime t = 1700000000"

theorem parseTimestamp_roundtrip_witness:
  "parseTimestamp fixed_mktime (print_date 2023 11 14 22 13 20 @ ''.'' @ pad 6 123 @ ''Z'') =
     Some (Inr (word_of_int (1700000000 * 10 ^ 6 + 123)))"
proof -
  have "\<not> is_digit (CHR ''Z'')" by (simp add: is_digit_def)
  then show ?thesis
    using parseTimestamp_roundtrip[of 2023 11 14 22 13 20 123 "''Z''" fixed_mktime]
    by (simp add: date_ok_def fixed_mktime_def clock_ok_def)
qed

theorem parseTimestamp_fraction_unscaled_witness:
  "parseTimestamp fixed_mktime (print_date 2023 11 14 22 13 20 @ ''.'' @ pad 1 5) =
     Some (Inr (word_of_int (1700000000 * 10 ^ 6 + 5)))"
  using parseTimestamp_fraction_unscaled[of 2023 11 14 22 13 20 5 1 fixed_mktime]
  by (simp add: date_ok_def fixed_mktime_def clock_ok_def)

text \<open>The first second of the year 2300, as a 64-bit \<open>mktime\<close> counts it in universal time.\<close>

theorem parseTimestamp_overflow_witness:
  "parseTimestamp (\<lambda>t. 10413792000) (print_date 2300 1 1 0 0 0 @ ''.5'') = None"
  using parseTimestamp_overflow[of 2300 1 1 0 0 0 "\<lambda>t. 10413792000" "''.5''"]
  by (simp add: date_ok_def clock_ok_def)

theorem timestamp_getter_codes_witness:
  "MQSSClientGetJobResultCompletedTimestamp fixed_mktime 1 True 0 (counts_heap (\<lambda>k. False)) =
     Some (0, word_of_int (1700000000 * 10 ^ 6))"
proof -
  have "get_time [] zero_tm = zero_tm" by (simp add: get_time_def get_field_def Let_def)
  then have "parseTimestamp fixed_mktime (jr_mTimestampCompleted example_counts) =
      Some (Inr (word_of_int (1700000000 * 10 ^ 6)))"
    by (simp add: parseTimestamp_def example_counts_def fixed_mktime_def clock_ok_def Let_def)
  from timestamp_getter_codes[OF _ counts_heap_simps(3) this] show ?thesis by simp
qed

end
