(* ===== verification/C_Api.thy ===== *)
theory C_Api
  imports C_Client Timestamp
begin

text \<open>
  The C interface as a whole, \<open>include/mqss-c\<close>: every function as one operation, a caller that
  passes only \<open>NULL\<close> and handles it was given and has not freed, and what such a caller can rely
  on: no use after free, no double free, no handle of the wrong kind.
\<close>

section \<open>Kinds of blocks\<close>

datatype bkind = KInts | KChars | KPtrs | KResource | KGate | KJob | KResult | KClient

fun kind_of :: "'c block \<Rightarrow> bkind" where
  "kind_of (Ints ns) = KInts"
| "kind_of (Chars s) = KChars"
| "kind_of (Ptrs ps) = KPtrs"
| "kind_of (ResourceObj r) = KResource"
| "kind_of (GateObj g) = KGate"
| "kind_of (JobObj j) = KJob"
| "kind_of (ResultObj r) = KResult"
| "kind_of (ClientObj c) = KClient"

lemma kind_of_iff:
  "kind_of b = KResource \<longleftrightarrow> (\<exists>r. b = ResourceObj r)"
  "kind_of b = KGate \<longleftrightarrow> (\<exists>g. b = GateObj g)"
  "kind_of b = KJob \<longleftrightarrow> (\<exists>j. b = JobObj j)"
  "kind_of b = KResult \<longleftrightarrow> (\<exists>r. b = ResultObj r)"
  "kind_of b = KClient \<longleftrightarrow> (\<exists>c. b = ClientObj c)"
  by (cases b; simp)+

section \<open>The operations\<close>

text \<open>The functions of \<open>client.h\<close>, \<open>job.h\<close> and \<open>resource.h\<close>, with what a caller passes: handles, strings that may
  be \<open>NULL\<close>, numbers, and for out parameters which of the pointers are given and what the variables hold.\<close>

datatype c_client_op =
    OpCreateClient "string option" "string option" bool
  | OpGetAllResources addr bool int
  | OpGetResourceInfo addr "string option"
  | OpSubmitJob addr addr
  | OpCancelJob addr addr
  | OpGetJobResult addr addr bool u32
  | OpGetNumberPendingJobs addr "string option"
  | OpFreeClient addr

datatype c_job_op =
    OpCreateCircuitJob "string option" "string option" "string option" u32 bool bool
  | OpCreateHamiltonianJob "string option" "string option" "string option"
  | OpGetJobResultCounts addr "bool list" counts_out
  | OpCompletedTimestamp addr bool u64
  | OpSubmittedTimestamp addr bool u64
  | OpScheduledTimestamp addr bool u64
  | OpFreeJob addr
  | OpFreeJobResult addr

datatype c_resource_op =
    OpResourceGetInfo addr "bool list" addr info_out
  | OpResourceGetGateInfo addr "bool list" gate_out

text \<open>What a C program does with the interface: these calls, and \<open>free\<close>.\<close>

datatype c_op = OnClient c_client_op | OnJob c_job_op | OnResource c_resource_op | OpFree addr

datatype c_value =
    VUnit
  | VInt int
  | VAddr addr
  | VArray addr int
  | VCounts int counts_out
  | VInfo int info_out
  | VGate int gate_out
  | VTime int u64

text \<open>What the interface is linked against: the JSON library, the constructor and the destructor of
  \<open>MQSSClient\<close>, and \<open>mktime\<close>.\<close>

record ('s, 'j) c_env =
  env_json :: "'j json_api"
  env_ctor :: "string \<Rightarrow> string \<Rightarrow> bool \<Rightarrow> ('s sys, ('s, 'j) mqss_client) io"
  env_destroy :: "('s, 'j) mqss_client \<Rightarrow> 's sys \<Rightarrow> 's sys"
  env_mktime :: "tm \<Rightarrow> int"

definition ret_as :: "('a \<Rightarrow> c_value) \<Rightarrow> ('a outcome \<times> ('s, 'j) c_state) option \<Rightarrow> (c_value outcome \<times> ('s, 'j) c_state) option" where
  "ret_as f x =
     (case x of
        None \<Rightarrow> None
      | Some (Ret a, st) \<Rightarrow> Some (Ret (f a), st)
      | Some (Exc e, st) \<Rightarrow> Some (Exc e, st)
      | Some (Hang, st) \<Rightarrow> Some (Hang, st))"

definition on_heap ::
  "(('s, 'j) mqss_client heap \<Rightarrow> (c_value result \<times> ('s, 'j) mqss_client heap) option) \<Rightarrow>
     ('s, 'j) c_state \<Rightarrow> (c_value outcome \<times> ('s, 'j) c_state) option" where
  "on_heap f st =
     (case f (c_heap st) of
        None \<Rightarrow> None
      | Some (Inl e, h) \<Rightarrow> Some (Exc e, st\<lparr>c_heap := h\<rparr>)
      | Some (Inr v, h) \<Rightarrow> Some (Ret v, st\<lparr>c_heap := h\<rparr>))"

definition created :: "addr result \<times> 'c heap \<Rightarrow> (c_value result \<times> 'c heap) option" where
  "created x = (case x of (Inl e, h) \<Rightarrow> Some (Inl e, h) | (Inr a, h) \<Rightarrow> Some (Inr (VAddr a), h))"

definition freed :: "'c heap option \<Rightarrow> (c_value result \<times> 'c heap) option" where
  "freed x = map_option (\<lambda>h. (Inr VUnit, h)) x"

definition timed :: "'c heap \<Rightarrow> (int \<times> u64) option \<Rightarrow> (c_value result \<times> 'c heap) option" where
  "timed h x = map_option (\<lambda>(code, t). (Inr (VTime code t), h)) x"

fun c_exec :: "('s, 'j) c_env \<Rightarrow> c_op \<Rightarrow> ('s, 'j) c_state \<Rightarrow> (c_value outcome \<times> ('s, 'j) c_state) option" where
  "c_exec X (OnClient (OpCreateClient token url isHpc)) st =
     ret_as VAddr (MQSSClientCreateClient (env_ctor X) token url isHpc st)"
| "c_exec X (OnClient (OpFreeClient client)) st =
     map_option (\<lambda>st'. (Ret VUnit, st')) (MQSSClientFreeClient (env_destroy X) client st)"
| "c_exec X (OnClient (OpGetAllResources client given n)) st =
     ret_as (\<lambda>(a, k). VArray a k) (MQSSClientGetAllResources (env_json X) client given n st)"
| "c_exec X (OnClient (OpGetResourceInfo client name)) st =
     ret_as VAddr (MQSSClientGetResourceInfo (env_json X) client name st)"
| "c_exec X (OnClient (OpSubmitJob client job)) st = ret_as VInt (MQSSClientSubmitJob (env_json X) client job st)"
| "c_exec X (OnClient (OpCancelJob client job)) st = ret_as (\<lambda>u. VUnit) (MQSSClientCancelJob client job st)"
| "c_exec X (OnClient (OpGetJobResult client job wait timeout)) st =
     ret_as VAddr (MQSSClientGetJobResult (env_json X) client job wait timeout st)"
| "c_exec X (OnClient (OpGetNumberPendingJobs client name)) st =
     ret_as VInt (MQSSClientGetNumberPendingJobs (env_json X) client name st)"
| "c_exec X (OnJob (OpCreateCircuitJob c f r shots noModify queued)) st =
     on_heap (\<lambda>h. created (MQSSClientCreateCircuitJob c f r shots noModify queued h)) st"
| "c_exec X (OnJob (OpCreateHamiltonianJob r i c)) st =
     on_heap (\<lambda>h. created (MQSSClientCreateHamiltonianJob r i c h)) st"
| "c_exec X (OnJob (OpFreeJob job)) st = on_heap (\<lambda>h. freed (MQSSClientFreeJob job h)) st"
| "c_exec X (OnJob (OpFreeJobResult result)) st = on_heap (\<lambda>h. freed (MQSSClientFreeJobResult result h)) st"
| "c_exec X (OnJob (OpGetJobResultCounts result given out)) st =
     on_heap (\<lambda>h. map_option (\<lambda>((code, o'), h'). (Inr (VCounts code o'), h'))
       (MQSSClientGetJobResultCounts result given out h)) st"
| "c_exec X (OnResource (OpResourceGetInfo resource given junk out)) st =
     on_heap (\<lambda>h. map_option (\<lambda>((r, o'), h'). (bind_sum r (\<lambda>code. Inr (VInfo code o')), h'))
       (MQSSClientResourceGetInfo resource given junk out h)) st"
| "c_exec X (OnResource (OpResourceGetGateInfo gate given out)) st =
     on_heap (\<lambda>h. map_option (\<lambda>((code, o'), h'). (Inr (VGate code o'), h'))
       (MQSSClientResourceGetGateInfo gate given out h)) st"
| "c_exec X (OnJob (OpCompletedTimestamp result given out)) st =
     on_heap (\<lambda>h. timed h (MQSSClientGetJobResultCompletedTimestamp (env_mktime X) result given out h)) st"
| "c_exec X (OnJob (OpSubmittedTimestamp result given out)) st =
     on_heap (\<lambda>h. timed h (MQSSClientGetJobResultSubmittedTimestamp (env_mktime X) result given out h)) st"
| "c_exec X (OnJob (OpScheduledTimestamp result given out)) st =
     on_heap (\<lambda>h. timed h (MQSSClientGetJobResultScheduledTimestamp (env_mktime X) result given out h)) st"
| "c_exec X (OpFree a) st = on_heap (\<lambda>h. freed (free a h)) st"

section \<open>A caller that keeps to its handles\<close>

text \<open>The handles an operation takes, with their kinds, and the blocks it gives back.\<close>

fun op_args :: "c_op \<Rightarrow> (addr \<times> bkind) list" where
  "op_args (OnClient (OpFreeClient c)) = [(c, KClient)]"
| "op_args (OnClient (OpGetAllResources c given n)) = [(c, KClient)]"
| "op_args (OnClient (OpGetResourceInfo c name)) = [(c, KClient)]"
| "op_args (OnClient (OpSubmitJob c j)) = [(c, KClient), (j, KJob)]"
| "op_args (OnClient (OpCancelJob c j)) = [(c, KClient), (j, KJob)]"
| "op_args (OnClient (OpGetJobResult c j wait timeout)) = [(c, KClient), (j, KJob)]"
| "op_args (OnClient (OpGetNumberPendingJobs c name)) = [(c, KClient)]"
| "op_args (OnJob (OpFreeJob j)) = [(j, KJob)]"
| "op_args (OnJob (OpFreeJobResult r)) = [(r, KResult)]"
| "op_args (OnJob (OpGetJobResultCounts r given out)) = [(r, KResult)]"
| "op_args (OnResource (OpResourceGetInfo r given junk out)) = [(r, KResource)]"
| "op_args (OnResource (OpResourceGetGateInfo g given out)) = [(g, KGate)]"
| "op_args (OnJob (OpCompletedTimestamp r given out)) = [(r, KResult)]"
| "op_args (OnJob (OpSubmittedTimestamp r given out)) = [(r, KResult)]"
| "op_args (OnJob (OpScheduledTimestamp r given out)) = [(r, KResult)]"
| "op_args _ = []"

fun op_frees :: "c_op \<Rightarrow> addr set" where
  "op_frees (OnClient (OpFreeClient c)) = {c}"
| "op_frees (OnJob (OpFreeJob j)) = {j}"
| "op_frees (OnJob (OpFreeJobResult r)) = {r}"
| "op_frees (OpFree a) = {a}"
| "op_frees _ = {}"

text \<open>What the caller knows to be its own, by address.\<close>

type_synonym ledger = "addr \<Rightarrow> bkind option"

definition legal :: "ledger \<Rightarrow> c_op \<Rightarrow> bool" where
  "legal L op \<longleftrightarrow> list_all (\<lambda>(a, k). a = 0 \<or> L a = Some k) (op_args op) \<and>
     (case op of OpFree a \<Rightarrow> a = 0 \<or> L a \<in> {Some KInts, Some KChars, Some KPtrs} | _ \<Rightarrow> True)"

text \<open>After a call the caller owns what the call made and no longer what it freed.\<close>

definition learn :: "'c heap \<Rightarrow> 'c heap \<Rightarrow> addr set \<Rightarrow> ledger \<Rightarrow> ledger" where
  "learn h h' F L = (\<lambda>a.
     if a \<in> F then None
     else if blocks h a = None then map_option kind_of (blocks h' a)
     else L a)"

inductive c_reachable :: "('s, 'j) c_env \<Rightarrow> ledger \<Rightarrow> ('s, 'j) c_state \<Rightarrow> bool" for X where
  c_start: "heap_ok (c_heap st) \<Longrightarrow> blocks (c_heap st) = Map.empty \<Longrightarrow> c_reachable X Map.empty st"
| c_step: "c_reachable X L st \<Longrightarrow> legal L op \<Longrightarrow> c_exec X op st = Some (Ret v, st') \<Longrightarrow>
     c_reachable X (learn (c_heap st) (c_heap st') (op_frees op) L) st'"

section \<open>Calls that are undefined\<close>

text \<open>What a caller that keeps to its handles can still run into: the cast of a Hamiltonian job to a
  \<open>CircuitJobRequest\<close>, and a time of a result for which the clock is too narrow.\<close>

definition hamiltonian_at :: "'c heap \<Rightarrow> addr \<Rightarrow> bool" where
  "hamiltonian_at h a \<longleftrightarrow> (\<exists>r. blocks h a = Some (JobObj (HamiltonianJob r)))"

definition clock_overflow :: "(job_result \<Rightarrow> string) \<Rightarrow> (tm \<Rightarrow> int) \<Rightarrow> addr \<Rightarrow> bool \<Rightarrow> 'c heap \<Rightarrow> bool" where
  "clock_overflow field mktime a given h \<longleftrightarrow>
     given \<and> (\<exists>jr. blocks h a = Some (ResultObj jr) \<and> \<not> clock_holds mktime (field jr))"

fun undefined_call :: "(tm \<Rightarrow> int) \<Rightarrow> 'c heap \<Rightarrow> c_op \<Rightarrow> bool" where
  "undefined_call mktime h (OnClient (OpSubmitJob c j)) \<longleftrightarrow> c \<noteq> 0 \<and> hamiltonian_at h j"
| "undefined_call mktime h (OnClient (OpCancelJob c j)) \<longleftrightarrow> c \<noteq> 0 \<and> hamiltonian_at h j"
| "undefined_call mktime h (OnClient (OpGetJobResult c j wait timeout)) \<longleftrightarrow> c \<noteq> 0 \<and> hamiltonian_at h j"
| "undefined_call mktime h (OnJob (OpCompletedTimestamp r given out)) \<longleftrightarrow>
     clock_overflow jr_mTimestampCompleted mktime r given h"
| "undefined_call mktime h (OnJob (OpSubmittedTimestamp r given out)) \<longleftrightarrow>
     clock_overflow jr_mTimestampSubmitted mktime r given h"
| "undefined_call mktime h (OnJob (OpScheduledTimestamp r given out)) \<longleftrightarrow>
     clock_overflow jr_mTimestampScheduled mktime r given h"
| "undefined_call mktime h op \<longleftrightarrow> False"

lemma overflow_undefined:
  "heap_ok h \<Longrightarrow> clock_overflow field mktime a given h \<Longrightarrow> timestamp_getter field mktime a given out h = None"
  by (auto simp: clock_overflow_def timestamp_getter_def parseTimestamp_defined[symmetric] dest: live_nonzero)

lemma undefined_call_None:
  assumes "heap_ok (c_heap st)" "undefined_call (env_mktime X) (c_heap st) op"
  shows "c_exec X op st = None"
proof -
  note defs = ret_as_def on_heap_def timed_def hamiltonian_at_def MQSSClientGetJobResultCompletedTimestamp_def
    MQSSClientGetJobResultSubmittedTimestamp_def MQSSClientGetJobResultScheduledTimestamp_def
  have nz: "j \<noteq> 0" if "hamiltonian_at (c_heap st) j" for j
    using that live_nonzero[OF assms(1)] by (auto simp: hamiltonian_at_def)
  show ?thesis
    using assms(2) nz C_hamiltonian_undefined[of st] overflow_undefined[OF assms(1)]
    by (cases "(env_mktime X, c_heap st, op)" rule: undefined_call.cases) (auto simp: defs)
qed

section \<open>One call\<close>

definition c_frame :: "'c heap \<Rightarrow> 'c heap \<Rightarrow> addr set \<Rightarrow> bool" where
  "c_frame h h' F \<longleftrightarrow> heap_ok h' \<and>
     (\<forall>a b. a \<notin> F \<longrightarrow> blocks h a = Some b \<longrightarrow> (\<exists>b'. blocks h' a = Some b' \<and> kind_of b' = kind_of b))"

lemma frame_keeps: "heap_ok h' \<Longrightarrow> (\<And>a. blocks h a \<noteq> None \<Longrightarrow> blocks h' a = blocks h a) \<Longrightarrow> c_frame h h' F"
  by (auto simp: c_frame_def)

lemma frame_same: "heap_ok h' \<Longrightarrow> blocks h' = blocks h \<Longrightarrow> c_frame h h' F"
  by (simp add: c_frame_def)

lemma frame_new: "heap_ok h' \<Longrightarrow> blocks h a = None \<Longrightarrow> blocks h' = (blocks h)(a \<mapsto> b) \<Longrightarrow> c_frame h h' F"
  by (rule frame_keeps) auto

lemma frame_free: "heap_ok h' \<Longrightarrow> blocks h' = (blocks h)(a := None) \<Longrightarrow> c_frame h h' {a}"
  by (auto simp: c_frame_def)

lemmas frame_rules = frame_same frame_new frame_free

text \<open>What a call comes to: a result, and a frame when it returns.\<close>

definition c_done :: "('a outcome \<times> ('s, 'j) c_state) option \<Rightarrow> ('s, 'j) c_state \<Rightarrow> addr set \<Rightarrow> bool" where
  "c_done x st F \<longleftrightarrow> (\<exists>r st'. x = Some (r, st') \<and> (\<forall>v. r = Ret v \<longrightarrow> c_frame (c_heap st) (c_heap st') F))"

definition h_done :: "('a result \<times> 'c heap) option \<Rightarrow> 'c heap \<Rightarrow> addr set \<Rightarrow> bool" where
  "h_done x h F \<longleftrightarrow> (\<exists>r h'. x = Some (r, h') \<and> (\<forall>v. r = Inr v \<longrightarrow> c_frame h h' F))"

lemma ret_as_done: "c_done x st F \<Longrightarrow> c_done (ret_as f x) st F"
  by (auto simp: c_done_def ret_as_def split: outcome.splits)

lemma on_heap_done: "h_done (f (c_heap st)) (c_heap st) F \<Longrightarrow> c_done (on_heap f st) st F"
  by (auto simp: c_done_def h_done_def on_heap_def split: sum.splits)

lemma created_done:
  assumes "heap_ok h"
  shows "h_done (created (new_obj b h)) h F"
  by (rule new_obj_cases[OF assms surjective_pairing, of b])
    (auto simp: h_done_def created_def intro: frame_new split: prod.splits sum.splits)

lemma wrap_done: "heap_ok h \<Longrightarrow> h_done (created (wrap_new b h)) h F"
  by (simp add: wrap_new_def created_done)

lemma null_done: "heap_ok h \<Longrightarrow> h_done (created (Inr 0, h)) h F"
  by (simp add: h_done_def created_def frame_same)

definition arg_ok :: "'c heap \<Rightarrow> addr \<Rightarrow> bkind \<Rightarrow> bool" where
  "arg_ok h a k \<longleftrightarrow> a = 0 \<or> (\<exists>b. blocks h a = Some b \<and> kind_of b = k)"

lemma delete_done:
  assumes "heap_ok h" "arg_ok h a k" "\<And>b. kind_of b = k \<Longrightarrow> kind b"
  shows "h_done (freed (delete_obj kind a h)) h {a}"
proof (cases "a = 0")
  case True
  with assms(1) show ?thesis by (simp add: h_done_def freed_def delete_obj_def frame_same)
next
  case False
  with assms(2) obtain b where b: "blocks h a = Some b" "kind_of b = k" by (auto simp: arg_ok_def)
  from free_block[OF assms(1) b(1)] obtain h' where "free a h = Some h'" "blocks h' = (blocks h)(a := None)"
    "heap_ok h'" by blast
  with False b assms(3) show ?thesis by (simp add: h_done_def freed_def delete_obj_def frame_free)
qed

lemma free_done:
  assumes "heap_ok h" "a = 0 \<or> (\<exists>b. blocks h a = Some b)"
  shows "h_done (freed (free a h)) h {a}"
proof (cases "a = 0")
  case True
  with assms(1) show ?thesis by (simp add: h_done_def freed_def mem.dealloc_null frame_same)
next
  case False
  with assms(2) obtain b where "blocks h a = Some b" by blast
  from free_block[OF assms(1) this] show ?thesis
    by (auto simp: h_done_def freed_def intro: frame_free)
qed

lemma counts_done:
  assumes "heap_ok h" "arg_ok h r KResult"
  shows "h_done (map_option (\<lambda>((code, o'), h'). (Inr (VCounts code o'), h'))
    (MQSSClientGetJobResultCounts r given out h)) h F"
proof (cases "r = 0 \<or> \<not> list_all id given")
  case True
  with assms(1) show ?thesis by (auto simp: h_done_def MQSSClientGetJobResultCounts_def frame_same)
next
  case False
  with assms(2) obtain jr where jr: "blocks h r = Some (ResultObj jr)" by (auto simp: arg_ok_def kind_of_iff)
  show ?thesis
  proof (cases "concat (jr_mResults jr) = []")
    case True
    then have "sum_list (map length (jr_mResults jr)) = 0" unfolding concat_length by simp
    with False jr assms(1) show ?thesis
      by (simp add: h_done_def MQSSClientGetJobResultCounts_def frame_same)
  next
    case some: False
    from GetJobResultCounts_cases[OF assms(1) jr _ refl some, of given out] False
    obtain code out' h' where "MQSSClientGetJobResultCounts r given out h = Some ((code, out'), h')"
      "heap_ok h'" "counts_delivered (concat (jr_mResults jr)) h out' h' \<or> blocks h' = blocks h" by auto
    then show ?thesis
      by (auto simp: h_done_def intro: frame_same frame_keeps dest: counts_delivered_keeps)
  qed
qed

lemma info_done:
  assumes "heap_ok h" "arg_ok h r KResource"
  shows "h_done (map_option (\<lambda>((res, o'), h'). (bind_sum res (\<lambda>code. Inr (VInfo code o')), h'))
    (MQSSClientResourceGetInfo r given junk out h)) h F"
proof (cases "r = 0 \<or> \<not> list_all id given")
  case True
  with assms(1) show ?thesis by (auto simp: h_done_def MQSSClientResourceGetInfo_def frame_same)
next
  case False
  with assms(2) obtain x where x: "blocks h r = Some (ResourceObj x)" by (auto simp: arg_ok_def kind_of_iff)
  have "list_all id given" using False by simp
  from ResourceGetInfo_end[OF assms(1) x this, of junk out] obtain res out' h' where
    "MQSSClientResourceGetInfo r given junk out h = Some ((res, out'), h')" "heap_ok h'"
    "(\<exists>e. res = Inl e) \<or> info_delivered x h out' h' \<or> blocks h' = blocks h"
    unfolding info_end_def by blast
  then show ?thesis by (auto simp: h_done_def sum_simps intro: frame_same frame_keeps dest: info_delivered_keeps)
qed

lemma gate_done:
  assumes "heap_ok h" "arg_ok h g KGate"
  shows "h_done (map_option (\<lambda>((code, o'), h'). (Inr (VGate code o'), h'))
    (MQSSClientResourceGetGateInfo g given out h)) h F"
proof (cases "g = 0 \<or> \<not> list_all id given")
  case True
  with assms(1) show ?thesis by (auto simp: h_done_def MQSSClientResourceGetGateInfo_def frame_same)
next
  case False
  with assms(2) obtain x where x: "blocks h g = Some (GateObj x)" by (auto simp: arg_ok_def kind_of_iff)
  have given: "list_all id given" using False by simp
  from GetGateInfo_cases[OF assms(1) x given, of out] obtain code out' h' where
    "MQSSClientResourceGetGateInfo g given out h = Some ((code, out'), h')" "heap_ok h'"
    "blocks h (gout_name out') = None \<and> blocks h (gout_supportedQubits out') = None \<and>
       blocks h' = (blocks h)(gout_name out' \<mapsto> Chars (gate_mName x),
         gout_supportedQubits out' \<mapsto> Ints (map (\<lambda>n. Some (sint n)) (concat (gate_mSupportedQubits x)))) \<or>
     blocks h' = blocks h" by blast
  moreover from this have "c_frame h h' F"
    by (elim disjE) (auto intro: frame_same intro!: frame_keeps[of h' h])
  ultimately show ?thesis by (simp add: h_done_def)
qed

lemma timestamp_done:
  assumes "heap_ok h" "arg_ok h r KResult" "\<not> clock_overflow field mktime r given h"
  shows "h_done (timed h (timestamp_getter field mktime r given out h)) h F"
proof (cases "r = 0 \<or> \<not> given")
  case True
  with assms(1) show ?thesis by (auto simp: h_done_def timed_def timestamp_getter_def frame_same)
next
  case False
  with assms(2) obtain jr where jr: "blocks h r = Some (ResultObj jr)" by (auto simp: arg_ok_def kind_of_iff)
  with False assms(3) have "clock_holds mktime (field jr)" by (simp add: clock_overflow_def)
  then obtain x where "parseTimestamp mktime (field jr) = Some x"
    using parseTimestamp_defined[of mktime "field jr"] by auto
  with False jr assms(1) show ?thesis
    by (cases x) (simp_all add: h_done_def timed_def timestamp_getter_def frame_same)
qed

text \<open>The calls on a client.\<close>

lemma done_same: "heap_ok (c_heap st) \<Longrightarrow> c_heap st' = c_heap st \<Longrightarrow> c_done (Some (r, st')) st F"
  by (simp add: c_done_def frame_same)

lemma c_new_done:
  assumes "heap_ok (c_heap st)" "c_heap st' = c_heap st"
  shows "c_done (c_new b st') st F"
  by (rule new_obj_cases[OF assms(1) surjective_pairing, of b])
    (auto simp: c_done_def c_new_def assms(2) intro: frame_new split: prod.splits sum.splits)

lemma method_done:
  assumes "heap_ok (c_heap st)"
    and "\<And>a w. m (c_sys st) = (Ret a, w) \<Longrightarrow> c_done (f a (st\<lparr>c_sys := w\<rparr>)) st F"
  shows "c_done (call_method m f st) st F"
proof (cases "m (c_sys st)")
  case (Pair r w)
  then show ?thesis
    using assms by (cases r) (simp_all add: call_method_def done_same)
qed

lemma with_client_done:
  assumes "arg_ok (c_heap st) c KClient" "c \<noteq> 0"
    and "\<And>C. blocks (c_heap st) c = Some (ClientObj C) \<Longrightarrow> c_done (f C st) st F"
  shows "c_done (with_client c f st) st F"
  using assms by (auto simp: arg_ok_def kind_of_iff with_client_def)

lemma with_job_done:
  assumes "arg_ok (c_heap st) j KJob" "j \<noteq> 0" "\<not> hamiltonian_at (c_heap st) j"
    and "\<And>x. blocks (c_heap st) j = Some (JobObj x) \<Longrightarrow> c_done (f x st) st F"
  shows "c_done (with_job j f st) st F"
  using assms by (auto simp: arg_ok_def kind_of_iff with_job_def hamiltonian_at_def split: job.splits)

lemmas client_done = done_same c_new_done method_done with_client_done with_job_done

lemma CreateClient_done:
  assumes "heap_ok (c_heap st)"
  shows "c_done (MQSSClientCreateClient ctor token url isHpc st) st F"
proof -
  have "heap_ok ((c_heap st)\<lparr>allocations := allocations (c_heap st) + 1\<rparr>)"
    using assms by (simp add: heap_ok_def)
  then have full: "c_done (c_ret 0 (st\<lparr>c_heap := (c_heap st)\<lparr>allocations := allocations (c_heap st) + 1\<rparr>\<rparr>)) st F"
    by (simp add: c_done_def c_ret_def frame_same)
  show ?thesis
  proof (cases "oom (c_heap st) (allocations (c_heap st))")
    case True
    with full assms show ?thesis by (auto simp: MQSSClientCreateClient_def c_ret_def done_same)
  next
    case False
    with assms show ?thesis
      by (auto simp: MQSSClientCreateClient_def c_ret_def intro!: client_done
          split: prod.splits outcome.splits)
  qed
qed

lemma SubmitJob_done:
  assumes "heap_ok (c_heap st)" "arg_ok (c_heap st) c KClient" "arg_ok (c_heap st) j KJob"
    and "c \<noteq> 0 \<Longrightarrow> \<not> hamiltonian_at (c_heap st) j"
  shows "c_done (MQSSClientSubmitJob J c j st) st F"
proof (cases "c = 0 \<or> j = 0")
  case True
  with assms(1) show ?thesis by (auto simp: MQSSClientSubmitJob_def c_ret_def done_same)
next
  case False
  with assms(2-4) obtain C x where h: "handles st c C j x"
    using assms(1) by (auto simp: arg_ok_def kind_of_iff handles_def hamiltonian_at_def) (metis job.exhaust)
  from SubmitJob_eval[OF h surjective_pairing, of J] obtain r st' where
    "MQSSClientSubmitJob J c j st = Some (r, st')" "heap_ok (c_heap st')"
    "\<exists>y. blocks (c_heap st') = (blocks (c_heap st))(j \<mapsto> JobObj y) \<or> blocks (c_heap st') = blocks (c_heap st)"
    by (auto split: outcome.splits)
  with h show ?thesis by (auto simp: c_done_def c_frame_def handles_def)
qed

lemma CancelJob_done:
  assumes "heap_ok (c_heap st)" "arg_ok (c_heap st) c KClient" "arg_ok (c_heap st) j KJob"
    and "c \<noteq> 0 \<Longrightarrow> \<not> hamiltonian_at (c_heap st) j"
  shows "c_done (MQSSClientCancelJob c j st) st F"
proof (cases "c = 0 \<or> j = 0")
  case True
  with assms(1) show ?thesis by (auto simp: MQSSClientCancelJob_def c_ret_def done_same)
next
  case False
  with assms show ?thesis unfolding MQSSClientCancelJob_def
    by (auto simp: c_ret_def intro!: with_client_done with_job_done done_same split: prod.splits outcome.splits)
qed

lemma GetJobResult_done:
  assumes "heap_ok (c_heap st)" "arg_ok (c_heap st) c KClient" "arg_ok (c_heap st) j KJob"
    and "c \<noteq> 0 \<Longrightarrow> \<not> hamiltonian_at (c_heap st) j"
  shows "c_done (MQSSClientGetJobResult J c j wait timeout st) st F"
proof (cases "c = 0 \<or> j = 0")
  case True
  with assms(1) show ?thesis by (auto simp: MQSSClientGetJobResult_def c_ret_def done_same)
next
  case False
  with assms show ?thesis unfolding MQSSClientGetJobResult_def
    by (auto simp: c_ret_def intro!: client_done split: option.splits)
qed

lemma GetResourceInfo_done:
  assumes "heap_ok (c_heap st)" "arg_ok (c_heap st) c KClient"
  shows "c_done (MQSSClientGetResourceInfo J c name st) st F"
proof (cases "c = 0 \<or> name = None")
  case True
  with assms(1) show ?thesis by (auto simp: MQSSClientGetResourceInfo_def c_ret_def done_same)
next
  case False
  with assms show ?thesis unfolding MQSSClientGetResourceInfo_def
    by (auto simp: c_ret_def intro!: client_done split: option.splits)
qed

lemma GetNumberPendingJobs_done:
  assumes "heap_ok (c_heap st)" "arg_ok (c_heap st) c KClient"
  shows "c_done (MQSSClientGetNumberPendingJobs J c name st) st F"
proof (cases "c = 0 \<or> name = None")
  case True
  with assms(1) show ?thesis by (auto simp: MQSSClientGetNumberPendingJobs_def c_ret_def done_same)
next
  case False
  with assms show ?thesis unfolding MQSSClientGetNumberPendingJobs_def
    by (auto simp: c_ret_def intro!: client_done)
qed

lemma FreeClient_done:
  assumes "heap_ok (c_heap st)" "arg_ok (c_heap st) c KClient"
  shows "c_done (map_option (\<lambda>st'. (Ret VUnit, st')) (MQSSClientFreeClient destroy c st)) st {c}"
proof (cases "c = 0")
  case True
  with assms(1) show ?thesis by (auto simp: MQSSClientFreeClient_def done_same)
next
  case False
  with assms(2) obtain C where C: "blocks (c_heap st) c = Some (ClientObj C)"
    by (auto simp: arg_ok_def kind_of_iff)
  from free_block[OF assms(1) C] False C show ?thesis
    by (auto simp: MQSSClientFreeClient_def delete_obj_def is_client_def c_done_def intro: frame_free)
qed

lemma array_done:
  assumes "heap_ok h" "malloc n (Ptrs (replicate (length bs) None)) h = (a, h1)" "a \<noteq> 0"
  shows "\<exists>r h2. fill_objs bs 0 a h1 = Some (r, h2) \<and> c_frame h h2 F"
proof -
  from malloc_fresh[OF assms] have f: "blocks h a = None" "heap_ok h1"
    "blocks h1 = (blocks h)(a \<mapsto> Ptrs (replicate (length bs) None))" by auto
  then obtain r h2 where r: "fill_objs bs 0 a h1 = Some (r, h2)" "keeps h1 h2 {a}"
    using fill_objs_cases[of h1 a "replicate (length bs) None" 0 bs] by auto
  have "blocks h2 x = blocks h x" if "blocks h x \<noteq> None" for x
  proof -
    from that f(1) have "x \<noteq> a" by auto
    with r(2) that f(3) show ?thesis by (simp add: keeps_def)
  qed
  with r show ?thesis by (auto simp: keeps_def intro!: frame_keeps)
qed

lemma GetAllResources_done:
  assumes "heap_ok (c_heap st)" "arg_ok (c_heap st) c KClient"
  shows "c_done (MQSSClientGetAllResources J c given n st) st F"
proof (cases "c = 0 \<or> \<not> given")
  case True
  with assms(1) show ?thesis by (auto simp: MQSSClientGetAllResources_def c_ret_def done_same)
next
  case False
  have "c_done (let n' = sint (word_of_nat (length found) :: u32);
            (resources, h) = malloc (length found * 8)
              (Ptrs (replicate (length found) None)) (c_heap (st\<lparr>c_sys := w\<rparr>));
            st1 = st\<lparr>c_sys := w, c_heap := h\<rparr>
        in if resources = 0 \<and> found \<noteq> [] then c_ret (0, n') st1
           else if found = [] then c_ret (resources, n') st1
           else case fill_objs (map ResourceObj found) 0 resources h of
               None \<Rightarrow> None
             | Some (Inl e, h1) \<Rightarrow> Some (Exc e, st1\<lparr>c_heap := h1\<rparr>)
             | Some (Inr u, h1) \<Rightarrow> c_ret (resources, n') (st1\<lparr>c_heap := h1\<rparr>)) st F" for found w
  proof -
    obtain a h where m: "malloc (length found * 8) (Ptrs (replicate (length found) None)) (c_heap st) = (a, h)"
      by fastforce
    have once: "c_frame (c_heap st) h F"
      using malloc_fresh[OF assms(1) m] malloc_null[OF assms(1)] m
      by (cases "a = 0") (auto intro: frame_same frame_new)
    show ?thesis
    proof (cases "a = 0 \<or> found = []")
      case True
      with m once show ?thesis by (auto simp: c_done_def c_ret_def Let_def)
    next
      case False
      have "malloc (length found * 8) (Ptrs (replicate (length (map ResourceObj found)) None)) (c_heap st) = (a, h)"
        using m by simp
      from array_done[OF assms(1) this] False obtain r h2 where
        "fill_objs (map ResourceObj found) 0 a h = Some (r, h2)" "c_frame (c_heap st) h2 F" by blast
      with False m show ?thesis by (cases r) (simp_all add: c_done_def c_ret_def Let_def)
    qed
  qed
  with False assms show ?thesis unfolding MQSSClientGetAllResources_def
    by (auto intro!: with_client_done method_done)
qed


section \<open>Every call\<close>

text \<open>The ledger is right: what it lists is there, with the kind it says.\<close>

definition ledger_ok :: "ledger \<Rightarrow> 'c heap \<Rightarrow> bool" where
  "ledger_ok L h \<longleftrightarrow> (\<forall>a k. L a = Some k \<longrightarrow> (\<exists>b. blocks h a = Some b \<and> kind_of b = k))"

lemma ledger_arg: "ledger_ok L h \<Longrightarrow> a = 0 \<or> L a = Some k \<Longrightarrow> arg_ok h a k"
  by (auto simp: ledger_ok_def arg_ok_def)

lemma legal_args: "ledger_ok L h \<Longrightarrow> legal L op \<Longrightarrow> list_all (\<lambda>(a, k). arg_ok h a k) (op_args op)"
  by (auto simp: legal_def ledger_arg elim!: list.pred_mono_strong)

lemma legal_free: "ledger_ok L h \<Longrightarrow> legal L (OpFree a) \<Longrightarrow> a = 0 \<or> (\<exists>b. blocks h a = Some b)"
  by (auto simp: legal_def ledger_ok_def)

lemmas op_done = ret_as_done on_heap_done CreateClient_done FreeClient_done GetAllResources_done
  GetResourceInfo_done SubmitJob_done CancelJob_done GetJobResult_done GetNumberPendingJobs_done
  created_done wrap_done null_done delete_done free_done counts_done info_done gate_done timestamp_done

lemma c_exec_done:
  assumes "heap_ok (c_heap st)" "ledger_ok L (c_heap st)" "legal L op" "\<not> undefined_call (env_mktime X) (c_heap st) op"
  shows "c_done (c_exec X op st) st (op_frees op)"
proof -
  have args: "list_all (\<lambda>(a, k). arg_ok (c_heap st) a k) (op_args op)"
    using legal_args[OF assms(2,3)] .
  show ?thesis
    using args assms(1,4) legal_free[OF assms(2)] assms(3)
    by (cases op rule: op_args.cases) (auto simp: MQSSClientCreateCircuitJob_def MQSSClientCreateHamiltonianJob_def
      MQSSClientFreeJob_def MQSSClientFreeJobResult_def kind_of_iff is_job_def is_result_def
      MQSSClientGetJobResultCompletedTimestamp_def MQSSClientGetJobResultSubmittedTimestamp_def
      MQSSClientGetJobResultScheduledTimestamp_def intro!: op_done)
qed

section \<open>Every program\<close>

lemma ledger_learn:
  assumes "ledger_ok L h" "c_frame h h' F" 
  shows "ledger_ok (learn h h' F L) h'"
  unfolding ledger_ok_def
proof (intro allI impI)
  fix a k
  assume l: "learn h h' F L a = Some k"
  show "\<exists>b. blocks h' a = Some b \<and> kind_of b = k"
  proof (cases "blocks h a")
    case None
    with l show ?thesis by (auto simp: learn_def split: if_splits)
  next
    case (Some b)
    with l have "a \<notin> F" "L a = Some k" by (auto simp: learn_def split: if_splits)
    with Some assms show ?thesis unfolding ledger_ok_def c_frame_def by fastforce
  qed
qed

lemma c_step_ok:
  assumes "heap_ok (c_heap st)" "ledger_ok L (c_heap st)" "legal L op" "c_exec X op st = Some (Ret v, st')"
  shows "c_frame (c_heap st) (c_heap st') (op_frees op)"
proof -
  have "\<not> undefined_call (env_mktime X) (c_heap st) op" using undefined_call_None[OF assms(1)] assms(4) by auto
  from c_exec_done[OF assms(1-3) this] assms(4) show ?thesis by (auto simp: c_done_def)
qed

lemma c_reachable_ok:
  assumes "c_reachable X L st"
  shows "heap_ok (c_heap st) \<and> ledger_ok L (c_heap st)"
  using assms
proof (induction rule: c_reachable.induct)
  case (c_start st)
  then show ?case by (simp add: ledger_ok_def)
next
  case (c_step L st op v st')
  then have "c_frame (c_heap st) (c_heap st') (op_frees op)" using c_step_ok by blast
  with c_step.IH show ?case using ledger_learn by (auto simp: c_frame_def)
qed

text \<open>The ledger is also complete: the caller knows every block there is, except those it freed.\<close>

lemma legal_frees_kind:
  assumes "ledger_ok L h" "legal L op" "a \<in> op_frees op" "blocks h a = Some b" "heap_ok h"
  shows "kind_of b \<noteq> KResource \<and> kind_of b \<noteq> KGate"
proof -
  have "a \<noteq> 0" using live_nonzero[OF assms(5,4)] .
  with assms(1-4) show ?thesis
    by (cases op rule: op_args.cases) (fastforce simp: legal_def ledger_ok_def)+
qed

text \<open>The same release again is undefined.\<close>

lemma dead_undefined:
  assumes "blocks (c_heap st) a = None" "a \<noteq> 0" "a \<in> op_frees op"
  shows "c_exec X op st = None"
  using assms by (cases op rule: op_args.cases) (auto simp: MQSSClientFreeClient_def MQSSClientFreeJob_def
      MQSSClientFreeJobResult_def delete_obj_def free_def freed_def on_heap_def)

lemma freed_block:
  assumes "a \<noteq> 0" "a \<in> op_frees op" "c_exec X op st = Some (r, st')"
  shows "blocks (c_heap st') a = None"
  using assms by (cases op rule: op_args.cases) (auto simp: MQSSClientFreeClient_def MQSSClientFreeJob_def
      MQSSClientFreeJobResult_def delete_obj_def free_def freed_def on_heap_def split: option.splits if_splits block.splits)

text \<open>C3. Memory safety of the C interface, and where it ends: whatever sequence of calls a program
  makes, as long as it passes only \<open>NULL\<close> and handles of the right kind that it was given and has not
  freed, whatever the server answers and whichever allocation fails, a call is undefined (the model's
  value \<open>None\<close>) in exactly two cases: it submits, cancels or asks for the result of a job made by
  \<open>MQSSClientCreateHamiltonianJob\<close>, or it reads a time of a result that the clock cannot hold. So no other
  call touches freed memory, frees twice or takes one object for another. A call that returns has
  released at most the handle it was told to release and has left every other block in place with its
  kind; releasing the same handle a second time would be undefined. The blocks of resources and gates
  are never released: the interface has no function for it.
\<close>

theorem C_api_memory_safe:
  assumes "c_reachable X L st" "legal L op"
  shows "(c_exec X op st = None \<longleftrightarrow> undefined_call (env_mktime X) (c_heap st) op) \<and>
    (\<forall>r st'. c_exec X op st = Some (r, st') \<longrightarrow>
      (\<forall>v a b. r = Ret v \<and> blocks (c_heap st) a = Some b \<and>
          (a \<notin> op_frees op \<or> kind_of b = KResource \<or> kind_of b = KGate) \<longrightarrow>
        (\<exists>b'. blocks (c_heap st') a = Some b' \<and> kind_of b' = kind_of b)) \<and>
      (\<forall>a. a \<in> op_frees op \<and> a \<noteq> 0 \<longrightarrow> blocks (c_heap st') a = None \<and> c_exec X op st' = None))"
proof (intro conjI allI impI)
  from c_reachable_ok[OF assms(1)] have ok: "heap_ok (c_heap st)" "ledger_ok L (c_heap st)" by auto
  show "c_exec X op st = None \<longleftrightarrow> undefined_call (env_mktime X) (c_heap st) op"
    using undefined_call_None[OF ok(1)] c_exec_done[OF ok assms(2)] by (force simp: c_done_def)
  fix r st' assume e: "c_exec X op st = Some (r, st')"
  show "\<exists>b'. blocks (c_heap st') a = Some b' \<and> kind_of b' = kind_of b"
    if "r = Ret v \<and> blocks (c_heap st) a = Some b \<and>
      (a \<notin> op_frees op \<or> kind_of b = KResource \<or> kind_of b = KGate)" for v a b
    using that c_step_ok[OF ok assms(2), of X v st'] e legal_frees_kind[OF ok(2) assms(2) _ _ ok(1), of a b]
    unfolding c_frame_def by blast
  show "blocks (c_heap st') a = None" "c_exec X op st' = None" if "a \<in> op_frees op \<and> a \<noteq> 0" for a
    using that freed_block[OF _ _ e] dead_undefined by blast+
qed

section \<open>Examples\<close>

definition api_env :: "(string list, jv) c_env" where
  "api_env = \<lparr>env_json = uuid_json, env_ctor = (\<lambda>token url isHpc w. (Ret example_client, w)),
     env_destroy = (\<lambda>C w. w), env_mktime = fixed_mktime\<rparr>"

definition api_state :: "(string list, jv) c_state" where
  "api_state = \<lparr>c_heap = example_heap (\<lambda>k. False) False [], c_sys = example_sys []\<rparr>"

text \<open>A program that creates a job: its handle, and the ledger it has then.\<close>

lemma api_creates:
  "\<exists>L st. c_reachable api_env L st \<and> legal L (OnJob (OpFreeJob 1)) \<and> blocks (c_heap st) 1 \<noteq> None"
proof -
  let ?op = "OnJob (OpCreateHamiltonianJob (Some ''R'') (Some ''i'') (Some ''c''))"
  let ?j = "JobObj (HamiltonianJob (HamiltonianJobRequest ''R'' ''i'' ''c''))"
  let ?h = "example_heap (\<lambda>k. False) False []"
  have h: "heap_ok (c_heap api_state)" "blocks (c_heap api_state) = Map.empty"
    by (auto simp: api_state_def example_heap_def heap_ok_def fun_eq_iff)
  let ?st' = "api_state\<lparr>c_heap := snd (new_obj ?j ?h)\<rparr>"
  have e: "c_exec api_env ?op api_state = Some (Ret (VAddr 1), ?st')"
    by (simp add: api_state_def on_heap_def created_def MQSSClientCreateHamiltonianJob_def
        wrap_new_def new_obj_def malloc_def example_heap_def c_str_def)
  have "blocks (c_heap ?st') = (blocks (c_heap api_state))(1 \<mapsto> ?j)"
    by (simp add: api_state_def new_obj_def malloc_def example_heap_def)
  then have "legal (learn (c_heap api_state) (c_heap ?st') (op_frees ?op) Map.empty) (OnJob (OpFreeJob 1))"
    "blocks (c_heap ?st') 1 \<noteq> None"
    using h(2) by (simp_all add: legal_def learn_def)
  moreover have "legal Map.empty ?op" by (simp add: legal_def)
  ultimately show ?thesis using c_step[OF c_start[OF h] _ e] by blast
qed

lemma C_api_memory_safe_witness:
  "\<exists>L st r st'. c_reachable api_env L st \<and> blocks (c_heap st) 1 \<noteq> None \<and>
     c_exec api_env (OnJob (OpFreeJob 1)) st = Some (r, st') \<and> blocks (c_heap st') 1 = None \<and>
     c_exec api_env (OnJob (OpFreeJob 1)) st' = None"
proof -
  obtain L st where s: "c_reachable api_env L st" "legal L (OnJob (OpFreeJob 1))" "blocks (c_heap st) 1 \<noteq> None"
    using api_creates by blast
  from C_api_memory_safe[OF s(1,2)] s(1,3) show ?thesis
    by (cases "c_exec api_env (OnJob (OpFreeJob 1)) st") fastforce+
qed

end
