(* ===== verification/Job_Props.thy ===== *)
theory Job_Props
  imports Job
begin

text \<open>
  Properties of \<open>src/job.cpp\<close>: what a server reads from the payload of a job, and what the
  result object holds for every JSON answer, against a specification of the result that does not
  mention the order in which the code inserts.
\<close>

section \<open>Counts\<close>

lemma sorted_map_unique:
  assumes "sorted_map c" "sorted_map d" "map_of c = map_of d"
  shows "c = d"
proof -
  have dist: "distinct (map fst c)" "distinct (map fst d)"
    using assms(1,2) by (simp_all add: sorted_map_distinct)
  have same: "set c = set d"
  proof (rule set_eqI)
    fix kv
    show "kv \<in> set c \<longleftrightarrow> kv \<in> set d"
      using map_of_eq_Some_iff[OF dist(1)] map_of_eq_Some_iff[OF dist(2)] assms(3)
      by (cases kv) metis
  qed
  have "inj_on fst (set c \<union> set d)"
    using dist(1) unfolding same distinct_map by simp
  then show ?thesis
    using assms(1,2) dist same
    by (intro map_sorted_distinct_set_unique[of fst c d])
      (simp_all add: sorted_map_def strict_sorted_iff)
qed

text \<open>The numbers of an object's members, in order.\<close>

definition item_counts :: "'j json_api \<Rightarrow> 'j \<Rightarrow> u32 list result" where
  "item_counts J x = mapE (\<lambda>kv. jx (j_get_unsigned J (snd kv))) (j_items J x)"

text \<open>
  What a \<open>std::map\<close> of counts read from a JSON value means: its entries are in key order,
  every member is a number, and a key has the last number given for it.
\<close>

definition counts_of :: "'j json_api \<Rightarrow> 'j \<Rightarrow> counts \<Rightarrow> bool" where
  "counts_of J x c \<longleftrightarrow> sorted_map c \<and>
     (\<exists>ns. item_counts J x = Inr ns \<and> map_of c = map_of (rev (zip (map fst (j_items J x)) ns)))"

lemma result_loop_counts:
  "result_loop J kvs m =
     bind_sum (mapE (\<lambda>kv. jx (j_get_unsigned J (snd kv))) kvs) (\<lambda>ns.
       Inr (foldl (\<lambda>m (k, v). map_insert k v m) m (zip (map fst kvs) ns)))"
proof (induction kvs arbitrary: m)
  case (Cons kv kvs)
  then show ?case
    by (cases kv; cases "j_get_unsigned J (snd kv)";
        cases "mapE (\<lambda>kv. jx (j_get_unsigned J (snd kv))) kvs") auto
qed simp

lemma result_loop_iff: "result_loop J (j_items J x) [] = Inr c \<longleftrightarrow> counts_of J x c"
proof (cases "item_counts J x")
  case (Inl e)
  then show ?thesis by (simp add: result_loop_counts counts_of_def item_counts_def)
next
  case (Inr ns)
  let ?c = "foldl (\<lambda>m (k, v). map_insert k v m) [] (zip (map fst (j_items J x)) ns)"
  have "result_loop J (j_items J x) [] = Inr ?c"
    using Inr by (simp add: result_loop_counts item_counts_def)
  moreover have "counts_of J x c \<longleftrightarrow> c = ?c" for c
    using Inr smap.insert_all_empty[of "zip (map fst (j_items J x)) ns"] sorted_map_unique[of c ?c]
    by (auto simp: counts_of_def)
  ultimately show ?thesis by auto
qed

lemma mapE_rel: "mapE f xs = Inr ys \<longleftrightarrow> list_all2 (\<lambda>x y. f x = Inr y) xs ys"
proof (induction xs arbitrary: ys)
  case (Cons x xs)
  then show ?case by (cases ys) (auto simp: sum_simps)
qed auto

lemma result_maps_iff:
  "result_maps J v = Inr rs \<longleftrightarrow>
     list_all2 (counts_of J) (if j_is_array J v then j_elems J v else [v]) rs"
proof (cases "j_is_array J v")
  case True
  then show ?thesis by (simp add: result_maps_def mapE_rel result_loop_iff)
next
  case False
  have "result_maps J v = Inr rs \<longleftrightarrow> (\<exists>c. counts_of J v c \<and> rs = [c])"
    using False by (auto simp: result_maps_def sum_simps result_loop_iff)
  with False show ?thesis by (auto simp: list_all2_Cons1)
qed

section \<open>The result object\<close>

definition has_text :: "'j json_api \<Rightarrow> 'j \<Rightarrow> string \<Rightarrow> string \<Rightarrow> bool" where
  "has_text J v k s \<longleftrightarrow> (\<exists>x. j_find J v k = Some x \<and> j_get_string J x = Inr s)"

lemma json_timestamp_iff:
  assumes "json_laws J"
  shows "json_timestamp J v k = Inr s \<longleftrightarrow> has_text J v k s"
  using json_at[OF assms, of v k] json_at_missing[OF assms, of v k]
  by (cases "j_find J v k") (auto simp: json_timestamp_def has_text_def sum_simps)

text \<open>What a result object means for the answer \<open>v\<close> whose counts are the JSON value \<open>maps\<close>.\<close>

definition result_of :: "'j json_api \<Rightarrow> 'j \<Rightarrow> 'j \<Rightarrow> job_result \<Rightarrow> bool" where
  "result_of J v maps r \<longleftrightarrow>
     list_all2 (counts_of J) (if j_is_array J maps then j_elems J maps else [maps]) (jr_mResults r) \<and>
     has_text J v ''timestamp_completed'' (jr_mTimestampCompleted r) \<and>
     has_text J v ''timestamp_submitted'' (jr_mTimestampSubmitted r) \<and>
     has_text J v ''timestamp_scheduled'' (jr_mTimestampScheduled r)"

lemma JobResult_json_iff:
  assumes "json_laws J" "has_text J v ''result'' t" "j_parse J t = Inr maps"
  shows "JobResult_json J v = Inr r \<longleftrightarrow> result_of J v maps r"
proof -
  have at: "\<exists>x. j_at J v ''result'' = Inr x \<and> j_get_ref_string J x = Inr t"
    using assms(2) json_at[OF assms(1)] json_get_ref[OF assms(1)] by (auto simp: has_text_def)
  have "j_accept J t" using json_accept[OF assms(1)] assms(3) by blast
  with at assms(3) show ?thesis
    by (cases r) (auto simp: JobResult_json_def result_of_def sum_simps result_maps_iff
        json_timestamp_iff[OF assms(1)])
qed

lemma JobResult_json_unreadable:
  assumes "json_laws J" "has_text J v ''result'' t" "j_parse J t = Inl m"
  shows "JobResult_json J v = Inr empty_job_result"
proof -
  have at: "\<exists>x. j_at J v ''result'' = Inr x \<and> j_get_ref_string J x = Inr t"
    using assms(2) json_at[OF assms(1)] json_get_ref[OF assms(1)] by (auto simp: has_text_def)
  have "\<not> j_accept J t" using json_accept[OF assms(1)] assms(3) by simp
  with at show ?thesis by (auto simp: JobResult_json_def)
qed

section \<open>Properties\<close>

text \<open>C34. Round trip of a payload: what a server reads from the JSON text of a job is the job. The
  circuit is a string over REST and the only element of an array in HPC mode; format, resource,
  shots and flags come back by name; a Hamiltonian job carries its three texts; and the uuid of a
  job is no part of what is sent.
\<close>

theorem payload_roundtrip:
  assumes "json_laws J"
  shows "toJson J h (setUuid u job) = toJson J h job \<and>
    (case job of
       CircuitJob j \<Rightarrow>
         read_circuit J h (toJson J h job) = Some (cj_mCircuit j) \<and>
         read_member J (toJson J h job) ''circuit_format'' = Some (cj_mCircuitFormat j) \<and>
         read_member J (toJson J h job) ''resource_name'' = Some (cj_mResourceName j) \<and>
         read_shots J (toJson J h job) = Some (cj_mShots j) \<and>
         j_value_bool J (toJson J h job) ''no_modify'' b = Inr (cj_mNoModify j) \<and>
         j_value_bool J (toJson J h job) ''queued'' b = Inr (cj_mQueued j)
     | HamiltonianJob j \<Rightarrow>
         read_member J (toJson J h job) ''resource_name'' = Some (hj_mResourceName j) \<and>
         read_member J (toJson J h job) ''interaction_str'' = Some (hj_mInteractionStr j) \<and>
         read_member J (toJson J h job) ''coefficients_str'' = Some (hj_mCoefficientsStr j))"
proof (rule conjI[OF toJson_setUuid])
  show "case job of
       CircuitJob j \<Rightarrow>
         read_circuit J h (toJson J h job) = Some (cj_mCircuit j) \<and>
         read_member J (toJson J h job) ''circuit_format'' = Some (cj_mCircuitFormat j) \<and>
         read_member J (toJson J h job) ''resource_name'' = Some (cj_mResourceName j) \<and>
         read_shots J (toJson J h job) = Some (cj_mShots j) \<and>
         j_value_bool J (toJson J h job) ''no_modify'' b = Inr (cj_mNoModify j) \<and>
         j_value_bool J (toJson J h job) ''queued'' b = Inr (cj_mQueued j)
     | HamiltonianJob j \<Rightarrow>
         read_member J (toJson J h job) ''resource_name'' = Some (hj_mResourceName j) \<and>
         read_member J (toJson J h job) ''interaction_str'' = Some (hj_mInteractionStr j) \<and>
         read_member J (toJson J h job) ''coefficients_str'' = Some (hj_mCoefficientsStr j)"
    using circuit_toJson_read[OF assms] hamiltonian_toJson_read[OF assms] by (cases job) simp_all
qed

lemma payload_roundtrip_witness:
  "read_circuit (ref_json []) True (toJson (ref_json []) True
      (CircuitJob (CircuitJobRequest ''OPENQASM'' ''qasm'' ''QExa'' 100 False True))) = Some ''OPENQASM'' \<and>
   read_member (ref_json []) (toJson (ref_json []) False
      (HamiltonianJob (HamiltonianJobRequest ''QExa'' ''XX'' ''1.0''))) ''interaction_str'' = Some ''XX''"
  using payload_roundtrip[OF ref_json_laws, of "[]" True "[]"
      "CircuitJob (CircuitJobRequest ''OPENQASM'' ''qasm'' ''QExa'' 100 False True)" False]
    payload_roundtrip[OF ref_json_laws, of "[]" False "[]"
      "HamiltonianJob (HamiltonianJobRequest ''QExa'' ''XX'' ''1.0'')" False]
  by (simp add: CircuitJobRequest_def HamiltonianJobRequest_def)

text \<open>C18. The result object means what the server sent. If the text of the \<open>result\<close> member is JSON,
  the constructor returns exactly the object with one ordered map per element of the array (one
  map in all when it is no array), in which a bit string has the last count given for it, and with
  the three timestamps; a count that is no number or a timestamp that is missing is a JSON
  exception. If the text is no JSON, the object is empty, timestamps included.
\<close>

theorem JobResult_meaning:
  assumes "json_laws J" "has_text J v ''result'' t"
  shows "case j_parse J t of
      Inl m \<Rightarrow> JobResult_json J v = Inr empty_job_result
    | Inr maps \<Rightarrow> (\<forall>r. JobResult_json J v = Inr r \<longleftrightarrow> result_of J v maps r) \<and>
        (\<forall>e. JobResult_json J v = Inl e \<longrightarrow> (\<exists>m. e = Json_exn m))"
proof (cases "j_parse J t")
  case (Inl m)
  then show ?thesis using JobResult_json_unreadable[OF assms] by simp
next
  case (Inr maps)
  then show ?thesis using JobResult_json_iff[OF assms] by (auto dest: JobResult_json_error)
qed

text \<open>A server that prints the result of a job: the counts as the JSON text \<open>t\<close> inside of the answer.\<close>

definition counts_json :: "'j json_api \<Rightarrow> counts \<Rightarrow> 'j" where
  "counts_json J c = j_object J (map (\<lambda>(k, n). (k, j_uint J n)) c)"

definition result_json :: "'j json_api \<Rightarrow> string \<Rightarrow> job_result \<Rightarrow> 'j" where
  "result_json J t r = j_object J
     [(''result'', j_str J t), (''timestamp_completed'', j_str J (jr_mTimestampCompleted r)),
      (''timestamp_submitted'', j_str J (jr_mTimestampSubmitted r)),
      (''timestamp_scheduled'', j_str J (jr_mTimestampScheduled r))]"

lemma counts_json_read:
  assumes "json_laws J" "sorted_map c"
  shows "counts_of J (counts_json J c) c"
proof -
  let ?kvs = "map (\<lambda>(k, n). (k, j_uint J n)) c" and ?g = "\<lambda>kv. the (map_of c (fst kv))"
  let ?items = "j_items J (counts_json J c)"
  have d: "distinct (map fst c)" by (rule sorted_map_distinct[OF assms(2)])
  then have "distinct (map fst ?kvs)" by (simp add: case_prod_beta comp_def)
  from json_object_items[OF assms(1) this] json_object_once[OF assms(1) this]
  have s: "set ?items = set ?kvs" "distinct (map fst ?items)" by (simp_all add: counts_json_def)
  have keys: "fst ` set ?items = fst ` set c" unfolding s(1) by force
  have read: "jx (j_get_unsigned J (snd kv)) = Inr (?g kv)" if "kv \<in> set ?items" for kv
    using that d json_uint[OF assms(1)] by (auto simp: s(1))
  have "map_of (rev (zip (map fst ?items) (map ?g ?items))) k = map_of c k" for k
  proof (cases "k \<in> fst ` set c")
    case True
    then obtain n where n: "(k, n) \<in> set c" by auto
    let ?z = "zip (map fst ?items) (map ?g ?items)"
    have z: "?z = map (\<lambda>kv. (fst kv, ?g kv)) ?items" by (simp add: zip_map_map zip_same_conv_map)
    have "(k, n) \<in> set ?z" unfolding z using n d s(1) by force
    moreover have "distinct (map fst ?z)" unfolding z using s(2) by (simp add: comp_def)
    moreover from this have "map_of (rev ?z) = map_of ?z"
      using map_of_inject_set[of "rev ?z" ?z] by (simp add: rev_map[symmetric])
    ultimately have "map_of (rev ?z) k = Some n" by simp
    with n d show ?thesis by simp
  next
    case False
    with keys have "map_of (rev (zip (map fst ?items) (map ?g ?items))) k = None"
      by (auto simp: map_of_eq_None_iff dest: set_zip_leftD)
    with False show ?thesis by (metis map_of_eq_None_iff)
  qed
  then have "map_of c = map_of (rev (zip (map fst ?items) (map ?g ?items)))" by (simp add: fun_eq_iff)
  moreover have "item_counts J (counts_json J c) = Inr (map ?g ?items)"
    unfolding item_counts_def by (rule mapE_Inr[OF read])
  ultimately show ?thesis using assms(2) unfolding counts_of_def by blast
qed

lemma result_json_read:
  assumes "json_laws J" "list_all sorted_map results"
    and "j_parse J t = Inr (j_array J (map (counts_json J) results))"
  shows "JobResult_json J (result_json J t (JobResult_members results completed submitted scheduled)) =
    Inr (JobResult_members results completed submitted scheduled)"
proof -
  let ?r = "JobResult_members results completed submitted scheduled"
  have members: "has_text J (result_json J t ?r) ''result'' t"
    "has_text J (result_json J t ?r) ''timestamp_completed'' completed"
    "has_text J (result_json J t ?r) ''timestamp_submitted'' submitted"
    "has_text J (result_json J t ?r) ''timestamp_scheduled'' scheduled"
    unfolding has_text_def result_json_def
    by (simp_all add: json_object_find[OF assms(1)] json_str[OF assms(1)] JobResult_members_def)
  have "list_all2 (counts_of J) (map (counts_json J) results) results"
    using assms(2) counts_json_read[OF assms(1)] by (induction results) simp_all
  with members have "result_of J (result_json J t ?r) (j_array J (map (counts_json J) results)) ?r"
    by (simp add: result_of_def json_is_array[OF assms(1)] json_array[OF assms(1)] JobResult_members_def)
  with JobResult_json_iff[OF assms(1) members(1) assms(3)] show ?thesis by simp
qed

definition counts_texts :: "(string \<times> jv) list" where
  "counts_texts =
     [(''M'', JArr [JObj [(''11'', JNum 3), (''00'', JNum 5)], JObj [(''01'', JNum 7)]])]"

definition counts_answer :: jv where
  "counts_answer =
     JObj [(''result'', JStr ''M''), (''timestamp_completed'', JStr ''c''),
       (''timestamp_submitted'', JStr ''s''), (''timestamp_scheduled'', JStr ''t'')]"

lemma JobResult_meaning_witness:
  "result_of (ref_json counts_texts) counts_answer (snd (hd counts_texts))
     \<lparr>jr_mResults = [[(''00'', 5), (''11'', 3)], [(''01'', 7)]], jr_mTimestampCompleted = ''c'',
      jr_mTimestampSubmitted = ''s'', jr_mTimestampScheduled = ''t''\<rparr>"
proof -
  let ?J = "ref_json counts_texts"
  have t: "has_text ?J counts_answer ''result'' ''M''"
    by (simp add: has_text_def counts_answer_def)
  have p: "j_parse ?J ''M'' = Inr (snd (hd counts_texts))"
    by (simp add: counts_texts_def)
  have r: "JobResult_json ?J counts_answer =
    Inr \<lparr>jr_mResults = [[(''00'', 5), (''11'', 3)], [(''01'', 7)]], jr_mTimestampCompleted = ''c'',
      jr_mTimestampSubmitted = ''s'', jr_mTimestampScheduled = ''t''\<rparr>"
    by (simp add: JobResult_json_def counts_answer_def counts_texts_def jv_simps result_maps_def
        json_timestamp_def)
  from JobResult_meaning[OF ref_json_laws t, unfolded p sum.case] r show ?thesis by blast
qed

end
