(* ===== verification/C_Sessions.thy ===== *)
theory C_Sessions
  imports C_Client Job_Props Timestamp
begin

text \<open>
  A C program from the server's answer to the arrays it reads and the memory it gives back:
  the calls of \<open>src/c_bindings\<close> one after another.
\<close>

section \<open>The counts of a job\<close>

text \<open>Fetching a result without waiting: one query, and a new object for what was read.\<close>

lemma fetch_eval:
  assumes "json_laws J" "call_get C (result_url j) w0 = (Ret response, w)" "response \<noteq> []"
    and "j_parse J response = Inr v" "JobResult_json J v = Inr jr"
  shows "getJobResult J C j False n w0 = (Ret (Some jr), w)"
proof -
  have "j_accept J response" using json_accept[OF assms(1)] assms(4) by blast
  with assms(2-5) show ?thesis by (simp add: getJobResult_def getJobResult_now_def bind_io_def)
qed

lemma C_fetch:
  assumes "handles st client C job j" "getJobResult J C j wait (ucast timeout) (c_sys st) = (Ret (Some jr), w)"
  obtains st1 where "MQSSClientGetJobResult J client job wait timeout st = Some (Exc Bad_alloc, st1)"
      "blocks (c_heap st1) = blocks (c_heap st)" "c_sys st1 = w"
  | a st1 where "MQSSClientGetJobResult J client job wait timeout st = Some (Ret a, st1)" "a \<noteq> 0"
      "blocks (c_heap st) a = None" "blocks (c_heap st1) = (blocks (c_heap st))(a \<mapsto> ResultObj jr)"
      "heap_ok (c_heap st1)" "c_sys st1 = w"
proof -
  obtain x h where n: "new_obj (ResultObj jr) (c_heap st) = (x, h)" by fastforce
  have ok: "heap_ok (c_heap st)" using assms(1) by (simp add: handles_def)
  have e: "MQSSClientGetJobResult J client job wait timeout st =
      (case x of Inl e \<Rightarrow> Some (Exc e, st\<lparr>c_sys := w, c_heap := h\<rparr>)
       | Inr a \<Rightarrow> Some (Ret a, st\<lparr>c_sys := w, c_heap := h\<rparr>))"
    using assms handles_nonzero[OF assms(1)] n
    by (auto simp: handles_def MQSSClientGetJobResult_def c_call_defs c_new_def)
  from ok n show thesis
    by (cases rule: new_obj_cases) (use e that in auto)
qed

text \<open>Counts that were handed over outlive the result they were read from.\<close>

lemma counts_free_result:
  assumes d: "counts_delivered es h1 out h2"
    and a: "blocks h a = None" "blocks h1 = (blocks h)(a \<mapsto> b)" "blocks h3 = (blocks h2)(a := None)"
  shows "counts_delivered es h out h3"
proof -
  from d obtain as where as: "blocks h2 (out_bitstreams out) = Some (Ptrs (map Some as))"
    "list_all2 (\<lambda>a e. blocks h2 a = Some (Chars (fst e))) as es"
    "distinct (out_bitstreams out # out_counts out # as)"
    "\<forall>x \<in> set (out_bitstreams out # out_counts out # as). blocks h1 x = None"
    "\<forall>x. x \<notin> set (out_bitstreams out # out_counts out # as) \<longrightarrow> blocks h2 x = blocks h1 x"
    and c: "blocks h2 (out_counts out) = Some (Ints (map (\<lambda>e. Some (sint (snd e))) es))"
    unfolding counts_delivered_def by blast
  have new: "a \<notin> set (out_bitstreams out # out_counts out # as)" using as(4) a(2) by auto
  have "list_all2 (\<lambda>a e. blocks h3 a = Some (Chars (fst e))) as es"
    using as(2) by (rule list.rel_mono_strong) (use new a(3) in auto)
  moreover have "blocks h x = None" if "x \<in> set (out_bitstreams out # out_counts out # as)" for x
  proof -
    from that new have "x \<noteq> a" by auto
    with as(4) that a(2) show ?thesis by (metis fun_upd_other)
  qed
  moreover have "blocks h3 x = blocks h x" if "x \<notin> set (out_bitstreams out # out_counts out # as)" for x
    using as(5) that a by (cases "x = a") auto
  ultimately show ?thesis
    using as(1,3) c new a(3) unfolding counts_delivered_def by (intro conjI exI[of _ as]) auto
qed

text \<open>C19. From the server's JSON to the arrays of a C program, and back to the memory it started with. If the
  server's answer for a circuit job means the result \<open>jr\<close>, with at least one count, then fetching it from C either
  throws \<open>std::bad_alloc\<close> with no object made, or gives a handle from which reading the counts delivers
  exactly the counts of the answer, in order, or returns -1. In both cases the result can be freed
  next: after -1 this restores the memory, and after 0 the arrays stay valid without the result, and
  freeing the strings and the two arrays restores the memory, so nothing leaks on any path.
\<close>

theorem C_result_life_cycle:
  assumes "json_laws J" "handles st client C job j" "list_all id given"
    and "call_get C (result_url j) (c_sys st) = (Ret response, w)" "response \<noteq> []"
    and "j_parse J response = Inr v" "has_text J v ''result'' t" "j_parse J t = Inr maps"
    and "result_of J v maps jr" "concat (jr_mResults jr) \<noteq> []"
  shows "\<exists>r st1. MQSSClientGetJobResult J client job False timeout st = Some (r, st1) \<and> c_sys st1 = w \<and>
    (r = Exc Bad_alloc \<and> blocks (c_heap st1) = blocks (c_heap st) \<or>
     (\<exists>a code out' h2 h3. r = Ret a \<and> a \<noteq> 0 \<and>
        MQSSClientGetJobResultCounts a given out (c_heap st1) = Some ((code, out'), h2) \<and>
        MQSSClientFreeJobResult a h2 = Some h3 \<and>
        (code = - 1 \<and> blocks h3 = blocks (c_heap st) \<or>
         code = 0 \<and> counts_delivered (concat (jr_mResults jr)) (c_heap st) out' h3 \<and>
         (\<exists>as h4. blocks h3 (out_bitstreams out') = Some (Ptrs (map Some as)) \<and>
            free_ptrs (map Some (as @ [out_bitstreams out', out_counts out'])) h3 = Some h4 \<and>
            blocks h4 = blocks (c_heap st)))))"
proof -
  have "JobResult_json J v = Inr jr" using JobResult_json_iff[OF assms(1,7,8)] assms(9) by simp
  note got = fetch_eval[OF assms(1,4-6) this]
  show ?thesis
  proof (cases rule: C_fetch[OF assms(2) got[of "ucast timeout"]])
    case (1 st1)
    then show ?thesis by blast
  next
    case made: (2 a st1)
    have "blocks (c_heap st1) a = Some (ResultObj jr)" using made(4) by simp
    from GetJobResultCounts_cases[OF made(5) this assms(3) refl assms(10), of out] obtain code out' h2 where
      c: "MQSSClientGetJobResultCounts a given out (c_heap st1) = Some ((code, out'), h2)" "heap_ok h2"
      "code = 0 \<and> counts_delivered (concat (jr_mResults jr)) (c_heap st1) out' h2 \<or>
       code = - 1 \<and> blocks h2 = blocks (c_heap st1)" by blast
    have a2: "blocks h2 a = Some (ResultObj jr)"
      using c(3) counts_delivered_keeps[of _ "c_heap st1" out' h2 a] made(4) by auto
    from free_block[OF c(2) a2] obtain h3 where
      h3: "free a h2 = Some h3" "blocks h3 = (blocks h2)(a := None)" "heap_ok h3" by blast
    have f: "MQSSClientFreeJobResult a h2 = Some h3"
      using made(2) a2 h3(1) by (simp add: MQSSClientFreeJobResult_def delete_obj_def is_result_def)
    have restored: "blocks h3 = blocks (c_heap st)" if "blocks h2 = blocks (c_heap st1)"
      using that h3(2) made(3,4) by (auto simp: fun_eq_iff)
    have del: "counts_delivered (concat (jr_mResults jr)) (c_heap st) out' h3"
      if "counts_delivered (concat (jr_mResults jr)) (c_heap st1) out' h2"
      by (rule counts_free_result[OF that made(3,4) h3(2)])
    show ?thesis
      using made(1,2,6) c(1,3) f restored del counts_released[OF del h3(3)] by blast
  qed
qed

section \<open>The times of a job\<close>

text \<open>A server that prints a moment with six digits of fraction, and the moment in microseconds since the epoch.\<close>

type_synonym stamp = "(nat \<times> nat \<times> nat) \<times> (nat \<times> nat \<times> nat) \<times> nat"

fun print_stamp :: "stamp \<Rightarrow> string" where
  "print_stamp ((y, mo, d), (ho, mi, se), us) = print_date y mo d ho mi se @ ''.'' @ pad 6 us"

fun stamp_micros :: "(tm \<Rightarrow> int) \<Rightarrow> stamp \<Rightarrow> int" where
  "stamp_micros mktime ((y, mo, d), (ho, mi, se), us) = mktime (date_tm y mo d ho mi se) * 10 ^ 6 + int us"

fun stamp_ok :: "(tm \<Rightarrow> int) \<Rightarrow> stamp \<Rightarrow> bool" where
  "stamp_ok mktime ((y, mo, d), (ho, mi, se), us) \<longleftrightarrow>
     date_ok y mo d ho mi se \<and> us < 10 ^ 6 \<and> clock_ok (mktime (date_tm y mo d ho mi se) * 10 ^ 9) \<and>
     clock_ok (mktime (date_tm y mo d ho mi se) * 10 ^ 9 + int us * 10 ^ 3)"

lemma parse_stamp:
  "stamp_ok mktime s \<Longrightarrow> parseTimestamp mktime (print_stamp s) = Some (Inr (word_of_int (stamp_micros mktime s)))"
  by (cases "(mktime, s)" rule: stamp_ok.cases)
    (use parseTimestamp_roundtrip[where rest = "[]" and mktime = mktime] in simp)

lemma stamp_getter:
  assumes "a \<noteq> 0" "blocks h a = Some (ResultObj jr)" "field jr = print_stamp s" "stamp_ok mktime s"
  shows "timestamp_getter field mktime a True out h = Some (0, word_of_int (stamp_micros mktime s))"
  using assms by (simp add: timestamp_getter_def parse_stamp)

text \<open>C20. Round trip of a result, from what the server prints to what a C program reads. The server sends the
  counts and the three times of a circuit job, printed with six digits of fraction. Then the client's result
  holds exactly the counts of the server and its texts, and a C program either gets
  \<open>std::bad_alloc\<close> or a handle whose three getters return 0 and the microseconds of the three times, each
  of its own.
\<close>

theorem C_result_roundtrip:
  assumes "json_laws J" "handles st client C job j"
    and "call_get C (result_url j) (c_sys st) = (Ret response, w)" "response \<noteq> []"
    and "j_parse J t = Inr (j_array J (map (counts_json J) results))" "list_all sorted_map results"
    and "jr = JobResult_members results (print_stamp completed) (print_stamp submitted) (print_stamp scheduled)"
    and "j_parse J response = Inr (result_json J t jr)"
    and "list_all (stamp_ok mktime) [completed, submitted, scheduled]"
  shows "getJobResult J C j False (ucast timeout) (c_sys st) = (Ret (Some jr), w) \<and>
    (\<exists>x st1. MQSSClientGetJobResult J client job False timeout st = Some (x, st1) \<and> c_sys st1 = w \<and>
      (x = Exc Bad_alloc \<or>
       (\<exists>a. x = Ret a \<and> a \<noteq> 0 \<and> blocks (c_heap st1) a = Some (ResultObj jr) \<and>
          MQSSClientGetJobResultCompletedTimestamp mktime a True out (c_heap st1) =
            Some (0, word_of_int (stamp_micros mktime completed)) \<and>
          MQSSClientGetJobResultSubmittedTimestamp mktime a True out (c_heap st1) =
            Some (0, word_of_int (stamp_micros mktime submitted)) \<and>
          MQSSClientGetJobResultScheduledTimestamp mktime a True out (c_heap st1) =
            Some (0, word_of_int (stamp_micros mktime scheduled)))))"
proof -
  have "JobResult_json J (result_json J t jr) = Inr jr"
    using result_json_read[OF assms(1,6,5)] assms(7) by simp
  note got = fetch_eval[OF assms(1,3,4,8) this, of "ucast timeout"]
  show ?thesis
  proof (cases rule: C_fetch[OF assms(2) got])
    case (1 st1)
    with got show ?thesis by blast
  next
    case (2 a st1)
    then have "blocks (c_heap st1) a = Some (ResultObj jr)" by simp
    moreover note stamp_getter[OF 2(2) this]
    ultimately show ?thesis using got 2(1,2,6) assms(9)
      by (auto simp: MQSSClientGetJobResultCompletedTimestamp_def MQSSClientGetJobResultSubmittedTimestamp_def
          MQSSClientGetJobResultScheduledTimestamp_def assms(7) JobResult_members_def)
  qed
qed

section \<open>A resource and its gates\<close>

lemma C_resource:
  assumes "heap_ok (c_heap st)" "blocks (c_heap st) client = Some (ClientObj C)"
    and "getResourceInfo J C (c_str name) (c_sys st) = (Ret (Some r), w)"
  obtains st1 where "MQSSClientGetResourceInfo J client (Some name) st = Some (Exc Bad_alloc, st1)"
      "blocks (c_heap st1) = blocks (c_heap st)" "c_sys st1 = w"
  | a st1 where "MQSSClientGetResourceInfo J client (Some name) st = Some (Ret a, st1)" "a \<noteq> 0"
      "blocks (c_heap st) a = None" "blocks (c_heap st1) = (blocks (c_heap st))(a \<mapsto> ResourceObj r)"
      "heap_ok (c_heap st1)" "c_sys st1 = w"
proof -
  obtain x h where n: "new_obj (ResourceObj r) (c_heap st) = (x, h)" by fastforce
  have e: "MQSSClientGetResourceInfo J client (Some name) st =
      (case x of Inl e \<Rightarrow> Some (Exc e, st\<lparr>c_sys := w, c_heap := h\<rparr>)
       | Inr a \<Rightarrow> Some (Ret a, st\<lparr>c_sys := w, c_heap := h\<rparr>))"
    using assms live_nonzero[OF assms(1,2)] n
    by (simp add: MQSSClientGetResourceInfo_def c_call_defs c_new_def)
  from assms(1) n show thesis
    by (cases rule: new_obj_cases) (use e that in auto)
qed

text \<open>What reading a gate and giving back what was read does: the two blocks are the gate's, and
  afterwards the memory is as before.\<close>

definition gate_reads :: "bool list \<Rightarrow> gate_out \<Rightarrow> 'c heap \<Rightarrow> addr \<Rightarrow> gate \<Rightarrow> bool" where
  "gate_reads given out h p g \<longleftrightarrow>
     (\<exists>code out' h1. MQSSClientResourceGetGateInfo p given out h = Some ((code, out'), h1) \<and>
        (code = - 2 \<and> blocks h1 = blocks h \<or>
         code = 0 \<and> blocks h1 (gout_name out') = Some (Chars (gate_mName g)) \<and>
         gout_qubitNumber out' = gate_mQubitNumber g \<and> gout_parameterNumber out' = gate_mParameterNumber g \<and>
         blocks h1 (gout_supportedQubits out') =
           Some (Ints (map (\<lambda>n. Some (sint n)) (concat (gate_mSupportedQubits g)))) \<and>
         (\<exists>h2. free2 (gout_name out') (gout_supportedQubits out') h1 = Some h2 \<and> blocks h2 = blocks h)))"

lemma gate_readable:
  assumes "heap_ok h" "blocks h p = Some (GateObj g)" "list_all id given"
  shows "gate_reads given out h p g"
proof -
  from GetGateInfo_cases[OF assms, of out] obtain code out' h1 where
    e: "MQSSClientResourceGetGateInfo p given out h = Some ((code, out'), h1)" "heap_ok h1" and
    c: "code = 0 \<and> gout_qubitNumber out' = gate_mQubitNumber g \<and>
       gout_parameterNumber out' = gate_mParameterNumber g \<and>
       gout_supportedQubitCount out' = word_of_nat (length (concat (gate_mSupportedQubits g))) \<and>
       blocks h1 = (blocks h)(gout_name out' \<mapsto> Chars (gate_mName g),
         gout_supportedQubits out' \<mapsto> Ints (map (\<lambda>n. Some (sint n)) (concat (gate_mSupportedQubits g)))) \<and>
       gout_name out' \<noteq> gout_supportedQubits out' \<and>
       blocks h (gout_name out') = None \<and> blocks h (gout_supportedQubits out') = None \<or>
     code = - 2 \<and> gout_name out' = 0 \<and> blocks h1 = blocks h" by blast
  from c show ?thesis
  proof
    assume r: "code = 0 \<and> gout_qubitNumber out' = gate_mQubitNumber g \<and>
       gout_parameterNumber out' = gate_mParameterNumber g \<and>
       gout_supportedQubitCount out' = word_of_nat (length (concat (gate_mSupportedQubits g))) \<and>
       blocks h1 = (blocks h)(gout_name out' \<mapsto> Chars (gate_mName g),
         gout_supportedQubits out' \<mapsto> Ints (map (\<lambda>n. Some (sint n)) (concat (gate_mSupportedQubits g)))) \<and>
       gout_name out' \<noteq> gout_supportedQubits out' \<and>
       blocks h (gout_name out') = None \<and> blocks h (gout_supportedQubits out') = None"
    from r free2_blocks[OF e(2), of "gout_name out'" _ "gout_supportedQubits out'"] obtain h2 where
      "free2 (gout_name out') (gout_supportedQubits out') h1 = Some h2"
      "blocks h2 = (blocks h1)(gout_name out' := None, gout_supportedQubits out' := None)" by auto
    moreover from this r have "blocks h2 = blocks h" by (auto simp: fun_eq_iff)
    ultimately show ?thesis using e(1) r unfolding gate_reads_def by auto
  qed (use e(1) in \<open>simp add: gate_reads_def\<close>)
qed

text \<open>What is left when the name, the coupling map and the array of handles were given back.\<close>

lemma info_released:
  assumes d: "info_delivered r h1 out h2" and ok: "heap_ok h2"
    and a: "blocks h a = None" "blocks h1 = (blocks h)(a \<mapsto> ResourceObj r)"
  shows "\<exists>as h3. blocks h2 (out_nativeGateset out) = Some (Ptrs (map Some as)) \<and>
    free_ptrs (map Some [out_name out, out_couplingMap out, out_nativeGateset out]) h2 = Some h3 \<and>
    heap_ok h3 \<and> list_all2 (\<lambda>p g. blocks h3 p = Some (GateObj g)) as (res_mNativeGateset r) \<and>
    blocks h3 a = Some (ResourceObj r) \<and> a \<notin> set as \<and> distinct as \<and>
    {x. blocks h3 x \<noteq> blocks h x} = insert a (set as)"
proof -
  let ?given = "[out_name out, out_couplingMap out, out_nativeGateset out]"
  from d obtain as where as: "blocks h2 (out_nativeGateset out) = Some (Ptrs (map Some as))"
    "list_all2 (\<lambda>p g. blocks h2 p = Some (GateObj g)) as (res_mNativeGateset r)"
    "distinct (?given @ as)" "\<forall>x \<in> set (?given @ as). blocks h1 x = None"
    "\<forall>x. x \<notin> set (?given @ as) \<longrightarrow> blocks h2 x = blocks h1 x"
    and out: "blocks h2 (out_name out) \<noteq> None" "blocks h2 (out_couplingMap out) \<noteq> None"
    unfolding info_delivered_def by auto
  from as(1) out have "\<forall>x \<in> set ?given. blocks h2 x \<noteq> None" by auto
  from mem.dealloc_all[OF ok _ this] as(3) obtain h3 where
    h3: "free_ptrs (map Some ?given) h2 = Some h3" "heap_ok h3"
    "blocks h3 = (\<lambda>x. if x \<in> set ?given then None else blocks h2 x)"
    unfolding free_ptrs_dealloc by auto
  have new: "a \<notin> set (?given @ as)" using as(4) a(2) by auto
  have gates: "list_all2 (\<lambda>p g. blocks h3 p = Some (GateObj g)) as (res_mNativeGateset r)"
    using as(2) by (rule list.rel_mono_strong) (use as(3) h3(3) in auto)
  have res: "blocks h3 a = Some (ResourceObj r)" using new as(5) a(2) h3(3) by auto
  have none: "blocks h x = None" if "x \<in> set (?given @ as)" for x
    using as(4) that a by (metis fun_upd_apply option.distinct(1))
  have gate: "blocks h3 x \<noteq> None" if "x \<in> set as" for x
    using gates that by (induction rule: list_all2_induct) auto
  have "blocks h3 x \<noteq> blocks h x \<longleftrightarrow> x \<in> insert a (set as)" for x
  proof (cases "x \<in> insert a (set as)")
    case True
    with res a(1) gate[of x] none[of x] show ?thesis by (cases "x = a") auto
  next
    case False
    then have "blocks h3 x = blocks h x"
      using none[of x] as(5) a(2) h3(3) by (cases "x \<in> set ?given") auto
    with False show ?thesis by simp
  qed
  then have "{x. blocks h3 x \<noteq> blocks h x} = insert a (set as)" by blast
  with as(1,3) h3(1,2) gates res new show ?thesis by (intro exI[of _ as] exI[of _ h3]) auto
qed

lemma info_left:
  assumes "info_delivered r h1 out h2" "heap_ok h2"
    and "blocks h a = None" "blocks h1 = (blocks h)(a \<mapsto> ResourceObj r)" "list_all id gate_given"
  shows "\<exists>as h3. blocks h2 (out_nativeGateset out) = Some (Ptrs (map Some as)) \<and>
    free_ptrs (map Some [out_name out, out_couplingMap out, out_nativeGateset out]) h2 = Some h3 \<and>
    list_all2 (gate_reads gate_given gout h3) as (res_mNativeGateset r) \<and>
    {x. blocks h3 x \<noteq> blocks h x} = insert a (set as) \<and>
    card (insert a (set as)) = length (res_mNativeGateset r) + 1"
proof -
  from info_released[OF assms(1-4)] obtain as h3 where
    r: "blocks h2 (out_nativeGateset out) = Some (Ptrs (map Some as))"
    "free_ptrs (map Some [out_name out, out_couplingMap out, out_nativeGateset out]) h2 = Some h3"
    "heap_ok h3" "list_all2 (\<lambda>p g. blocks h3 p = Some (GateObj g)) as (res_mNativeGateset r)"
    "a \<notin> set as" "distinct as" "{x. blocks h3 x \<noteq> blocks h x} = insert a (set as)"
    by blast
  have "list_all2 (gate_reads gate_given gout h3) as (res_mNativeGateset r)"
    using r(4) by (rule list.rel_mono_strong) (rule gate_readable[OF r(3) _ assms(5)])
  moreover have "card (insert a (set as)) = length (res_mNativeGateset r) + 1"
    using r(5,6) list_all2_lengthD[OF r(4)] by (simp add: distinct_card)
  ultimately show ?thesis using r(1,2,7) by blast
qed

text \<open>C21. From the server's JSON to a C program's view of a resource, and what stays in memory. If the
  server answers with the description of a resource, asking for it from C either throws
  \<open>std::bad_alloc\<close> with no object made, or gives a handle. Reading the handle returns an error code
  with nothing but the resource object in memory, or throws \<open>std::bad_alloc\<close>, or delivers the name, the
  counts, the coupling map and one handle per gate of the description. Then the program can free the
  name, the map and the array, and each gate handle can still be read and what was read given back;
  but exactly the resource object and one object per gate remain, which the interface cannot free.
\<close>

theorem C_resource_life_cycle:
  assumes "json_laws J" "heap_ok (c_heap st)" "blocks (c_heap st) client = Some (ClientObj C)"
    and "list_all id given" "list_all id gate_given"
    and "call_get C (''resources/'' @ c_str name) (c_sys st) = (Ret response, w)"
    and "j_parse J response = Inr (row_json J row)" "row_ok row"
    and "str_find ''RESOURCE NOT FOUND'' response = None"
  shows "\<exists>x st1. MQSSClientGetResourceInfo J client (Some name) st = Some (x, st1) \<and> c_sys st1 = w \<and>
    (x = Exc Bad_alloc \<and> blocks (c_heap st1) = blocks (c_heap st) \<or>
     (\<exists>a code out' h2. x = Ret a \<and> a \<noteq> 0 \<and>
        MQSSClientResourceGetInfo a given junk out (c_heap st1) = Some ((code, out'), h2) \<and>
        (code \<in> {Inr (- 3), Inr (- 4), Inr (- 5)} \<and> {x. blocks h2 x \<noteq> blocks (c_heap st) x} = {a} \<or>
         code = Inl Bad_alloc \<or>
         code = Inr 0 \<and> info_delivered (row_resource row) (c_heap st1) out' h2 \<and>
         (\<exists>as h3. blocks h2 (out_nativeGateset out') = Some (Ptrs (map Some as)) \<and>
            free_ptrs (map Some [out_name out', out_couplingMap out', out_nativeGateset out']) h2 = Some h3 \<and>
            list_all2 (gate_reads gate_given gout h3) as (res_mNativeGateset (row_resource row)) \<and>
            {x. blocks h3 x \<noteq> blocks (c_heap st) x} = insert a (set as) \<and>
            card (insert a (set as)) = length (res_mNativeGateset (row_resource row)) + 1))))"
proof -
  let ?r = "row_resource row"
  have got: "getResourceInfo J C (c_str name) (c_sys st) = (Ret (Some ?r), w)"
    using getResourceInfo_eval[OF assms(1,6)] assms(7,9) row_json_read[OF assms(1,8)]
      row_json_no_error[OF assms(1)] by simp
  show ?thesis
  proof (cases rule: C_resource[OF assms(2,3) got])
    case (1 st1)
    then show ?thesis by blast
  next
    case made: (2 a st1)
    have "blocks (c_heap st1) a = Some (ResourceObj ?r)" using made(4) by simp
    from ResourceGetInfo_end[OF made(5) this assms(4), of junk out] obtain code out' h2 where
      c: "MQSSClientResourceGetInfo a given junk out (c_heap st1) = Some ((code, out'), h2)" "heap_ok h2"
      "code = Inr 0 \<and> info_delivered ?r (c_heap st1) out' h2 \<or>
       code \<in> {Inr (- 3), Inr (- 4), Inr (- 5)} \<and> blocks h2 = blocks (c_heap st1) \<or>
       code = Inl Bad_alloc" unfolding info_end_def by blast
    have alone: "{x. blocks h2 x \<noteq> blocks (c_heap st) x} = {a}" if "blocks h2 = blocks (c_heap st1)"
      using that made(3,4) by auto
    note left = info_left[OF _ c(2) made(3,4) assms(5), of out' gout]
    show ?thesis using made(1,2,6) c(1,3) alone left by blast
  qed
qed

section \<open>Examples\<close>

definition session_texts :: "(string \<times> jv) list" where
  "session_texts = (''A'', counts_answer) # counts_texts"

definition session_result :: job_result where
  "session_result = \<lparr>jr_mResults = [[(''00'', 5), (''11'', 3)], [(''01'', 7)]], jr_mTimestampCompleted = ''c'',
     jr_mTimestampSubmitted = ''s'', jr_mTimestampScheduled = ''t''\<rparr>"

lemma session_answer:
  "has_text (ref_json session_texts) counts_answer ''result'' ''M''"
  "j_parse (ref_json session_texts) ''A'' = Inr counts_answer"
  "j_parse (ref_json session_texts) ''M'' = Inr (snd (hd counts_texts))"
  "result_of (ref_json session_texts) counts_answer (snd (hd counts_texts)) session_result"
proof -
  show t: "has_text (ref_json session_texts) counts_answer ''result'' ''M''"
    by (simp add: has_text_def counts_answer_def)
  show "j_parse (ref_json session_texts) ''A'' = Inr counts_answer"
    by (simp add: session_texts_def)
  show m: "j_parse (ref_json session_texts) ''M'' = Inr (snd (hd counts_texts))"
    by (simp add: session_texts_def counts_texts_def)
  have "JobResult_json (ref_json session_texts) counts_answer = Inr session_result"
    by (simp add: JobResult_json_def session_result_def counts_answer_def session_texts_def
        counts_texts_def jv_simps result_maps_def json_timestamp_def)
  then show "result_of (ref_json session_texts) counts_answer (snd (hd counts_texts)) session_result"
    using JobResult_json_iff[OF ref_json_laws t m] by simp
qed

theorem C_result_life_cycle_witness:
  "\<exists>r st1. MQSSClientGetJobResult (ref_json session_texts) 1 2 False 0 (c_example ''A'') = Some (r, st1) \<and>
    (r = Exc Bad_alloc \<or>
     (\<exists>a code out' h2 h3. r = Ret a \<and>
        MQSSClientGetJobResultCounts a [True, True, True] no_counts (c_heap st1) = Some ((code, out'), h2) \<and>
        MQSSClientFreeJobResult a h2 = Some h3 \<and>
        (code = - 1 \<or> code = 0 \<and> blocks h3 (out_counts out') = Some (Ints [Some 5, Some 3, Some 7]))))"
proof -
  have g: "call_get example_client (result_url example_job) (c_sys (c_example ''A'')) =
      (Ret ''A'', \<lparr>net = [], trace = [EvGet (result_url example_job) (Ret ''A'')]\<rparr>)"
    by (simp add: c_example_def example_get)
  have s: "concat (jr_mResults session_result) = [(''00'', 5), (''11'', 3), (''01'', 7)]"
    by (simp add: session_result_def)
  then have some: "concat (jr_mResults session_result) \<noteq> []" by simp
  from C_result_life_cycle[OF ref_json_laws c_example_handles(1) _ g _ session_answer(2,1,3,4) some,
      of "[True, True, True]" 0 no_counts]
  show ?thesis by (simp add: s counts_delivered_def) blast
qed

lemma Q5_answer:
  "j_parse resources_json ''R'' = Inr (row_json resources_json Q5_row)"
  "row_ok Q5_row" "str_find ''RESOURCE NOT FOUND'' ''R'' = None"
  by (simp_all add: resources_json_def row_json_ref[of "(''A'', _) # _"] Q5_row_def example_rows_def
      printable_gate_def getGateProterties_def int_qubit_def str_find_None_iff sublist_def)

theorem C_resource_life_cycle_witness:
  "\<exists>x st1. MQSSClientGetResourceInfo resources_json 1 (Some ''Q5'') (c_example ''R'') = Some (x, st1) \<and>
    (x = Exc Bad_alloc \<or>
     (\<exists>a code out' h2. x = Ret a \<and>
        MQSSClientResourceGetInfo a (replicate 7 True) 9 no_info (c_heap st1) = Some ((code, out'), h2) \<and>
        (code = Inr 0 \<longrightarrow> blocks h2 (out_name out') = Some (Chars ''Q5'') \<and> out_gateCount out' = 1)))"
proof -
  have g: "call_get example_client (''resources/'' @ c_str ''Q5'') (c_sys (c_example ''R'')) =
      (Ret ''R'', \<lparr>net = [], trace = [EvGet ''resources/Q5'' (Ret ''R'')]\<rparr>)"
    by (simp add: c_example_def example_get c_str_def)
  have all: "list_all id (replicate 7 True)" "list_all id (replicate 5 True)"
    by (simp_all add: list_all_iff)
  from C_resource_life_cycle[OF resources_json_laws c_example_handles(2,3) all g Q5_answer,
      of 9 no_info no_gate]
  show ?thesis by (fastforce simp: info_delivered_def Q5_row_def c_str_def Resource_members_def)
qed

definition stamp_at :: "nat \<Rightarrow> stamp" where
  "stamp_at us = ((2023, 11, 14), (22, 13, 20), us)"

definition stamped_result :: job_result where
  "stamped_result = JobResult_members [[(''00'', 5), (''11'', 3)]]
     (print_stamp (stamp_at 30)) (print_stamp (stamp_at 10)) (print_stamp (stamp_at 20))"

definition stamped_json :: "jv json_api" where
  "stamped_json = ref_json [(''A'', result_json (ref_json []) ''M'' stamped_result),
     (''M'', JArr [counts_json (ref_json []) [(''00'', 5), (''11'', 3)]])]"

lemma stamped_answer:
  "json_laws stamped_json" "list_all sorted_map [[(''00'', 5 :: u32), (''11'', 3)]]"
  "j_parse stamped_json ''M'' = Inr (j_array stamped_json (map (counts_json stamped_json) [[(''00'', 5), (''11'', 3)]]))"
  "j_parse stamped_json ''A'' = Inr (result_json stamped_json ''M'' stamped_result)"
  "us < 10 ^ 6 \<Longrightarrow> stamp_ok fixed_mktime (stamp_at us)"
  by (simp_all add: stamped_json_def ref_json_laws counts_json_def result_json_def sorted_map_def
      stamp_at_def date_ok_def fixed_mktime_def clock_ok_def)

theorem C_result_roundtrip_witness:
  "\<exists>x st1. MQSSClientGetJobResult stamped_json 1 2 False 0 (c_example ''A'') = Some (x, st1) \<and>
     (x = Exc Bad_alloc \<or>
      (\<exists>a. x = Ret a \<and> MQSSClientGetJobResultSubmittedTimestamp fixed_mktime a True 0 (c_heap st1) =
         Some (0, word_of_int (1700000000 * 10 ^ 6 + 10))))"
proof -
  have g: "call_get example_client (result_url example_job) (c_sys (c_example ''A'')) =
      (Ret ''A'', \<lparr>net = [], trace = [EvGet (result_url example_job) (Ret ''A'')]\<rparr>)"
    by (simp add: c_example_def example_get)
  have ok: "list_all (stamp_ok fixed_mktime) [stamp_at 30, stamp_at 10, stamp_at 20]"
    using stamped_answer(5) by simp
  have micros: "stamp_micros fixed_mktime (stamp_at 10) = 1700000000 * 10 ^ 6 + 10"
    by (simp add: stamp_at_def fixed_mktime_def)
  from C_result_roundtrip[OF stamped_answer(1) c_example_handles(1) g _ stamped_answer(3,2)
      stamped_result_def stamped_answer(4) ok, of 0 0]
  show ?thesis unfolding micros by blast
qed

end
