(* ===== verification/C_Types.thy ===== *)
theory C_Types
  imports C_Api C_Sessions Resource_Props
begin

text \<open>
  What the objects behind the handles of the C interface are: every resource, gate and job result in
  memory is one that the parsers of \<open>src/resource.cpp\<close> and \<open>src/job.cpp\<close> can make, whatever calls were
  made and whatever the server answered; so are the numbers and strings a C program is given.
\<close>

section \<open>Well-typed memory\<close>

fun block_ok :: "'c block \<Rightarrow> bool" where
  "block_ok (ResourceObj r) = resource_ok r"
| "block_ok (GateObj g) = gate_ok g"
| "block_ok (ResultObj r) = list_all sorted_map (jr_mResults r)"
| "block_ok _ = True"

definition heap_typed :: "'c heap \<Rightarrow> bool" where
  "heap_typed h \<longleftrightarrow> (\<forall>a b. blocks h a = Some b \<longrightarrow> block_ok b)"

lemma heap_typedD: "heap_typed h \<Longrightarrow> blocks h a = Some b \<Longrightarrow> block_ok b"
  by (simp add: heap_typed_def)

text \<open>What one call adds: every block was there before, or is well formed; and it is no job and no client,
  unless these are among the kinds \<open>ks\<close> the call makes.\<close>

definition block_new :: "bkind set \<Rightarrow> 'c block \<Rightarrow> bool" where
  "block_new ks b \<longleftrightarrow> block_ok b \<and> (kind_of b \<in> {KJob, KClient} \<longrightarrow> kind_of b \<in> ks)"

lemma block_new_simps [simp]:
  "block_new ks (Ints ns)" "block_new ks (Chars s)" "block_new ks (Ptrs ps)"
  "block_new ks (ClientObj c) \<longleftrightarrow> KClient \<in> ks" "block_new ks (JobObj j) \<longleftrightarrow> KJob \<in> ks"
  "block_new ks (ResourceObj r) \<longleftrightarrow> resource_ok r" "block_new ks (GateObj g) \<longleftrightarrow> gate_ok g"
  "block_new ks (ResultObj jr) \<longleftrightarrow> list_all sorted_map (jr_mResults jr)"
  by (simp_all add: block_new_def)

definition grows :: "bkind set \<Rightarrow> 'c heap \<Rightarrow> 'c heap \<Rightarrow> bool" where
  "grows ks h h' \<longleftrightarrow> (\<forall>a b. blocks h' a = Some b \<longrightarrow> blocks h a = Some b \<or> block_new ks b)"

lemma grows_typed: "grows ks h h' \<Longrightarrow> heap_typed h \<Longrightarrow> heap_typed h'"
  by (auto simp: grows_def heap_typed_def block_new_def)

lemma grows_same: "blocks h' = blocks h \<Longrightarrow> grows ks h h'"
  by (simp add: grows_def)

lemma grows_upd: "blocks h' = (blocks h)(a \<mapsto> b) \<Longrightarrow> block_new ks b \<Longrightarrow> grows ks h h'"
  by (simp add: grows_def)

lemma grows_del: "blocks h' = (blocks h)(a := None) \<Longrightarrow> grows ks h h'"
  by (simp add: grows_def)

lemma grows_trans: "grows ks h h1 \<Longrightarrow> grows ks h1 h2 \<Longrightarrow> grows ks h h2"
  by (auto simp: grows_def)

lemma malloc_grows: "malloc n b h = (a, h') \<Longrightarrow> block_new ks b \<Longrightarrow> grows ks h h'"
  by (erule malloc_cases) (auto intro: grows_same grows_upd)

lemma new_obj_grows: "new_obj b h = (r, h') \<Longrightarrow> block_new ks b \<Longrightarrow> grows ks h h'"
  by (auto simp: new_obj_def split: prod.splits dest: malloc_grows)

lemma write_block_grows: "write_block a b h = Some h' \<Longrightarrow> block_new ks b \<Longrightarrow> grows ks h h'"
  by (auto simp: write_block_def grows_def split: option.splits if_splits)

lemma free_grows: "free a h = Some h' \<Longrightarrow> grows ks h h'"
  by (auto simp: free_def grows_def split: option.splits if_splits)

lemma fill_objs_grows: "fill_objs bs i arr h = Some (r, h') \<Longrightarrow> list_all (block_new ks) bs \<Longrightarrow> grows ks h h'"
proof (induction bs i arr h rule: fill_objs.induct)
  case (2 b bs i arr h)
  obtain r1 h1 where n: "new_obj b h = (r1, h1)" by fastforce
  with "2.prems" have g: "grows ks h h1" by (auto dest: new_obj_grows)
  show ?case
  proof (cases r1)
    case (Inl e)
    with n g "2.prems"(1) show ?thesis by simp
  next
    case (Inr a)
    with n "2.prems"(1) obtain ps h2 where w: "blocks h1 arr = Some (Ptrs ps)"
      "write_block arr (Ptrs (ps[i := Some a])) h1 = Some h2" "fill_objs bs (i + 1) arr h2 = Some (r, h')"
      by (auto split: option.splits block.splits)
    from "2.IH"[OF n[symmetric] Inr w(1) refl w(2,3)] "2.prems"(2) have "grows ks h2 h'" by simp
    with g write_block_grows[OF w(2)] show ?thesis by (auto intro: grows_trans)
  qed
qed (simp add: grows_same)

lemma flatten2D_grows: "flatten2D f input given count h = Some (r, h') \<Longrightarrow> grows ks h h'"
  by (auto simp: flatten2D_def Let_def intro: grows_same grows_trans dest!: malloc_grows
      dest: write_block_grows split: prod.splits option.splits if_splits)

lemmas heap_grows = malloc_grows new_obj_grows write_block_grows free_grows fill_objs_grows flatten2D_grows

section \<open>What the client hands over\<close>

lemma getAllResources_ok:
  assumes "getAllResources J C w = (Ret rs, w')"
  shows "list_all resource_ok rs"
proof -
  have "list_all resource_ok ys" if "mapE (Resource_json J) xs = Inr ys" for xs ys
    unfolding list_all_iff using mapE_members[OF that] Resource_json_ok by metis
  with assms show ?thesis by (auto simp: getAllResources_def elim!: bind_io_Ret_cases split: if_splits)
qed

lemma getResourceInfo_ok:
  assumes "getResourceInfo J C name w = (Ret (Some r), w')"
  shows "resource_ok r"
  using assms by (auto simp: getResourceInfo_def elim!: bind_io_Ret_cases split: if_splits) (rule Resource_json_ok)

lemma getJobResult_now_ok:
  assumes "getJobResult_now J C job w = (Ret (Some r), w')"
  shows "list_all sorted_map (jr_mResults r)"
  using assms by (auto simp: getJobResult_now_def list_all_iff elim!: bind_io_Ret_cases split: if_splits)
    (rule JobResult_json_sorted)

lemma polled_ok:
  "polled J C job p (Polling t w) y \<Longrightarrow> y = Done (Ret (Some r)) w' \<Longrightarrow> list_all sorted_map (jr_mResults r)"
proof (induction rule: rtranclp_induct)
  case (step y z)
  from step.hyps(2) step.prems obtain w1 where "getJobResult_now J C job w1 = (Ret (Some r), w')"
    by (cases rule: poll_step.cases) simp_all
  then show ?case by (rule getJobResult_now_ok)
qed simp

lemma getJobResult_ok:
  assumes "getJobResult J C job wait timeout w = (Ret (Some r), w')"
  shows "list_all sorted_map (jr_mResults r)"
proof (cases wait)
  case True
  with assms have "getJobResult J C job True timeout w = (Ret (Some r), w')" by simp
  from polled_ok[OF getJobResult_polled[OF this]] show ?thesis by simp
next
  case False
  with assms show ?thesis by (simp add: getJobResult_def getJobResult_now_ok)
qed

section \<open>What a call returns\<close>

text \<open>The kind of object behind the handle a call returns.\<close>

fun op_returns :: "c_op \<Rightarrow> bkind option" where
  "op_returns (OnClient (OpCreateClient token url isHpc)) = Some KClient"
| "op_returns (OnClient (OpGetResourceInfo c name)) = Some KResource"
| "op_returns (OnClient (OpGetJobResult c j wait timeout)) = Some KResult"
| "op_returns (OnJob (OpCreateCircuitJob c f r shots noModify queued)) = Some KJob"
| "op_returns (OnJob (OpCreateHamiltonianJob r i c)) = Some KJob"
| "op_returns _ = None"

text \<open>The calls that make a client or a job, or write to a job.\<close>

fun op_makes :: "c_op \<Rightarrow> bkind set" where
  "op_makes (OnClient (OpCreateClient token url isHpc)) = {KClient}"
| "op_makes (OnClient (OpSubmitJob c j)) = {KJob}"
| "op_makes (OnJob (OpCreateCircuitJob c f r shots noModify queued)) = {KJob}"
| "op_makes (OnJob (OpCreateHamiltonianJob r i c)) = {KJob}"
| "op_makes _ = {}"

text \<open>What the caller can rely on, by the value: the object behind a handle; an array of resources as long
  as the size says; counts in two arrays of the same length; a resource whose coupling map is a list of
  pairs of qubits and whose gates are gates; a gate of the table.\<close>

definition qubits_at :: "'c heap \<Rightarrow> addr \<Rightarrow> int list \<Rightarrow> bool" where
  "qubits_at h a ns \<longleftrightarrow> blocks h a = Some (Ints (map Some ns)) \<and> (\<forall>n \<in> set ns. 0 \<le> n \<and> n \<le> int_max)"

fun value_ok :: "c_op \<Rightarrow> c_value \<Rightarrow> 'c heap \<Rightarrow> bool" where
  "value_ok op (VAddr a) h \<longleftrightarrow> a = 0 \<or> (\<exists>b. blocks h a = Some b \<and> op_returns op = Some (kind_of b))"
| "value_ok op (VArray a n) h \<longleftrightarrow> a = 0 \<or>
     (\<exists>as. blocks h a = Some (Ptrs (map Some as)) \<and> n = sint (word_of_nat (length as) :: u32) \<and>
        (\<forall>x \<in> set as. \<exists>r. blocks h x = Some (ResourceObj r)))"
| "value_ok op (VCounts code out) h \<longleftrightarrow> code = 0 \<longrightarrow> out_bitstreams out = 0 \<and> out_counts out = 0 \<or>
     (\<exists>as ns. blocks h (out_bitstreams out) = Some (Ptrs (map Some as)) \<and>
        blocks h (out_counts out) = Some (Ints (map Some ns)) \<and> length as = length ns \<and>
        (\<forall>x \<in> set as. \<exists>s. blocks h x = Some (Chars s)))"
| "value_ok op (VInfo code out) h \<longleftrightarrow> code = 0 \<longrightarrow>
     (\<exists>ns as. qubits_at h (out_couplingMap out) ns \<and> even (length ns) \<and>
        out_couplingMapSize out = word_of_nat (length ns) \<and>
        blocks h (out_nativeGateset out) = Some (Ptrs (map Some as)) \<and>
        out_gateCount out = word_of_nat (length as) \<and>
        (\<forall>x \<in> set as. \<exists>g. blocks h x = Some (GateObj g)))"
| "value_ok op (VGate code out) h \<longleftrightarrow> code = 0 \<longrightarrow>
     (\<exists>n qs. blocks h (gout_name out) = Some (Chars n) \<and>
        (n, gout_qubitNumber out, gout_parameterNumber out) \<in> set known_gates \<and>
        qubits_at h (gout_supportedQubits out) qs \<and>
        gout_supportedQubitCount out = word_of_nat (length qs))"
| "value_ok op _ h \<longleftrightarrow> True"

definition c_gives ::
  "bkind set \<Rightarrow> ('a outcome \<times> ('s, 'j) c_state) option \<Rightarrow> ('s, 'j) c_state \<Rightarrow> ('a \<Rightarrow> ('s, 'j) mqss_client heap \<Rightarrow> bool) \<Rightarrow> bool" where
  "c_gives ks x st Q \<longleftrightarrow>
     (\<forall>v st'. x = Some (Ret v, st') \<longrightarrow> grows ks (c_heap st) (c_heap st') \<and> Q v (c_heap st'))"

definition h_gives :: "bkind set \<Rightarrow> ('a result \<times> 'c heap) option \<Rightarrow> 'c heap \<Rightarrow> ('a \<Rightarrow> 'c heap \<Rightarrow> bool) \<Rightarrow> bool" where
  "h_gives ks x h Q \<longleftrightarrow> (\<forall>v h'. x = Some (Inr v, h') \<longrightarrow> grows ks h h' \<and> Q v h')"

lemma ret_as_gives: "c_gives ks x st (\<lambda>v. Q (f v)) \<Longrightarrow> c_gives ks (ret_as f x) st Q"
  by (auto simp: c_gives_def ret_as_def split: option.splits outcome.splits)

lemma on_heap_gives: "h_gives ks (f (c_heap st)) (c_heap st) Q \<Longrightarrow> c_gives ks (on_heap f st) st Q"
  by (auto simp: c_gives_def h_gives_def on_heap_def split: option.splits sum.splits)

lemma ret_gives: "blocks (c_heap st') = blocks (c_heap st) \<Longrightarrow> Q v (c_heap st') \<Longrightarrow> c_gives ks (c_ret v st') st Q"
  by (simp add: c_gives_def c_ret_def grows_same)

lemma c_new_gives:
  assumes "heap_ok (c_heap st)" "c_heap st' = c_heap st" "block_new ks b"
    and "\<And>a h. blocks h a = Some b \<Longrightarrow> Q a h"
  shows "c_gives ks (c_new b st') st Q"
  by (rule new_obj_cases[OF assms(1) surjective_pairing, of b])
    (auto simp: c_gives_def c_new_def assms(2) intro: assms(4) grows_upd[OF _ assms(3)] split: prod.splits sum.splits)

lemma method_gives:
  assumes "\<And>a w. m (c_sys st) = (Ret a, w) \<Longrightarrow> c_gives ks (f a (st\<lparr>c_sys := w\<rparr>)) st Q"
  shows "c_gives ks (call_method m f st) st Q"
  using assms by (auto simp: call_method_def c_gives_def split: prod.splits outcome.splits)

lemma with_client_gives:
  assumes "\<And>C. blocks (c_heap st) c = Some (ClientObj C) \<Longrightarrow> c_gives ks (f C st) st Q"
  shows "c_gives ks (with_client c f st) st Q"
  using assms by (auto simp: with_client_def c_gives_def split: option.splits block.splits)

lemma with_job_gives:
  assumes "\<And>x. blocks (c_heap st) j = Some (JobObj x) \<Longrightarrow> c_gives ks (f x st) st Q"
  shows "c_gives ks (with_job j f st) st Q"
  using assms by (auto simp: with_job_def c_gives_def split: option.splits block.splits job.splits)

lemmas client_gives = ret_gives c_new_gives method_gives with_client_gives with_job_gives

section \<open>Every call\<close>

lemma CreateClient_gives:
  assumes "heap_ok (c_heap st)"
  shows "c_gives {KClient} (ret_as VAddr (MQSSClientCreateClient ctor token url isHpc st)) st
    (value_ok (OnClient (OpCreateClient t u b)))"
proof (intro ret_as_gives)
  show "c_gives {KClient} (MQSSClientCreateClient ctor token url isHpc st) st
    (\<lambda>a. value_ok (OnClient (OpCreateClient t u b)) (VAddr a))"
    using assms by (auto simp: MQSSClientCreateClient_def c_gives_def[of "{KClient}" "Some x" for x]
        intro!: ret_gives c_new_gives split: prod.splits outcome.splits)
qed

lemma array_gives:
  assumes "heap_ok h" "malloc n (Ptrs (replicate (length rs) None)) h = (a, h1)" "a \<noteq> 0"
    and "list_all resource_ok rs" "fill_objs (map ResourceObj rs) 0 a h1 = Some (Inr u, h2)"
  shows "grows ks h h2 \<and> (\<exists>as. blocks h2 a = Some (Ptrs (map Some as)) \<and> length as = length rs \<and>
    (\<forall>x \<in> set as. \<exists>r. blocks h2 x = Some (ResourceObj r)))"
proof -
  from malloc_fresh[OF assms(1-3)] have f: "heap_ok h1" "blocks h1 a = Some (Ptrs (replicate (length rs) None))"
    by auto
  from fill_objs_cases[OF f, of 0 "map ResourceObj rs"] assms(5) obtain as where
    "objs_at h1 h2 a as (map ResourceObj rs)" "blocks h2 a = Some (Ptrs (map Some as))" by auto
  moreover from this(1) have o: "list_all2 (\<lambda>x r. blocks h2 x = Some (ResourceObj r)) as rs"
    by (simp add: objs_at_def list_all2_map2)
  moreover have "\<exists>r. blocks h2 x = Some (ResourceObj r)" if "x \<in> set as" for x
    using o that by (induction rule: list_all2_induct) auto
  moreover have "grows ks h h2"
    using assms(2,4,5) by (auto intro!: grows_trans[OF malloc_grows fill_objs_grows] simp: list_all_iff)
  ultimately show ?thesis by (auto dest: list_all2_lengthD)
qed

lemma GetAllResources_gives:
  assumes "heap_ok (c_heap st)"
  shows "c_gives ks (ret_as (\<lambda>(a, k). VArray a k) (MQSSClientGetAllResources J c given n st)) st (value_ok op)"
proof -
  have "c_gives ks (let n' = sint (word_of_nat (length found) :: u32);
            (resources, h) = malloc (length found * 8)
              (Ptrs (replicate (length found) None)) (c_heap (st\<lparr>c_sys := w\<rparr>));
            st1 = st\<lparr>c_sys := w, c_heap := h\<rparr>
        in if resources = 0 \<and> found \<noteq> [] then c_ret (0, n') st1
           else if found = [] then c_ret (resources, n') st1
           else case fill_objs (map ResourceObj found) 0 resources h of
               None \<Rightarrow> None
             | Some (Inl e, h1) \<Rightarrow> Some (Exc e, st1\<lparr>c_heap := h1\<rparr>)
             | Some (Inr u, h1) \<Rightarrow> c_ret (resources, n') (st1\<lparr>c_heap := h1\<rparr>)) st
      (\<lambda>v. value_ok op (case v of (a, k) \<Rightarrow> VArray a k))" if ok: "list_all resource_ok found" for found w
  proof -
    obtain a h where m: "malloc (length found * 8) (Ptrs (replicate (length found) None)) (c_heap st) = (a, h)"
      by fastforce
    have once: "grows ks (c_heap st) h" using malloc_grows[OF m] by simp
    show ?thesis
    proof (cases "a = 0 \<or> found = []")
      case True
      with m once malloc_fresh[OF assms m] show ?thesis by (auto simp: c_gives_def c_ret_def Let_def)
    next
      case False
      have "grows ks (c_heap st) h2 \<and> value_ok op (VArray a (sint (word_of_nat (length found) :: u32))) h2"
        if "fill_objs (map ResourceObj found) 0 a h = Some (Inr u, h2)" for u h2
        using array_gives[OF assms m _ ok that, of ks] False by fastforce
      with False m show ?thesis
        by (auto simp: c_gives_def c_ret_def Let_def simp del: value_ok.simps split: option.splits sum.splits)
    qed
  qed
  then show ?thesis unfolding MQSSClientGetAllResources_def
    by (auto intro!: ret_as_gives client_gives) (use getAllResources_ok in blast)
qed

lemma GetResourceInfo_gives:
  assumes "heap_ok (c_heap st)"
  shows "c_gives ks (ret_as VAddr (MQSSClientGetResourceInfo J c name st)) st
    (value_ok (OnClient (OpGetResourceInfo c' name')))"
  unfolding MQSSClientGetResourceInfo_def using assms
  by (auto intro!: ret_as_gives client_gives split: option.splits) (rule getResourceInfo_ok)

lemma SubmitJob_gives: "c_gives {KJob} (ret_as VInt (MQSSClientSubmitJob J c j st)) st (value_ok op)"
  unfolding MQSSClientSubmitJob_def
  by (auto intro!: ret_as_gives client_gives)
    (auto simp: c_gives_def c_ret_def dest: write_block_grows split: option.splits sum.splits)

lemma CancelJob_gives: "c_gives ks (ret_as (\<lambda>u. VUnit) (MQSSClientCancelJob c j st)) st (value_ok op)"
  unfolding MQSSClientCancelJob_def
  by (auto intro!: ret_as_gives client_gives simp: c_gives_def[of ks "Some x" for x] split: prod.splits outcome.splits)

lemma GetJobResult_gives:
  assumes "heap_ok (c_heap st)"
  shows "c_gives ks (ret_as VAddr (MQSSClientGetJobResult J c j wait timeout st)) st
    (value_ok (OnClient (OpGetJobResult c' j' w' t')))"
  unfolding MQSSClientGetJobResult_def using assms
  by (auto intro!: ret_as_gives client_gives split: option.splits) (rule getJobResult_ok)

lemma GetNumberPendingJobs_gives:
  "c_gives ks (ret_as VInt (MQSSClientGetNumberPendingJobs J c name st)) st (value_ok op)"
  unfolding MQSSClientGetNumberPendingJobs_def
  by (auto intro!: ret_as_gives client_gives)

lemma FreeClient_gives:
  "c_gives ks (map_option (\<lambda>st'. (Ret VUnit, st')) (MQSSClientFreeClient destroy c st)) st (value_ok op)"
  by (auto simp: c_gives_def MQSSClientFreeClient_def delete_obj_def grows_same split: option.splits block.splits if_splits
      dest: free_grows)

lemma freed_gives: "(\<And>h'. x = Some h' \<Longrightarrow> grows ks h h') \<Longrightarrow> h_gives ks (freed x) h (value_ok op)"
  by (auto simp: h_gives_def freed_def)

lemma delete_gives: "h_gives ks (freed (delete_obj kind a h)) h (value_ok op)"
  by (rule freed_gives) (auto simp: delete_obj_def grows_same dest: free_grows split: option.splits if_splits)

lemma timed_gives: "h_gives ks (timed h x) h (value_ok op)"
  by (auto simp: h_gives_def timed_def grows_same)

lemma created_gives:
  assumes "heap_ok h" "block_new ks b" "op_returns op = Some (kind_of b)"
  shows "h_gives ks (created (new_obj b h)) h (value_ok op)"
  by (rule new_obj_cases[OF assms(1) surjective_pairing, of b])
    (auto simp: h_gives_def created_def assms(3) intro: grows_upd[OF _ assms(2)] split: prod.splits sum.splits)

lemma int_qubit_sint: "int_qubit n \<Longrightarrow> 0 \<le> sint n \<and> sint n \<le> int_max"
proof -
  assume "int_qubit n"
  then have le: "uint n \<le> 2 ^ 31 - 1" by (simp add: int_qubit_def)
  have "sint n = signed_take_bit 31 (uint n)" by (simp add: sint_uint)
  also have "\<dots> = uint n"
    by (rule signed_take_bit_int_eq_self) (use le order_trans[OF _ uint_nonnegative[of n]] in simp_all)
  finally show ?thesis using le by simp
qed

lemma counts_gives:
  assumes "heap_ok h"
  shows "h_gives ks (map_option (\<lambda>((code, o'), h'). (Inr (VCounts code o'), h'))
    (MQSSClientGetJobResultCounts r given out h)) h (value_ok op)"
proof (cases "r = 0 \<or> \<not> list_all id given \<or> (\<nexists>jr. blocks h r = Some (ResultObj jr))")
  case True
  then show ?thesis
    by (auto simp: h_gives_def MQSSClientGetJobResultCounts_def grows_same split: option.splits block.splits)
next
  case False
  then obtain jr where jr: "blocks h r = Some (ResultObj jr)" by blast
  show ?thesis
  proof (cases "concat (jr_mResults jr) = []")
    case True
    then have "sum_list (map length (jr_mResults jr)) = 0" unfolding concat_length by simp
    with False jr show ?thesis by (simp add: h_gives_def MQSSClientGetJobResultCounts_def grows_same)
  next
    case some: False
    let ?es = "concat (jr_mResults jr)"
    from GetJobResultCounts_cases[OF assms jr _ refl some, of given out] False
    obtain code out' h' where e: "MQSSClientGetJobResultCounts r given out h = Some ((code, out'), h')"
      "code = 0 \<and> counts_delivered ?es h out' h' \<or> code = - 1 \<and> blocks h' = blocks h" by auto
    from e(2) show ?thesis
    proof (elim disjE conjE)
      assume d: "code = 0" "counts_delivered ?es h out' h'"
      then obtain as where as: "blocks h' (out_counts out') = Some (Ints (map Some (map (\<lambda>e. sint (snd e)) ?es)))"
        "blocks h' (out_bitstreams out') = Some (Ptrs (map Some as))"
        "list_all2 (\<lambda>a e. blocks h' a = Some (Chars (fst e))) as ?es"
        "\<forall>a. a \<notin> set (out_bitstreams out' # out_counts out' # as) \<longrightarrow> blocks h' a = blocks h a"
        by (auto simp: counts_delivered_def comp_def)
      have strings: "\<exists>s. blocks h' x = Some (Chars s)" if "x \<in> set as" for x
        using as(3) that by (induction rule: list_all2_induct) auto
      have "blocks h x = Some b \<or> block_new ks b" if "blocks h' x = Some b" for x b
        using that as(1,2,4) strings[of x]
        by (cases "x \<in> set (out_bitstreams out' # out_counts out' # as)") auto
      then have "grows ks h h'" by (simp add: grows_def)
      moreover have "length as = length (map (\<lambda>e. sint (snd e)) ?es)" using as(3) by (auto dest: list_all2_lengthD)
      ultimately show ?thesis
        using e(1) as(1,2) strings unfolding h_gives_def by (auto intro!: exI[of _ as] exI[of _ "map (\<lambda>e. sint (snd e)) ?es"])
    qed (use e(1) in \<open>simp add: h_gives_def grows_same\<close>)
  qed
qed

lemma info_delivered_gives:
  assumes "info_delivered r h out h'" "resource_ok r"
  shows "grows ks h h' \<and> value_ok op (VInfo code out) h'"
proof -
  from assms(1) obtain as where as: "blocks h' (out_name out) = Some (Chars (c_str (res_mName r)))"
    "blocks h' (out_couplingMap out) = Some (Ints (map Some (concat (res_mCouplingMap r))))"
    "out_couplingMapSize out = word_of_nat (length (concat (res_mCouplingMap r)))"
    "out_gateCount out = word_of_nat (length (res_mNativeGateset r))"
    "blocks h' (out_nativeGateset out) = Some (Ptrs (map Some as))"
    "list_all2 (\<lambda>a g. blocks h' a = Some (GateObj g)) as (res_mNativeGateset r)"
    "\<forall>a. a \<notin> set (out_name out # out_couplingMap out # out_nativeGateset out # as) \<longrightarrow>
       blocks h' a = blocks h a"
    by (auto simp: info_delivered_def)
  have gates: "\<exists>g. blocks h' x = Some (GateObj g) \<and> gate_ok g" if "x \<in> set as" for x
  proof -
    have "list_all gate_ok (res_mNativeGateset r)" using assms(2) by (simp add: resource_ok_def)
    with as(6) that show ?thesis by (induction rule: list_all2_induct) auto
  qed
  have rows: "even (length (concat rows)) \<and> (\<forall>n \<in> set (concat rows). 0 \<le> n \<and> n \<le> int_max)"
    if "list_all coupling_row rows" for rows
    using that by (induction rows) (auto simp: coupling_row_def)
  have "blocks h x = Some b \<or> block_new ks b" if "blocks h' x = Some b" for x b
    using that as(1,2,5,7) gates[of x]
    by (cases "x \<in> set (out_name out # out_couplingMap out # out_nativeGateset out # as)") auto
  then have "grows ks h h'" by (simp add: grows_def)
  moreover have "length as = length (res_mNativeGateset r)" using as(6) by (rule list_all2_lengthD)
  moreover have "qubits_at h' (out_couplingMap out) (concat (res_mCouplingMap r)) \<and>
      even (length (concat (res_mCouplingMap r)))"
    using rows[of "res_mCouplingMap r"] assms(2) as(2) by (simp add: qubits_at_def resource_ok_def)
  ultimately show ?thesis
    using as(3-5) gates by (auto intro!: exI[of _ "concat (res_mCouplingMap r)"] exI[of _ as] simp del: length_concat)
qed

lemma info_gives:
  assumes "heap_ok h" "heap_typed h"
  shows "h_gives ks (map_option (\<lambda>((res, o'), h'). (bind_sum res (\<lambda>code. Inr (VInfo code o')), h'))
    (MQSSClientResourceGetInfo r given junk out h)) h (value_ok op)"
proof (cases "r = 0 \<or> \<not> list_all id given \<or> (\<nexists>x. blocks h r = Some (ResourceObj x))")
  case True
  then show ?thesis
    by (auto simp: h_gives_def MQSSClientResourceGetInfo_def grows_same split: option.splits block.splits)
next
  case False
  then obtain x where x: "blocks h r = Some (ResourceObj x)" "list_all id given" by auto
  from heap_typedD[OF assms(2) x(1)] have ok: "resource_ok x" by simp
  from ResourceGetInfo_end[OF assms(1) x, of junk out] obtain res out' h' where
    e: "MQSSClientResourceGetInfo r given junk out h = Some ((res, out'), h')"
    "res = Inr 0 \<and> info_delivered x h out' h' \<or>
     res \<in> {Inr (- 3), Inr (- 4), Inr (- 5)} \<and> blocks h' = blocks h \<or> res = Inl Bad_alloc"
    unfolding info_end_def by blast
  then show ?thesis
    using info_delivered_gives[OF _ ok, of h out' h' ks op 0]
    by (auto simp: h_gives_def sum_simps grows_same simp del: value_ok.simps) (auto split: if_splits)
qed

lemma gate_gives:
  assumes "heap_ok h" "heap_typed h"
  shows "h_gives ks (map_option (\<lambda>((code, o'), h'). (Inr (VGate code o'), h'))
    (MQSSClientResourceGetGateInfo g given out h)) h (value_ok op)"
proof (cases "g = 0 \<or> \<not> list_all id given \<or> (\<nexists>x. blocks h g = Some (GateObj x))")
  case True
  then show ?thesis
    by (auto simp: h_gives_def MQSSClientResourceGetGateInfo_def grows_same split: option.splits block.splits)
next
  case False
  then obtain x where x: "blocks h g = Some (GateObj x)" "list_all id given" by auto
  from heap_typedD[OF assms(2) x(1)] have ok: "gate_ok x" by simp
  let ?qs = "map sint (concat (gate_mSupportedQubits x))"
  have range: "\<forall>n \<in> set ?qs. 0 \<le> n \<and> n \<le> int_max"
    using ok int_qubit_sint by (fastforce simp: gate_ok_def list_all_iff)
  from GetGateInfo_cases[OF assms(1) x, of out] obtain code out' h' where e:
    "MQSSClientResourceGetGateInfo g given out h = Some ((code, out'), h')"
    "code = 0 \<and> gout_qubitNumber out' = gate_mQubitNumber x \<and>
       gout_parameterNumber out' = gate_mParameterNumber x \<and>
       gout_supportedQubitCount out' = word_of_nat (length ?qs) \<and>
       blocks h' = (blocks h)(gout_name out' \<mapsto> Chars (gate_mName x),
         gout_supportedQubits out' \<mapsto> Ints (map Some ?qs)) \<and> gout_name out' \<noteq> gout_supportedQubits out' \<or>
     code = - 2 \<and> blocks h' = blocks h"
    by (auto simp: comp_def)
  from e(2) show ?thesis
  proof (elim disjE conjE)
    assume d: "gout_qubitNumber out' = gate_mQubitNumber x" "gout_parameterNumber out' = gate_mParameterNumber x"
      "gout_supportedQubitCount out' = word_of_nat (length ?qs)"
      "blocks h' = (blocks h)(gout_name out' \<mapsto> Chars (gate_mName x), gout_supportedQubits out' \<mapsto> Ints (map Some ?qs))"
      "gout_name out' \<noteq> gout_supportedQubits out'"
    then have "qubits_at h' (gout_supportedQubits out') ?qs" using range by (simp add: qubits_at_def)
    moreover have "grows ks h h'" using d(4) by (simp add: grows_def)
    ultimately show ?thesis
      using d ok e(1) by (auto simp: h_gives_def gate_ok_def intro!: exI[of _ ?qs])
  qed (use e(1) in \<open>simp add: h_gives_def grows_same\<close>)
qed

lemmas op_gives = ret_as_gives on_heap_gives CreateClient_gives FreeClient_gives GetAllResources_gives
  GetResourceInfo_gives SubmitJob_gives CancelJob_gives GetJobResult_gives GetNumberPendingJobs_gives
  created_gives delete_gives timed_gives counts_gives info_gives gate_gives

lemma null_gives: "h_gives ks (created (Inr 0, h)) h (value_ok op)"
  by (simp add: h_gives_def created_def grows_same)

lemma c_exec_gives:
  assumes "heap_ok (c_heap st)" "heap_typed (c_heap st)"
  shows "c_gives (op_makes op) (c_exec X op st) st (value_ok op)"
  using assms
  by (cases op rule: op_args.cases) (auto simp: MQSSClientCreateCircuitJob_def MQSSClientCreateHamiltonianJob_def
      MQSSClientFreeJob_def MQSSClientFreeJobResult_def wrap_new_def simp del: value_ok.simps
      intro!: CreateClient_gives FreeClient_gives GetAllResources_gives GetResourceInfo_gives SubmitJob_gives
        CancelJob_gives GetJobResult_gives GetNumberPendingJobs_gives on_heap_gives created_gives null_gives
        delete_gives timed_gives counts_gives info_gives gate_gives freed_gives dest: free_grows)

lemma c_reachable_typed:
  assumes "c_reachable X L st"
  shows "heap_typed (c_heap st)"
  using assms
proof (induction rule: c_reachable.induct)
  case (c_start st)
  then show ?case by (simp add: heap_typed_def)
next
  case (c_step L st op v st')
  from c_reachable_ok[OF c_step.hyps(1)] have "heap_ok (c_heap st)" by simp
  from c_exec_gives[OF this c_step.IH, of op X] c_step.hyps(3) have "grows (op_makes op) (c_heap st) (c_heap st')"
    by (simp add: c_gives_def)
  then show ?case using c_step.IH by (rule grows_typed)
qed

section \<open>Properties\<close>

text \<open>C6. Type soundness of the C interface: whatever calls a program made before and whatever the server
  answered, every object in memory after a call is well formed (a resource has a coupling map of pairs of
  qubits and gates of the table, a gate the numbers of the table, a result sorted counts), and so is what
  the call returns: a handle is \<open>NULL\<close> or of the kind the function promises; an array of resources has as
  many handles as its size says; counts come in two arrays of the same length; the coupling map a
  program reads has an even number of qubits and the name and the numbers of a gate are in the table.
\<close>

theorem C_api_type_sound:
  assumes "c_reachable X L st" "legal L op" "c_exec X op st = Some (Ret v, st')"
  shows "heap_typed (c_heap st') \<and> value_ok op v (c_heap st')"
proof -
  from c_reachable_ok[OF assms(1)] have "heap_ok (c_heap st)" by simp
  from c_exec_gives[OF this c_reachable_typed[OF assms(1)], of op X] assms(3)
  have "grows (op_makes op) (c_heap st) (c_heap st')" "value_ok op v (c_heap st')" by (simp_all add: c_gives_def)
  with grows_typed[OF _ c_reachable_typed[OF assms(1)]] show ?thesis by simp
qed

section \<open>Examples\<close>

text \<open>A program that makes a client, whose transport answers once, and asks it for a resource.\<close>

definition typed_env :: "jv json_api \<Rightarrow> (string list, jv) c_env" where
  "typed_env J = api_env\<lparr>env_json := J\<rparr>"

definition typed_start :: "string \<Rightarrow> (string list, jv) c_state" where
  "typed_start resp = (c_example resp)\<lparr>c_heap := example_heap (\<lambda>k. False) False []\<rparr>"

definition typed_made :: "string \<Rightarrow> (string list, jv) c_state" where
  "typed_made resp =
     (typed_start resp)\<lparr>c_heap := snd (new_obj (ClientObj example_client) (c_heap (typed_start resp)))\<rparr>"

lemma typed_made_facts:
  "c_exec (typed_env J) (OnClient (OpCreateClient (Some ''t'') (Some ''u'') False)) (typed_start resp) =
     Some (Ret (VAddr 1), (typed_made resp))"
  "heap_ok (c_heap (typed_start resp))" "blocks (c_heap (typed_start resp)) = Map.empty"
  "blocks (c_heap (typed_made resp)) 1 = Some (ClientObj example_client)"
  "c_sys (typed_made resp) = c_sys (c_example resp)" "oom (c_heap (typed_made resp)) = (\<lambda>k. False)"
  by (auto simp: typed_env_def api_env_def typed_start_def typed_made_def example_heap_def heap_ok_def
      ret_as_def MQSSClientCreateClient_def c_new_def new_obj_def malloc_def Let_def)

lemma typed_reached:
  "c_reachable (typed_env J) (learn (c_heap (typed_start resp)) (c_heap (typed_made resp)) {} Map.empty) (typed_made resp)"
proof -
  have "legal Map.empty (OnClient (OpCreateClient (Some ''t'') (Some ''u'') False))" by (simp add: legal_def)
  from c_step[OF c_start[OF typed_made_facts(2,3)] this typed_made_facts(1)] show ?thesis by simp
qed

lemma typed_resource:
  "\<exists>a st. a \<noteq> 0 \<and> c_exec (typed_env resources_json) (OnClient (OpGetResourceInfo 1 (Some ''Q5''))) (typed_made ''R'') = Some (Ret (VAddr a), st)"
proof -
  have g: "call_get example_client (''resources/'' @ c_str ''Q5'') (c_sys (c_example ''R'')) =
      (Ret ''R'', \<lparr>net = [], trace = [EvGet ''resources/Q5'' (Ret ''R'')]\<rparr>)"
    by (simp add: c_example_def example_get c_str_def)
  have "getResourceInfo resources_json example_client (c_str ''Q5'') (c_sys (typed_made ''R'')) =
      (Ret (Some (row_resource Q5_row)), \<lparr>net = [], trace = [EvGet ''resources/Q5'' (Ret ''R'')]\<rparr>)"
    unfolding typed_made_facts(5) getResourceInfo_eval[OF resources_json_laws g]
    using Q5_answer row_json_read[OF resources_json_laws Q5_answer(2)]
      row_json_no_error[OF resources_json_laws, of Q5_row] by simp
  moreover obtain a h where "new_obj (ResourceObj (row_resource Q5_row)) (c_heap (typed_made ''R'')) = (Inr a, h)" "a \<noteq> 0"
    by (auto simp: typed_made_def typed_start_def example_heap_def new_obj_def malloc_def Let_def)
  ultimately show ?thesis
    by (auto simp: typed_env_def ret_as_def MQSSClientGetResourceInfo_def with_client_def typed_made_facts(4)
        call_method_def c_new_def simp del: One_nat_def)
qed

theorem C_api_type_sound_witness:
  "\<exists>a st r. c_exec (typed_env resources_json) (OnClient (OpGetResourceInfo 1 (Some ''Q5''))) (typed_made ''R'') = Some (Ret (VAddr a), st) \<and>
     blocks (c_heap st) a = Some (ResourceObj r) \<and> resource_ok r"
proof -
  let ?op = "OnClient (OpGetResourceInfo 1 (Some ''Q5''))"
  let ?L = "learn (c_heap (typed_start ''R'')) (c_heap (typed_made ''R'')) {} Map.empty"
  obtain a st where e: "a \<noteq> 0" "c_exec (typed_env resources_json) ?op (typed_made ''R'') = Some (Ret (VAddr a), st)"
    using typed_resource by blast
  have l: "legal ?L ?op" by (simp add: legal_def learn_def typed_made_facts(3,4) del: One_nat_def)
  from C_api_type_sound[OF typed_reached l e(2)] e(1) obtain b where
    "heap_typed (c_heap st)" "blocks (c_heap st) a = Some b" "kind_of b = KResource" by auto
  then show ?thesis using e(2) heap_typedD[of "c_heap st" a b] by (auto simp: kind_of_iff)
qed

end
