(* ===== verification/Client_Life.thy ===== *)
theory Client_Life
  imports Client_New Client_Program
begin

text \<open>
  The life of a client, from the constructor through any program to the destructor. A REST client
  sends its token only to the host of the URL it was made with; an HPC client publishes only on the
  offload queue, takes messages only from its response queue, and leaves the broker at the end.
\<close>

section \<open>The host of a URL\<close>

text \<open>Lower case, without the port of the portal.\<close>

definition url_host :: "string \<Rightarrow> string" where
  "url_host url = strip_port (map to_lower (authority (drop (the (str_find scheme_sep url) + 3) url)))"

lemma url_host_parts:
  "str_find scheme_sep (pre @ scheme_sep @ rest) = Some (length pre) \<Longrightarrow>
     url_host (pre @ scheme_sep @ rest) = strip_port (map to_lower (authority rest))"
  by (simp add: url_host_def)

lemma authority_more: "CHR ''/'' \<in> set rest \<Longrightarrow> authority (rest @ path) = authority rest"
  by (induction rest) (auto simp: authority_def)

text \<open>A URL to which paths can be appended: the host ends before its end.\<close>

definition base_url :: "string \<Rightarrow> bool" where
  "base_url u \<longleftrightarrow> (\<exists>pre rest. u = pre @ scheme_sep @ rest \<and> str_find scheme_sep u = Some (length pre) \<and>
     CHR ''/'' \<in> set rest)"

lemma url_host_path:
  assumes "base_url u"
  shows "url_host (u @ path) = url_host u"
proof -
  from assms obtain pre rest where u: "u = pre @ scheme_sep @ rest" "str_find scheme_sep u = Some (length pre)"
    "CHR ''/'' \<in> set rest" by (auto simp: base_url_def)
  from str_find_append[OF u(2), of path] have "str_find scheme_sep (pre @ scheme_sep @ rest @ path) = Some (length pre)"
    by (simp add: u(1))
  from url_host_parts[OF this] url_host_parts[of pre rest] u show ?thesis by (simp add: authority_more)
qed

lemma url_host_portal:
  assumes "portal_url portal_domains (strip_port (map to_lower (authority rest))) = Some u"
  shows "base_url u \<and> url_host u = strip_port (map to_lower (authority rest))"
proof -
  let ?host = "strip_port (map to_lower (authority rest))"
  have low: "map to_lower ?host = ?host" by (simp add: strip_port_def take_map)
  from assms obtain d where "proper_suffix d ?host"
    and u: "u = ''https'' @ scheme_sep @ (?host @ portal_port) @ ''/v1/''"
    unfolding portal_url_Some https_literal by auto
  then have "?host \<noteq> []" by (auto simp: proper_suffix_iff)
  have "CHR ''/'' \<notin> set ?host"
  proof
    assume "CHR ''/'' \<in> set ?host"
    then obtain c where "c \<in> set (authority rest)" "to_lower c = CHR ''/''"
      using strip_port_set[of "map to_lower (authority rest)"] by auto
    then show False by (auto simp: to_lower_special authority_def dest: set_takeWhileD)
  qed
  then have a: "authority ((?host @ portal_port) @ ''/v1/'') = ?host @ portal_port"
    using authority_append[of "?host @ portal_port" "''/v1/''"] by (simp add: portal_port_def)
  have f: "str_find scheme_sep u = Some (length ''https'')"
    unfolding u by (subst str_find_https) simp
  have "map to_lower (?host @ portal_port) = ?host @ portal_port"
    using low by (simp add: portal_port_def to_lower_def)
  with url_host_parts[of "''https''" "(?host @ portal_port) @ ''/v1/''"] f a
    strip_port_port[OF \<open>?host \<noteq> []\<close>] have "url_host u = ?host" unfolding u by simp
  moreover have "base_url u"
    unfolding base_url_def using f u by (intro exI[of _ "''https''"] exI[of _ "(?host @ portal_port) @ ''/v1/''"]) simp
  ultimately show ?thesis by simp
qed

lemma url_host_rewrite:
  assumes "\<not> malformed url"
  shows "base_url (rewrite_url s url (the (str_find scheme_sep url))) \<and>
    url_host (rewrite_url s url (the (str_find scheme_sep url))) = url_host url"
proof -
  from wellformed_parts[OF assms] obtain pre rest where url: "url = pre @ scheme_sep @ rest"
    and find: "str_find scheme_sep url = Some (length pre)" and rest: "rest \<noteq> []" by metis
  let ?r = "rewrite_url s (pre @ scheme_sep @ rest) (length pre)"
  have host: "url_host url = strip_port (map to_lower (authority rest))"
    using url_host_parts[of pre rest] find url by simp
  have "base_url ?r \<and> url_host ?r = strip_port (map to_lower (authority rest))"
  proof (cases "s = ''https'' \<and> short_path (url_path rest) \<and>
      portal_url portal_domains (strip_port (map to_lower (authority rest))) \<noteq> None")
    case True
    then show ?thesis using url_host_portal[of rest] by (auto simp: rewrite_url_parts)
  next
    case False
    then have r: "?r = with_slash url" unfolding rewrite_url_parts url by (auto split: option.splits)
    show ?thesis
    proof (cases "last url = CHR ''/''")
      case True
      with r have "?r = url" by (simp add: with_slash_def)
      moreover have "CHR ''/'' \<in> set rest" using True rest last_in_set[OF rest] by (simp add: url)
      ultimately show ?thesis using find url host by (auto simp: base_url_def)
    next
      case False
      with r have r2: "?r = pre @ scheme_sep @ (rest @ ''/'')" by (simp add: with_slash_def url)
      have f: "str_find scheme_sep (pre @ scheme_sep @ (rest @ ''/'')) = Some (length pre)"
        using str_find_append[OF find, of "''/''"] by (simp add: url)
      have "base_url (pre @ scheme_sep @ (rest @ ''/''))"
        unfolding base_url_def using f by (intro exI[of _ pre] exI[of _ "rest @ ''/''"]) simp
      with url_host_parts[OF f] show ?thesis unfolding r2 by (simp only: authority_slash)
    qed
  qed
  with host find show ?thesis by (simp add: url)
qed

text \<open>The base URL of a client has no \<open>NUL\<close>, so that libcurl sees all of it.\<close>

lemma clean_no_nul: "clean_char c \<Longrightarrow> code_of c \<noteq> 0"
  using nul_is_blank by (auto simp: clean_char_def)

lemma c_str_append: "list_all clean_char u \<Longrightarrow> c_str (u @ path) = u @ c_str path"
  by (induction u) (auto simp: c_str_def clean_no_nul)

section \<open>Every request\<close>

text \<open>A request of the client \<open>R\<close>: a path under the base URL, the client's headers, the limits.\<close>

definition request_of :: "rest_client \<Rightarrow> http_request \<Rightarrow> bool" where
  "request_of R rq \<longleftrightarrow> (\<exists>path. rq_url rq = c_str (rc_mUrl R @ path)) \<and> rq_headers rq = rc_pHeaders R \<and>
     rq_connect_timeout_ms rq = 3000 \<and> rq_timeout_ms rq = 5000 \<and> rq_nosignal rq = 1"

lemma request_of_the_request: "request_of R (the_request K R m path payload w)"
  by (auto simp: request_of_def the_request_def)

definition sends_only :: "rest_client \<Rightarrow> 'w rest_state \<Rightarrow> 'w rest_state \<Rightarrow> bool" where
  "sends_only R s s' \<longleftrightarrow> (\<exists>rqs. rs_sent s' = rs_sent s @ rqs \<and> list_all (request_of R) rqs)"

lemma sends_only_trans: "sends_only R s t \<Longrightarrow> sends_only R t u \<Longrightarrow> sends_only R s u"
  by (fastforce simp: sends_only_def)

lemma sends_only_same: "rs_sent s' = rs_sent s \<Longrightarrow> sends_only R s s'"
  by (simp add: sends_only_def)

lemma rest_request_only: "sends_only R s (snd (rest_request K J R m path data s))"
proof -
  obtain ok w1 where init: "c_easy_init K (rs_curl s) = (ok, w1)" by fastforce
  show ?thesis
  proof (cases "ok")
    case False
    with rest_request_no_handle[of K s w1 J R m path data] init show ?thesis
      by (simp add: sends_only_same)
  next
    case True
    show ?thesis
    proof (cases "payload_text J data")
      case (Inl e)
      with rest_request_no_payload[OF _ Inl, of K s w1 R m path] init True show ?thesis
        by (simp add: sends_only_same)
    next
      case (Inr payload)
      have i: "c_easy_init K (rs_curl s) = (True, w1)" using init True by simp
      from rest_request_logs[OF i Inr, of R m path] show ?thesis
        by (simp add: sends_only_def request_of_the_request)
    qed
  qed
qed

lemma rest_calls_only:
  "sends_only R s (snd (rest_get K J R path s))"
  "sends_only R s (snd (rest_post K J R path d s))"
  "sends_only R s (snd (rest_del K J R path s))"
  using rest_request_only[of R s K J "''GET''" path None] rest_request_only[of R s K J "''POST''" path "Some d"]
    rest_request_only[of R s K J "''DELETE''" path None]
  by (auto simp: rest_get_def rest_post_def rest_del_def catch_io_def bind_io_def split: prod.splits outcome.splits)

interpretation requests: transport_relation "rest_transport K J R" "\<lambda>s. True" "sends_only R" for K J R
  by unfold_locales
    (simp_all add: rest_transport_def rest_calls_only sends_only_same, erule sends_only_trans)

text \<open>A transport inside the state of both does what it does alone, and leaves the other's state alone.\<close>

lemma replays_first: "replays (first_transport T) evs s s' \<Longrightarrow> replays T evs (fst s) (fst s') \<and> snd s' = snd s"
proof (induction rule: replays.induct)
  case (rp_get path n r m es n')
  then show ?case
    by (auto simp: first_transport_def lift_fst_def split: prod.splits intro: replays.rp_get)
next
  case (rp_post path d n r m es n')
  then show ?case
    by (auto simp: first_transport_def lift_fst_def split: prod.splits intro: replays.rp_post)
next
  case (rp_del path n r m es n')
  then show ?case
    by (auto simp: first_transport_def lift_fst_def split: prod.splits intro: replays.rp_del)
qed (auto intro: replays.intros)

lemma replays_second: "replays (second_transport T) evs s s' \<Longrightarrow> replays T evs (snd s) (snd s') \<and> fst s' = fst s"
proof (induction rule: replays.induct)
  case (rp_get path n r m es n')
  then show ?case
    by (auto simp: second_transport_def lift_snd_def split: prod.splits intro: replays.rp_get)
next
  case (rp_post path d n r m es n')
  then show ?case
    by (auto simp: second_transport_def lift_snd_def split: prod.splits intro: replays.rp_post)
next
  case (rp_del path n r m es n')
  then show ?case
    by (auto simp: second_transport_def lift_snd_def split: prod.splits intro: replays.rp_del)
qed (auto intro: replays.intros)

section \<open>From the constructor on\<close>

text \<open>The headers of a client, as the server reads them.\<close>

definition bearer_headers :: "string \<Rightarrow> string list" where
  "bearer_headers token = [c_str (''Authorization: Bearer '' @ token), c_str ''Content-Type: application/json'']"

text \<open>A client for a token and a URL.\<close>

definition rest_for :: "string \<Rightarrow> string \<Rightarrow> rest_client \<Rightarrow> bool" where
  "rest_for token url R \<longleftrightarrow> base_url (rc_mUrl R) \<and> url_host (rc_mUrl R) = url_host url \<and>
     list_all clean_char (rc_mUrl R) \<and> rc_pHeaders R = bearer_headers token"

lemma normalizeUrl_base:
  assumes "on_curl (normalizeUrl K url) s = (Ret u, s')"
  shows "base_url u \<and> url_host u = url_host url \<and> list_all clean_char u"
proof -
  from assms obtain w where "normalizeUrl K url (rs_curl s) = (Ret u, w)"
    by (auto simp: on_curl_def split: prod.splits)
  from normalizeUrl_Ret[OF this] url_host_rewrite rewrite_url_clean show ?thesis by blast
qed

lemma MQSSRestClient_base:
  assumes "MQSSRestClient K J token url s = (Ret R, s')"
  shows "rest_for token url R \<and> sends_only R s s'"
proof -
  from assms obtain mUrl s1 R1 s2 s3 where
    url: "on_curl (normalizeUrl K url) s = (Ret mUrl, s1)" and
    auth: "appendHeader K (''Authorization: Bearer '' @ token) \<lparr>rc_mUrl = mUrl, rc_pHeaders = []\<rparr> s1
      = (Ret R1, s2)" and
    ctype: "appendHeader K ''Content-Type: application/json'' R1 s2 = (Ret R, s3)"
    unfolding MQSSRestClient_def by (elim bind_io_Ret_cases) auto
  have "rc_mUrl R = mUrl"
    using appendHeader_Ret[OF auth] appendHeader_Ret[OF ctype] by simp
  moreover have "sends_only R s s'" "rc_pHeaders R = bearer_headers token"
    using MQSSRestClient_Ret[OF assms] by (auto simp: sends_only_def request_of_the_request bearer_headers_def)
  ultimately show ?thesis using normalizeUrl_base[OF url] by (simp add: rest_for_def)
qed

text \<open>A request with the token of the client: to the host of its URL, in the limits.\<close>

definition confined :: "string \<Rightarrow> string \<Rightarrow> http_request \<Rightarrow> bool" where
  "confined token url rq \<longleftrightarrow> rq_headers rq = bearer_headers token \<and> url_host (rq_url rq) = url_host url \<and>
     rq_connect_timeout_ms rq = 3000 \<and> rq_timeout_ms rq = 5000"

lemma request_of_confined:
  assumes "rest_for token url R" "request_of R rq"
  shows "confined token url rq"
  using assms url_host_path by (auto simp: rest_for_def request_of_def confined_def c_str_append)

lemma rest_made:
  assumes "MQSSClient X token url False s = (Ret C, s')"
  obtains R where "C = \<lparr>mIsHpc = False, mClient = first_transport (rest_transport (ext_curl X) (ext_json X) R)\<rparr>"
    "MQSSRestClient (ext_curl X) (ext_json X) token url (fst s) = (Ret R, fst s')" "snd s' = snd s"
  using assms by (auto simp: MQSSClient_def split: prod.splits outcome.splits)

section \<open>Over the message queue\<close>

text \<open>What may happen at the broker between construction and destruction.\<close>

fun queue_event :: "hpc_client \<Rightarrow> mq_event \<Rightarrow> bool" where
  "queue_event H (MqPublish q d err) \<longleftrightarrow> q = c_str (mOffloadListenerQueueName H)"
| "queue_event H (MqConsume q) \<longleftrightarrow> q = c_str (mResponseQueueName H)"
| "queue_event H (MqReceived got) \<longleftrightarrow> True"
| "queue_event H (MqAck tag) \<longleftrightarrow> True"
| "queue_event H (MqDeclare q) \<longleftrightarrow> False"
| "queue_event H MqDisconnect \<longleftrightarrow> False"

definition queue_link :: "hpc_client \<Rightarrow> 'w mq \<Rightarrow> 'w mq \<Rightarrow> bool" where
  "queue_link H s t \<longleftrightarrow> mQueues t = mQueues s \<and> (\<exists>evs. mq_log t = mq_log s @ evs \<and> list_all (queue_event H) evs \<and>
     acked_tags evs = delivered_tags evs)"

lemma queue_link_refl: "queue_link H s s"
  by (simp add: queue_link_def)

lemma queue_link_trans:
  assumes "queue_link H s t" "queue_link H t u"
  shows "queue_link H s u"
proof -
  from assms obtain es fs where "mq_log t = mq_log s @ es" "list_all (queue_event H) es"
    "acked_tags es = delivered_tags es" "mq_log u = mq_log t @ fs" "list_all (queue_event H) fs"
    "acked_tags fs = delivered_tags fs" "mQueues u = mQueues s" by (auto simp: queue_link_def)
  then show ?thesis unfolding queue_link_def by (intro conjI exI[of _ "es @ fs"]) simp_all
qed

lemma queue_link_send: "queue_link H s (snd (send A (mOffloadListenerQueueName H) d s))"
  by (simp add: queue_link_def)

lemma queue_link_receive:
  assumes "mResponseQueueName H \<in> set (mQueues s)"
  shows "queue_link H s (snd (receive A (mResponseQueueName H) s))"
proof -
  obtain got where "mq_log (snd (receive A (mResponseQueueName H) s)) = mq_log s @ reception_log (mResponseQueueName H) got"
    "mQueues (snd (receive A (mResponseQueueName H) s)) = mQueues s"
    using receive_declared_log[OF assms] by metis
  then show ?thesis unfolding queue_link_def
    by (cases got) (auto simp: reception_log_def intro!: exI[of _ "reception_log (mResponseQueueName H) got"])
qed

lemma queue_link_request:
  "mResponseQueueName H \<in> set (mQueues s) \<Longrightarrow>
     queue_link H s (snd (receive A (mResponseQueueName H) (snd (send A (mOffloadListenerQueueName H) d s))))"
  by (rule queue_link_trans[OF queue_link_send queue_link_receive]) simp

lemma hpc_calls_link:
  assumes "mResponseQueueName H \<in> set (mQueues s)"
  shows "queue_link H s (snd (hpc_get A J H path s))"
    and "queue_link H s (snd (hpc_post A J H path d s))"
    and "queue_link H s (snd (hpc_del A J H path s))"
proof -
  show "queue_link H s (snd (hpc_get A J H path s))" "queue_link H s (snd (hpc_post A J H path d s))"
    using queue_link_request[OF assms] by (simp_all add: hpc_get_eval hpc_post_eval queue_link_refl split: sum.splits)
  show "queue_link H s (snd (hpc_del A J H path s))"
  proof (cases "j_dump J (hpc_request J H ''DELETE'' path (j_str J ''''))")
    case (Inl m)
    then show ?thesis by (simp add: hpc_del_def bind_io_def queue_link_refl)
  next
    case (Inr body)
    obtain err t where t: "send A (mOffloadListenerQueueName H) body s = (err, t)" by fastforce
    have "snd (hpc_del A J H path s) = (if err \<noteq> 0 then t else snd (receive A (mResponseQueueName H) t))"
      using Inr t by (simp add: hpc_del_def bind_io_def mq_send_eval split: prod.splits outcome.splits)
    with queue_link_send[of H s A body] queue_link_request[OF assms, of A body] t show ?thesis by simp
  qed
qed

lemma queue_link_queues: "queue_link H s t \<Longrightarrow> mQueues t = mQueues s"
  by (simp add: queue_link_def)

interpretation messages: transport_relation "hpc_transport A J H"
  "\<lambda>s. mResponseQueueName H \<in> set (mQueues s)" "queue_link H" for A J H
proof
  show "queue_link H s t \<Longrightarrow> queue_link H t u \<Longrightarrow> queue_link H s u" for s t u :: "'a mq"
    by (rule queue_link_trans)
qed (simp_all add: hpc_transport_def hpc_calls_link queue_link_refl queue_link_queues)

lemma hpc_made:
  assumes "MQSSClient X token queue True s = (Ret C, s')"
  obtains H where "C = \<lparr>mIsHpc = True, mClient = second_transport (hpc_transport (ext_amqp X) (ext_json X) H)\<rparr>"
    "MQSSHPCClient (ext_amqp X) (ext_os X) (ext_junk_connection X) (ext_junk_socket X) token queue (mq_world (snd s)) =
       (Ret H, snd s')" "fst s' = fst s"
  using assms by (auto simp: MQSSClient_def split: prod.splits outcome.splits)

lemma MQSSHPCClient_log:
  assumes "MQSSHPCClient A Os c sock token queue w = (Ret H, s)"
  shows "mq_log s = map (\<lambda>q. MqDeclare (c_str q)) (remdups [mOffloadListenerQueueName H, mResponseQueueName H]) \<and>
    mQueues s = remdups [mOffloadListenerQueueName H, mResponseQueueName H]"
proof -
  let ?s0 = "(MQSSRabbitMQClient c sock ''guest'' ''guest'' ''localhost'' 5672 w)
    \<lparr>mq_world := snd (o_random_uuid Os w)\<rparr>"
  have s0: "mq_log ?s0 = []" "mQueues ?s0 = []" by (simp_all add: MQSSRabbitMQClient_def)
  show ?thesis
    using assms s0 unfolding MQSSHPCClient_eval
    by (auto simp: Let_def declareQueue_log split: if_splits)
qed

lemma rest_life:
  assumes "MQSSClient X token url False s = (Ret C, net w)" "program (ext_json X) C (js, w) (js', w')"
  shows "\<exists>rqs. rs_sent (fst (net w')) = rs_sent (fst s) @ rqs \<and> rqs \<noteq> [] \<and>
    list_all (confined token url) rqs \<and> snd (net w') = snd s"
proof -
  from rest_made[OF assms(1)] obtain R where
    C: "C = \<lparr>mIsHpc = False, mClient = first_transport (rest_transport (ext_curl X) (ext_json X) R)\<rparr>"
    and R: "MQSSRestClient (ext_curl X) (ext_json X) token url (fst s) = (Ret R, fst (net w))" "snd (net w) = snd s"
    by metis
  note base = MQSSRestClient_base[OF R(1)]
  from follows_program[OF assms(2)] obtain evs where
    "replays (first_transport (rest_transport (ext_curl X) (ext_json X) R)) evs (net w) (net w')"
    by (auto simp: follows_def C)
  from replays_first[OF this] have p: "sends_only R (fst (net w)) (fst (net w'))" "snd (net w') = snd s"
    using requests.rel_replays R(2) by auto
  have "length (rs_sent (fst (net w))) = length (rs_sent (fst s)) + 1"
    using MQSSRestClient_Ret[OF R(1)] by auto
  with base p obtain rqs where "rs_sent (fst (net w')) = rs_sent (fst s) @ rqs" "rqs \<noteq> []" "list_all (request_of R) rqs"
    by (fastforce simp: sends_only_def)
  moreover from this(3) base request_of_confined have "list_all (confined token url) rqs"
    by (auto simp: list_all_iff)
  ultimately show ?thesis using p(2) by blast
qed

section \<open>Properties\<close>

text \<open>C7. Where the token goes: a REST client that was made sends, over its whole life, every
  request to the host of the URL it was made with (compared in lower case and without the portal's port),
  with exactly the two headers of the constructor and the limits of three and five seconds: the first request of
  the constructor and whatever a program does afterwards, whatever the server answers, even when the
  identifiers it sends become part of a path. The message queue is not touched.
\<close>

theorem rest_session_confined:
  assumes "MQSSClient X token url False s = (Ret C, net w)" "program (ext_json X) C (js, w) (js', w')"
  shows "\<exists>rqs. rs_sent (fst (net w')) = rs_sent (fst s) @ rqs \<and> rqs \<noteq> [] \<and>
    list_all (confined token url) rqs \<and> snd (net w') = snd s"
  using assms by (rule rest_life)

text \<open>C8. The life of an HPC client at the broker: the constructor declares the offload queue and the response
  queue; then, whatever a program does, the client publishes on the offload queue only, consumes from
  its response queue only, declares nothing more, and acknowledges what it was delivered, in
  order; the destructor disconnects, once, as the last thing. Nothing goes over HTTP.
\<close>

theorem hpc_client_life:
  assumes "MQSSClient X token queue True s = (Ret C, net w)" "program (ext_json X) C (js, w) (js', w')"
  shows "\<exists>H evs. (queue \<noteq> [] \<longrightarrow> mOffloadListenerQueueName H = queue) \<and>
    mq_log (snd (destroy_client X C (net w'))) =
      map (\<lambda>q. MqDeclare (c_str q)) (remdups [mOffloadListenerQueueName H, mResponseQueueName H]) @
      evs @ [MqDisconnect] \<and>
    list_all (queue_event H) evs \<and> acked_tags evs = delivered_tags evs \<and>
    fst (destroy_client X C (net w')) = fst s"
proof -
  from hpc_made[OF assms(1)] obtain H where
    C: "C = \<lparr>mIsHpc = True, mClient = second_transport (hpc_transport (ext_amqp X) (ext_json X) H)\<rparr>"
    and H: "MQSSHPCClient (ext_amqp X) (ext_os X) (ext_junk_connection X) (ext_junk_socket X) token queue
      (mq_world (snd s)) = (Ret H, snd (net w))" "fst (net w) = fst s"
    by metis
  note made = MQSSHPCClient_log[OF H(1)]
  from follows_program[OF assms(2)] obtain evs where
    "replays (second_transport (hpc_transport (ext_amqp X) (ext_json X) H)) evs (net w) (net w')"
    by (auto simp: follows_def C)
  from replays_second[OF this] have r: "replays (hpc_transport (ext_amqp X) (ext_json X) H) evs (snd (net w)) (snd (net w'))"
    and f: "fst (net w') = fst s" using H(2) by auto
  have "mResponseQueueName H \<in> set (mQueues (snd (net w)))" using made by simp
  from messages.rel_replays[OF r this] obtain log where
    "mq_log (snd (net w')) = mq_log (snd (net w)) @ log" "list_all (queue_event H) log" "acked_tags log = delivered_tags log"
    by (auto simp: queue_link_def)
  moreover have "queue \<noteq> [] \<longrightarrow> mOffloadListenerQueueName H = queue" using MQSSHPCClient_cases[OF H(1)] by simp
  ultimately show ?thesis
    using made f by (intro exI[of _ H] exI[of _ log]) (simp add: destroy_client_def C)
qed

section \<open>Examples\<close>

text \<open>A client that is made and then asks for the resources: two requests.\<close>

lemma example_construction_two:
  "\<exists>R. MQSSRestClient example_curl (ref_json []) ''t'' (''https'' @ scheme_sep @ ''localhost/api'')
     (example_state [example_transfer 200, example_transfer 404]) =
       (Ret R, \<lparr>rs_curl = [example_transfer 404],
          rs_sent = [the_request example_curl R ''GET'' ''resources'' None [example_transfer 200, example_transfer 404]]\<rparr>)"
proof -
  have "transfer_outcome example_curl ''GET'' (example_transfer 200) = Inr ''abc''"
    by (simp add: transfer_outcome_ok[OF example_transfer_chunks] example_transfer_accepted)
  moreover have "payload_text (ref_json []) None = Inr None" by (simp add: payload_text_def)
  ultimately show ?thesis
    unfolding MQSSRestClient_def bind_io_def on_curl_def example_state_def appendHeader_def
    by (simp add: example_other on_curl_call rest_request_sent[OF _ _ example_curl_easy(2)]
        del: append_assoc append.simps)
qed

lemma example_rest_life:
  "\<exists>C (w :: (transfer list, consumed list) both sys) w'. MQSSClient example_outside ''t'' (''https'' @ scheme_sep @ ''localhost/api'') False
     (example_state [example_transfer 200, example_transfer 404], example_mq []) = (Ret C, net w) \<and>
     program (ext_json example_outside) C ([], w) ([], w') \<and> length (rs_sent (fst (net w'))) = 2"
proof -
  let ?K = example_curl and ?J = "ref_json [] :: jv json_api"
  from example_construction_two obtain R where R: "MQSSRestClient ?K ?J ''t'' (''https'' @ scheme_sep @ ''localhost/api'')
     (example_state [example_transfer 200, example_transfer 404]) =
       (Ret R, \<lparr>rs_curl = [example_transfer 404],
          rs_sent = [the_request ?K R ''GET'' ''resources'' None [example_transfer 200, example_transfer 404]]\<rparr>)" (is "_ = (_, ?s)")
    by blast
  let ?C = "\<lparr>mIsHpc = False, mClient = first_transport (rest_transport ?K ?J R)\<rparr>
    :: ((transfer list, consumed list) both, jv) mqss_client"
  let ?w = "\<lparr>net = (?s, example_mq []), trace = []\<rparr>"
  have made: "MQSSClient example_outside ''t'' (''https'' @ scheme_sep @ ''localhost/api'') False
     (example_state [example_transfer 200, example_transfer 404], example_mq []) = (Ret ?C, net ?w)"
    using R by (simp add: MQSSClient_def example_outside_def)
  have init: "c_easy_init ?K (rs_curl ?s) = (True, [example_transfer 404])" by simp
  have g: "rest_get ?K ?J R ''resources'' ?s = (Ret [], \<lparr>rs_curl = [], rs_sent = rs_sent ?s @
      [the_request ?K R ''GET'' ''resources'' None [example_transfer 404]]\<rparr>)"
    using rest_get_run[OF init example_curl_easy(2) example_transfer_chunks, of ?J R "''resources''"]
    by (simp add: example_transfer_accepted)
  obtain w' where e: "getAllResources ?J ?C ?w = (Ret [], w')" "length (rs_sent (fst (net w'))) = 2"
    using g by (auto simp: getAllResources_def bind_io_def call_get_def first_transport_def
        rest_transport_def lift_fst_def ref_json_def)
  have "client_step ?J ?C ([], ?w) ([], w')"
    by (rule client_call[of _ AllResources _ _ "Ret ()"]) (simp_all add: e(1) keep_jobs_def)
  then have "program (ext_json example_outside) ?C ([], ?w) ([], w')" by (auto simp: example_outside_def)
  with made e(2) show ?thesis by blast
qed

theorem rest_session_confined_witness:
  "\<exists>rqs. length rqs = 2 \<and> list_all (confined ''t'' (''https'' @ scheme_sep @ ''localhost/api'')) rqs \<and>
     (\<forall>rq \<in> set rqs. rq_headers rq = [''Authorization: Bearer t'', ''Content-Type: application/json''])"
proof -
  obtain C and w w' :: "(transfer list, consumed list) both sys" where
    made: "MQSSClient example_outside ''t'' (''https'' @ scheme_sep @ ''localhost/api'') False
     (example_state [example_transfer 200, example_transfer 404], example_mq []) = (Ret C, net w)"
    and p: "program (ext_json example_outside) C ([], w) ([], w')" "length (rs_sent (fst (net w'))) = 2"
    using example_rest_life by blast
  from rest_session_confined[OF made p(1)] p(2) obtain rqs where "length rqs = 2"
    "list_all (confined ''t'' (''https'' @ scheme_sep @ ''localhost/api'')) rqs"
    by (auto simp: example_state_def)
  then show ?thesis by (auto simp: list_all_iff confined_def bearer_headers_def c_str_def intro!: exI[of _ rqs])
qed

lemma example_hpc_life:
  "\<exists>C s'. MQSSClient example_outside ''t'' ''offload'' True (example_state [], example_mq []) =
     (Ret C, net \<lparr>net = s', trace = []\<rparr>)"
  by (simp add: MQSSClient_def example_outside_def MQSSHPCClient_eval Let_def connect_def
      MQSSRabbitMQClient_def example_mq_def example_os_def split: prod.splits)

theorem hpc_client_life_witness:
  "\<exists>C (w :: (transfer list, consumed list) both sys).
     MQSSClient example_outside ''t'' ''offload'' True (example_state [], example_mq []) = (Ret C, net w) \<and>
     last (mq_log (snd (destroy_client example_outside C (net w)))) = MqDisconnect \<and>
     hd (mq_log (snd (destroy_client example_outside C (net w)))) = MqDeclare ''offload''"
proof -
  obtain C and w :: "(transfer list, consumed list) both sys" where
    made: "MQSSClient example_outside ''t'' ''offload'' True (example_state [], example_mq []) = (Ret C, net w)"
    using example_hpc_life by blast
  from hpc_client_life[OF made rtranclp.rtrancl_refl] obtain H :: hpc_client and evs where
    h: "''offload'' \<noteq> [] \<longrightarrow> mOffloadListenerQueueName H = ''offload''"
      "mq_log (snd (destroy_client example_outside C (net w))) =
      map (\<lambda>q. MqDeclare (c_str q)) (remdups [mOffloadListenerQueueName H, mResponseQueueName H]) @ evs @ [MqDisconnect]"
    by blast
  have "c_str ''offload'' = ''offload''" by (simp add: c_str_def)
  with made h show ?thesis by (intro exI[of _ C] exI[of _ w]) auto
qed

end
