(* ===== verification/C_Program.thy ===== *)
theory C_Program
  imports C_Types Client_Life
begin

text \<open>
  C programs are programs of the client: the calls a C program makes with one client, with the jobs
  it creates and releases on the way, are the operations of \<open>Client_Program\<close>, so that a C program is held
  to the same protocol on the wire as a C++ or a Python program.
\<close>

section \<open>The operation behind a call\<close>

text \<open>\<open>pos\<close> gives the position of the job behind a handle; a call with a missing argument is no operation.\<close>

fun op_call :: "(addr \<Rightarrow> nat) \<Rightarrow> c_op \<Rightarrow> client_op option" where
  "op_call pos (OnClient (OpGetAllResources c given n)) =
     (if c = 0 \<or> \<not> given then None else Some AllResources)"
| "op_call pos (OnClient (OpGetResourceInfo c name)) =
     (if c = 0 then None else map_option (\<lambda>s. ResourceInfo (c_str s)) name)"
| "op_call pos (OnClient (OpGetNumberPendingJobs c name)) =
     (if c = 0 then None else map_option (\<lambda>s. PendingJobs (c_str s)) name)"
| "op_call pos (OnClient (OpSubmitJob c j)) = (if c = 0 \<or> j = 0 then None else Some (Submit (pos j)))"
| "op_call pos (OnClient (OpCancelJob c j)) = (if c = 0 \<or> j = 0 then None else Some (Cancel (pos j)))"
| "op_call pos (OnClient (OpGetJobResult c j wait timeout)) =
     (if c = 0 \<or> j = 0 then None else Some (JobOutcome (pos j) wait (ucast timeout)))"
| "op_call pos op = None"

text \<open>The calls of a program that talks to the client \<open>c\<close> and neither makes nor releases a client.\<close>

definition talks_to :: "addr \<Rightarrow> c_op \<Rightarrow> bool" where
  "talks_to c op \<longleftrightarrow> list_all (\<lambda>(a, k). k = KClient \<longrightarrow> a = 0 \<or> a = c) (op_args op) \<and>
     (\<forall>token url isHpc. op \<noteq> OnClient (OpCreateClient token url isHpc)) \<and>
     (\<forall>a. op \<noteq> OnClient (OpFreeClient a))"

inductive c_call :: "('s, 'j) c_env \<Rightarrow> addr \<Rightarrow> ledger \<times> ('s, 'j) c_state \<Rightarrow> ledger \<times> ('s, 'j) c_state \<Rightarrow> bool"
  for X c where
  c_called: "legal L op \<Longrightarrow> talks_to c op \<Longrightarrow> c_exec X op st = Some (Ret v, st') \<Longrightarrow>
     c_call X c (L, st) (learn (c_heap st) (c_heap st') (op_frees op) L, st')"

inductive_cases c_callE: "c_call X c (L, st) y"

section \<open>The jobs in memory\<close>

definition job_handles :: "'c heap \<Rightarrow> addr set" where
  "job_handles h = {a. \<exists>j. blocks h a = Some (JobObj j)}"

definition jobs_at :: "(addr \<Rightarrow> nat) \<Rightarrow> job list \<Rightarrow> 'c heap \<Rightarrow> bool" where
  "jobs_at pos js h \<longleftrightarrow> inj_on pos (job_handles h) \<and>
     (\<forall>a j. blocks h a = Some (JobObj j) \<longrightarrow> pos a < length js \<and> js ! pos a = j)"

lemma jobs_atD: "jobs_at pos js h \<Longrightarrow> blocks h a = Some (JobObj j) \<Longrightarrow> pos a < length js \<and> js ! pos a = j"
  by (simp add: jobs_at_def)

lemma first_index: "a \<in> set as \<Longrightarrow> length (takeWhile (\<lambda>x. x \<noteq> a) as) < length as \<and>
    as ! length (takeWhile (\<lambda>x. x \<noteq> a) as) = a"
  by (induction as) auto

lemma jobs_listed:
  assumes "heap_ok h"
  shows "\<exists>pos js. jobs_at pos js h"
proof -
  define f where "f = (\<lambda>a. case blocks h a of Some (JobObj j) \<Rightarrow> j | _ \<Rightarrow> undefined)"
  define as where "as = filter (\<lambda>a. \<exists>j. blocks h a = Some (JobObj j)) [0 ..< next_addr h]"
  define pos where "pos = (\<lambda>a. length (takeWhile (\<lambda>x. x \<noteq> a) as))"
  have live: "a \<in> set as" if "blocks h a = Some (JobObj j)" for a j
  proof -
    have "a < next_addr h" using that assms by (cases "a < next_addr h") (auto simp: heap_ok_def)
    with that show ?thesis by (auto simp: as_def)
  qed
  have at: "pos a < length as \<and> as ! pos a = a" if "blocks h a = Some (JobObj j)" for a j
    unfolding pos_def by (rule first_index[OF live[OF that]])
  have "inj_on pos (job_handles h)"
  proof (rule inj_onI)
    fix x y assume "x \<in> job_handles h" "y \<in> job_handles h"
      and e: "pos x = pos y"
    then have "as ! pos x = x" "as ! pos y = y" using at unfolding job_handles_def by blast+
    with e show "x = y" by metis
  qed
  moreover have "pos a < length (map f as) \<and> map f as ! pos a = j" if "blocks h a = Some (JobObj j)" for a j
    using at[OF that] that by (simp add: f_def)
  ultimately have "jobs_at pos (map f as) h" unfolding jobs_at_def by blast
  then show ?thesis by blast
qed

lemma jobs_at_grows:
  "jobs_at pos js h \<Longrightarrow> grows {} h h' \<Longrightarrow> jobs_at pos js h' \<and> job_handles h' \<subseteq> job_handles h"
proof -
  assume a: "jobs_at pos js h" "grows {} h h'"
  have "blocks h x = Some (JobObj j)" if "blocks h' x = Some (JobObj j)" for x j
    using a(2) that by (force simp: grows_def)
  then have "job_handles h' \<subseteq> job_handles h"
    "\<And>x j. blocks h' x = Some (JobObj j) \<Longrightarrow> pos x < length js \<and> js ! pos x = j"
    using jobs_atD[OF a(1)] by (auto simp: job_handles_def)
  with a(1) show ?thesis unfolding jobs_at_def by (blast intro: inj_on_subset)
qed

lemma jobs_at_new:
  assumes "jobs_at pos js h" "blocks h' = (blocks h)(a \<mapsto> JobObj j)"
  shows "jobs_at (pos(a := length js)) (js @ [j]) h'"
proof -
  note old = jobs_atD[OF assms(1)]
  have "inj_on (pos(a := length js)) (job_handles h')"
  proof (rule inj_onI)
    fix x y assume "x \<in> job_handles h'" "y \<in> job_handles h'"
      and e: "(pos(a := length js)) x = (pos(a := length js)) y"
    then obtain i k where xy: "blocks h' x = Some (JobObj i)" "blocks h' y = Some (JobObj k)"
      by (auto simp: job_handles_def)
    show "x = y"
    proof (cases "x = a \<or> y = a")
      case True
      with xy e assms(2) old[of x i] old[of y k] show ?thesis by (auto split: if_splits)
    next
      case False
      with xy e assms show ?thesis by (auto simp: jobs_at_def inj_on_def job_handles_def)
    qed
  qed
  moreover have "(pos(a := length js)) x < length (js @ [j]) \<and> (js @ [j]) ! (pos(a := length js)) x = i"
    if "blocks h' x = Some (JobObj i)" for x i
    using that assms(2) old[of x i] by (cases "x = a") (auto simp: nth_append)
  ultimately show ?thesis by (simp add: jobs_at_def)
qed

lemma jobs_at_write:
  assumes "jobs_at pos js h" "blocks h a = Some (JobObj i)" "blocks h' = (blocks h)(a \<mapsto> JobObj j)"
  shows "jobs_at pos (js[pos a := j]) h' \<and> job_handles h' \<subseteq> job_handles h"
proof -
  have "job_handles h' = job_handles h"
    using assms(2,3) by (auto simp: job_handles_def)
  moreover have "pos x < length (js[pos a := j]) \<and> js[pos a := j] ! pos x = i"
    if "blocks h' x = Some (JobObj i)" for x i
  proof (cases "x = a")
    case True
    with that assms(3) jobs_atD[OF assms(1,2)] show ?thesis by simp
  next
    case False
    with that assms(3) have x: "blocks h x = Some (JobObj i)" by simp
    with False assms(1,2) have "pos x \<noteq> pos a" by (auto simp: jobs_at_def inj_on_def job_handles_def)
    with jobs_atD[OF assms(1) x] show ?thesis by simp
  qed
  ultimately show ?thesis using assms(1) by (simp add: jobs_at_def)
qed

section \<open>One call\<close>

lemma ret_as_Ret: "ret_as f x = Some (Ret v, st') \<longleftrightarrow> (\<exists>a. x = Some (Ret a, st') \<and> v = f a)"
  by (auto simp: ret_as_def split: option.splits outcome.splits)

lemma on_heap_sys: "on_heap f st = Some (r, st') \<Longrightarrow> c_sys st' = c_sys st"
  by (auto simp: on_heap_def split: option.splits sum.splits)

lemma c_new_sys: "c_new b st = Some (r, st') \<Longrightarrow> c_sys st' = c_sys st"
  by (auto simp: c_new_def split: prod.splits sum.splits)

lemma call_method_Ret:
  assumes "call_method m f st = Some (Ret v, st')"
  obtains a w where "m (c_sys st) = (Ret a, w)" "f a (st\<lparr>c_sys := w\<rparr>) = Some (Ret v, st')"
  using assms by (auto simp: call_method_def split: prod.splits outcome.splits)

lemma keep_jobs_Ret: "m = (Ret a, w) \<Longrightarrow> keep_jobs js m = (Ret (), (js, w))"
  by (simp add: keep_jobs_def)

text \<open>The calls on a client, as the operations they make.\<close>

lemma GetAllResources_call:
  assumes "MQSSClientGetAllResources J c given n st = Some (Ret v, st')" "c \<noteq> 0" "given"
    and "blocks (c_heap st) c = Some (ClientObj C)"
  shows "\<exists>rs. getAllResources J C (c_sys st) = (Ret rs, c_sys st')"
  using assms by (auto simp: MQSSClientGetAllResources_def with_client_def c_ret_def Let_def
      elim!: call_method_Ret split: prod.splits if_splits option.splits sum.splits)

lemma GetResourceInfo_call:
  assumes "MQSSClientGetResourceInfo J c (Some name) st = Some (Ret v, st')" "c \<noteq> 0"
    and "blocks (c_heap st) c = Some (ClientObj C)"
  shows "\<exists>x. getResourceInfo J C (c_str name) (c_sys st) = (Ret x, c_sys st')"
  using assms by (auto simp: MQSSClientGetResourceInfo_def with_client_def c_ret_def
      elim!: call_method_Ret split: option.splits dest!: c_new_sys)

lemma GetNumberPendingJobs_call:
  assumes "MQSSClientGetNumberPendingJobs J c (Some name) st = Some (Ret v, st')" "c \<noteq> 0"
    and "blocks (c_heap st) c = Some (ClientObj C)"
  shows "\<exists>x. getNumberPendingJobs J C (c_str name) (c_sys st) = (Ret x, c_sys st')"
  using assms by (auto simp: MQSSClientGetNumberPendingJobs_def with_client_def c_ret_def elim!: call_method_Ret)

lemma CancelJob_call:
  assumes "MQSSClientCancelJob c j st = Some (Ret v, st')" "c \<noteq> 0" "j \<noteq> 0"
    and "blocks (c_heap st) c = Some (ClientObj C)" "blocks (c_heap st) j = Some (JobObj job)"
  shows "\<exists>x. cancelJob C job (c_sys st) = (x, c_sys st') \<and> x \<noteq> Hang"
  using assms by (auto simp: MQSSClientCancelJob_def with_client_def with_job_def c_ret_def
      split: prod.splits outcome.splits job.splits)

lemma GetJobResult_call:
  assumes "MQSSClientGetJobResult J c j wait timeout st = Some (Ret v, st')" "c \<noteq> 0" "j \<noteq> 0"
    and "blocks (c_heap st) c = Some (ClientObj C)" "blocks (c_heap st) j = Some (JobObj job)"
  shows "\<exists>x. getJobResult J C job wait (ucast timeout) (c_sys st) = (Ret x, c_sys st')"
  using assms by (auto simp: MQSSClientGetJobResult_def with_client_def with_job_def c_ret_def
      elim!: call_method_Ret split: option.splits job.splits dest!: c_new_sys)

lemma SubmitJob_call:
  assumes "MQSSClientSubmitJob J c j st = Some (Ret v, st')" "heap_ok (c_heap st)"
    and "blocks (c_heap st) c = Some (ClientObj C)" "blocks (c_heap st) j = Some (JobObj job)"
  shows "\<exists>u job'. submitJob J C job (c_sys st) = (Ret (u, job'), c_sys st') \<and>
    blocks (c_heap st') = (blocks (c_heap st))(j \<mapsto> JobObj job')"
proof -
  have "c \<noteq> 0" "j \<noteq> 0" using live_nonzero[OF assms(2)] assms(3,4) by blast+
  then have "\<not> (\<exists>r. job = HamiltonianJob r)"
    using C_hamiltonian_undefined[of st j _ c J] assms(1,4) by auto
  then obtain r where "job = CircuitJob r" by (cases job) auto
  with assms(2-4) have "handles st c C j job" by (simp add: handles_def)
  from SubmitJob_eval[OF this surjective_pairing, of J] assms(1) show ?thesis
    by (cases "submitJob J C job (c_sys st)") (auto split: outcome.splits prod.splits)
qed

text \<open>What one call of a program does: an operation of the client on the jobs, or nothing outside of memory.\<close>

definition client_move ::
  "('s, 'j) c_env \<Rightarrow> ('s, 'j) mqss_client \<Rightarrow> c_op \<Rightarrow> (addr \<Rightarrow> nat) \<Rightarrow> job list \<Rightarrow>
     ('s, 'j) c_state \<Rightarrow> ('s, 'j) c_state \<Rightarrow> bool" where
  "client_move X C op pos js st st' \<longleftrightarrow>
     (case op_call pos op of
        None \<Rightarrow> c_sys st' = c_sys st
      | Some cop \<Rightarrow> \<exists>r js'. pred_option (\<lambda>i. i < length js) (op_job cop) \<and>
          client_exec (env_json X) C cop (js, c_sys st) = (r, (js', c_sys st')) \<and> r \<noteq> Hang \<and>
          jobs_at pos js' (c_heap st') \<and> job_handles (c_heap st') \<subseteq> job_handles (c_heap st))"

lemma null_call:
  assumes "c_exec X op st = Some (Ret v, st')" "op_call pos op = None" "talks_to c op"
  shows "c_sys st' = c_sys st"
  using assms by (cases op rule: op_args.cases) (auto simp: ret_as_Ret talks_to_def c_ret_def
      MQSSClientGetAllResources_def MQSSClientGetResourceInfo_def MQSSClientSubmitJob_def MQSSClientCancelJob_def
      MQSSClientGetJobResult_def MQSSClientGetNumberPendingJobs_def dest!: on_heap_sys split: if_splits)

lemma talks_to_client:
  assumes "talks_to c op" "op_call pos op \<noteq> None"
  shows "(\<exists>given n. op = OnClient (OpGetAllResources c given n) \<and> given) \<or>
    (\<exists>name. op = OnClient (OpGetResourceInfo c (Some name))) \<or>
    (\<exists>name. op = OnClient (OpGetNumberPendingJobs c (Some name))) \<or>
    (\<exists>j. j \<noteq> 0 \<and> (op = OnClient (OpSubmitJob c j) \<or> op = OnClient (OpCancelJob c j) \<or>
       (\<exists>wait timeout. op = OnClient (OpGetJobResult c j wait timeout))))"
  using assms by (cases op rule: op_args.cases) (auto simp: talks_to_def split: if_splits)

lemma c_exec_move:
  assumes ok: "heap_ok (c_heap st)" "heap_typed (c_heap st)" and args: "list_all (\<lambda>(a, k). arg_ok (c_heap st) a k) (op_args op)"
    and talks: "talks_to c op" and C: "blocks (c_heap st) c = Some (ClientObj C)"
    and jobs: "jobs_at pos js (c_heap st)" and e: "c_exec X op st = Some (Ret v, st')"
  shows "client_move X C op pos js st st'"
proof (cases "op_call pos op")
  case None
  with null_call[OF e None talks] show ?thesis by (simp add: client_move_def)
next
  case (Some cop)
  have c0: "c \<noteq> 0" using live_nonzero[OF ok(1) C] .
  have grow: "grows (op_makes op) (c_heap st) (c_heap st')"
    using c_exec_gives[OF ok, of op X] e by (simp add: c_gives_def)
  have job: "\<exists>job. blocks (c_heap st) j = Some (JobObj job) \<and> pos j < length js \<and> js ! pos j = job"
    if "arg_ok (c_heap st) j KJob" "j \<noteq> 0" for j
    using that jobs_atD[OF jobs] by (auto simp: arg_ok_def kind_of_iff)
  note same = jobs_at_grows[OF jobs]
  have "op_call pos op \<noteq> None" using Some by simp
  from talks_to_client[OF talks this] show ?thesis
  proof (elim disjE exE conjE)
    fix "given" n assume op: "op = OnClient (OpGetAllResources c given n)" "given"
    with e obtain u where "MQSSClientGetAllResources (env_json X) c given n st = Some (Ret u, st')"
      by (auto simp: ret_as_Ret)
    from GetAllResources_call[OF this c0 op(2) C] grow same op c0 show ?thesis
      by (auto simp: client_move_def keep_jobs_def)
  next
    fix name assume op: "op = OnClient (OpGetResourceInfo c (Some name))"
    with e obtain u where "MQSSClientGetResourceInfo (env_json X) c (Some name) st = Some (Ret u, st')"
      by (auto simp: ret_as_Ret)
    from GetResourceInfo_call[OF this c0 C] grow same op c0 show ?thesis
      by (auto simp: client_move_def keep_jobs_def)
  next
    fix name assume op: "op = OnClient (OpGetNumberPendingJobs c (Some name))"
    with e obtain u where "MQSSClientGetNumberPendingJobs (env_json X) c (Some name) st = Some (Ret u, st')"
      by (auto simp: ret_as_Ret)
    from GetNumberPendingJobs_call[OF this c0 C] grow same op c0 show ?thesis
      by (auto simp: client_move_def keep_jobs_def)
  next
    fix j assume j: "j \<noteq> 0" and op: "op = OnClient (OpSubmitJob c j)"
    with args job[of j] obtain job where jb: "blocks (c_heap st) j = Some (JobObj job)" "pos j < length js"
      "js ! pos j = job" by auto
    from op e obtain u where "MQSSClientSubmitJob (env_json X) c j st = Some (Ret u, st')"
      by (auto simp: ret_as_Ret)
    from SubmitJob_call[OF this ok(1) C jb(1)] obtain x job' where
      "submitJob (env_json X) C job (c_sys st) = (Ret (x, job'), c_sys st')"
      "blocks (c_heap st') = (blocks (c_heap st))(j \<mapsto> JobObj job')" by blast
    with jobs_at_write[OF jobs jb(1)] op j c0 jb(2,3) show ?thesis by (simp add: client_move_def)
  next
    fix j assume j: "j \<noteq> 0" and op: "op = OnClient (OpCancelJob c j)"
    with args job[of j] obtain job where jb: "blocks (c_heap st) j = Some (JobObj job)" "pos j < length js"
      "js ! pos j = job" by auto
    from op e obtain u where "MQSSClientCancelJob c j st = Some (Ret u, st')"
      by (auto simp: ret_as_Ret)
    from CancelJob_call[OF this c0 j C jb(1)] grow same op j c0 jb(2,3) show ?thesis
      by (auto simp: client_move_def keep_jobs_def split: outcome.splits)
  next
    fix j wait timeout assume j: "j \<noteq> 0" and op: "op = OnClient (OpGetJobResult c j wait timeout)"
    with args job[of j] obtain job where jb: "blocks (c_heap st) j = Some (JobObj job)" "pos j < length js"
      "js ! pos j = job" by auto
    from op e obtain u where "MQSSClientGetJobResult (env_json X) c j wait timeout st = Some (Ret u, st')"
      by (auto simp: ret_as_Ret)
    from GetJobResult_call[OF this c0 j C jb(1)] grow same op j c0 jb(2,3) show ?thesis
      by (auto simp: client_move_def keep_jobs_def)
  qed
qed

text \<open>A call that is no operation of the client may make one job, which has no uuid yet.\<close>

lemma created_job:
  assumes "on_heap (\<lambda>h. created (wrap_new (JobObj j) h)) st = Some (Ret v, st')" "heap_ok (c_heap st)"
  shows "\<exists>a. blocks (c_heap st') = (blocks (c_heap st))(a \<mapsto> JobObj j)"
proof -
  obtain r h where n: "new_obj (JobObj j) (c_heap st) = (r, h)" by fastforce
  from assms(2) n show ?thesis
    by (cases rule: new_obj_cases) (use assms(1) n in \<open>auto simp: on_heap_def created_def wrap_new_def\<close>)
qed

lemma created_null: "on_heap (\<lambda>h. created (Inr 0, h)) st = Some (Ret v, st') \<Longrightarrow> c_heap st' = c_heap st"
  by (auto simp: on_heap_def created_def)

lemma c_exec_jobs:
  assumes ok: "heap_ok (c_heap st)" "heap_typed (c_heap st)" and talks: "talks_to c op"
    and jobs: "jobs_at pos js (c_heap st)" and e: "c_exec X op st = Some (Ret v, st')"
    and none: "op_call pos op = None"
  shows "jobs_at pos js (c_heap st') \<and> job_handles (c_heap st') \<subseteq> job_handles (c_heap st) \<or>
    (\<exists>a j. getUuid j = [] \<and> blocks (c_heap st') = (blocks (c_heap st))(a \<mapsto> JobObj j))"
proof (cases "op_makes op = {}")
  case True
  with c_exec_gives[OF ok, of op X] e have "grows {} (c_heap st) (c_heap st')" by (simp add: c_gives_def)
  with jobs_at_grows[OF jobs] show ?thesis by blast
next
  case False
  then consider (submit) d j where "op = OnClient (OpSubmitJob d j)"
    | (circuit) ci f r shots noModify queued where "op = OnJob (OpCreateCircuitJob ci f r shots noModify queued)"
    | (hamiltonian) r i co where "op = OnJob (OpCreateHamiltonianJob r i co)"
    using talks by (cases op rule: op_makes.cases) (auto simp: talks_to_def)
  then show ?thesis
  proof cases
    case submit
    with none e jobs show ?thesis
      by (auto simp: ret_as_Ret MQSSClientSubmitJob_def c_ret_def split: if_splits)
  next
    case circuit
    let ?new = "CircuitJob (CircuitJobRequest (c_str (the ci)) (c_str (the f)) (c_str (the r)) shots noModify queued)"
    have u: "getUuid ?new = []" by (simp add: CircuitJobRequest_def)
    show ?thesis
    proof (cases "ci = None \<or> f = None \<or> r = None")
      case True
      with circuit e jobs created_null[of st v st'] show ?thesis by (simp add: MQSSClientCreateCircuitJob_def)
    next
      case False
      with circuit e have "on_heap (\<lambda>h. created (wrap_new (JobObj ?new) h)) st = Some (Ret v, st')"
        by (simp add: MQSSClientCreateCircuitJob_def)
      with u created_job[OF this ok(1)] show ?thesis by blast
    qed
  next
    case hamiltonian
    let ?new = "HamiltonianJob (HamiltonianJobRequest (c_str (the r)) (c_str (the i)) (c_str (the co)))"
    have u: "getUuid ?new = []" by (simp add: HamiltonianJobRequest_def)
    show ?thesis
    proof (cases "r = None \<or> i = None \<or> co = None")
      case True
      with hamiltonian e jobs created_null[of st v st'] show ?thesis
        by (simp add: MQSSClientCreateHamiltonianJob_def)
    next
      case False
      with hamiltonian e have "on_heap (\<lambda>h. created (wrap_new (JobObj ?new) h)) st = Some (Ret v, st')"
        by (simp add: MQSSClientCreateHamiltonianJob_def)
      with u created_job[OF this ok(1)] show ?thesis by blast
    qed
  qed
qed

text \<open>The client of a program stays where it is.\<close>

lemma client_stays:
  assumes "heap_ok (c_heap st)" "heap_typed (c_heap st)" "ledger_ok L (c_heap st)" "legal L op"
    and "talks_to c op" "blocks (c_heap st) c = Some (ClientObj C)"
    and e: "c_exec X op st = Some (Ret v, st')"
  shows "blocks (c_heap st') c = Some (ClientObj C)"
proof -
  have "c \<noteq> 0" using live_nonzero[OF assms(1,6)] .
  have "c \<notin> op_frees op"
  proof
    assume "c \<in> op_frees op"
    moreover have "k = KClient" if "L c = Some k" for k
      using that assms(3,6) unfolding ledger_ok_def by (metis kind_of.simps(8) option.inject)
    ultimately show False
      using assms(4,5) \<open>c \<noteq> 0\<close> by (cases op rule: op_args.cases) (auto simp: talks_to_def legal_def)
  qed
  with c_step_ok[OF assms(1,3,4) e] assms(6) obtain b where
    b: "blocks (c_heap st') c = Some b" "kind_of b = KClient" by (fastforce simp: c_frame_def)
  have "KClient \<notin> op_makes op"
    using assms(5) by (cases op rule: op_makes.cases) (auto simp: talks_to_def)
  moreover have "grows (op_makes op) (c_heap st) (c_heap st')"
    using c_exec_gives[OF assms(1,2), of op X] e by (simp add: c_gives_def)
  ultimately have "blocks (c_heap st) c = Some b" using b by (metis grows_def block_new_def insertCI)
  with b(1) assms(6) show ?thesis by simp
qed

section \<open>Every program\<close>

text \<open>One job more changes nothing for the others.\<close>

lemma client_exec_snoc:
  assumes "client_exec J C op (js, w) = (r, (js', w'))" "pred_option (\<lambda>i. i < length js) (op_job op)"
  shows "client_exec J C op (js @ [j], w) = (r, (js' @ [j], w'))"
  using assms by (cases op) (auto simp: keep_jobs_def nth_append list_update_append split: prod.splits outcome.splits)

lemma client_exec_length: "client_exec J C op (js, w) = (r, (js', w')) \<Longrightarrow> length js' = length js"
  by (cases op) (auto dest!: keep_jobs_snd split: prod.splits outcome.splits)

lemma client_step_snoc:
  assumes "client_step J C (js, w) (js', w')"
  shows "client_step J C (js @ [j], w) (js' @ [j], w') \<and> length js' = length js"
proof -
  from assms obtain op r where "client_exec J C op (js, w) = (r, (js', w'))"
    "pred_option (\<lambda>i. i < length js) (op_job op)" "r \<noteq> Hang" by (auto elim: client_stepE)
  moreover from this(2) have "pred_option (\<lambda>i. i < length (fst (js @ [j], w))) (op_job op)"
    by (cases "op_job op") auto
  ultimately show ?thesis using client_exec_snoc client_exec_length client_call by metis
qed

lemma program_snoc:
  assumes "program J C x y"
  shows "program J C (fst x @ [j], snd x) (fst y @ [j], snd y) \<and> length (fst y) = length (fst x)"
  using assms
proof (induction rule: rtranclp_induct)
  case (step y z)
  obtain a v b w where "y = (a, v)" "z = (b, w)" by (metis prod.collapse)
  with step client_step_snoc[of J C a v b w j] show ?case by (auto intro: rtranclp.rtrancl_into_rtrancl)
qed simp

text \<open>Where the jobs of a program come from: they were there at its start, or it made them, with no uuid.\<close>

definition jobs_from :: "'c heap \<Rightarrow> job list \<Rightarrow> (addr \<Rightarrow> nat) \<Rightarrow> 'c heap \<Rightarrow> bool" where
  "jobs_from h0 js0 pos h \<longleftrightarrow>
     (\<forall>a \<in> job_handles h. blocks h0 a = Some (JobObj (js0 ! pos a)) \<or> getUuid (js0 ! pos a) = [])"

definition program_link ::
  "('s, 'j) c_env \<Rightarrow> ('s, 'j) mqss_client \<Rightarrow> ('s, 'j) c_state \<Rightarrow> ('s, 'j) c_state \<Rightarrow> bool" where
  "program_link X C st st' \<longleftrightarrow> (\<exists>pos js js'. program (env_json X) C (js, c_sys st) (js', c_sys st') \<and>
     jobs_at pos js' (c_heap st') \<and> jobs_from (c_heap st) js pos (c_heap st'))"

lemma program_link_refl:
  assumes "heap_ok (c_heap st)"
  shows "program_link X C st st"
proof -
  from jobs_listed[OF assms] obtain pos js where "jobs_at pos js (c_heap st)" by blast
  moreover from this have "jobs_from (c_heap st) js pos (c_heap st)"
    by (auto simp: jobs_from_def job_handles_def dest: jobs_atD)
  ultimately show ?thesis unfolding program_link_def by blast
qed

lemma program_link_step:
  assumes link: "program_link X C st st1" and ok: "heap_ok (c_heap st1)" "heap_typed (c_heap st1)"
    and L: "ledger_ok L (c_heap st1)" "legal L op" and talks: "talks_to c op"
    and C: "blocks (c_heap st1) c = Some (ClientObj C)" and e: "c_exec X op st1 = Some (Ret v, st2)"
  shows "program_link X C st st2"
proof -
  from link obtain pos js js' where p: "program (env_json X) C (js, c_sys st) (js', c_sys st1)"
    and j: "jobs_at pos js' (c_heap st1)" "jobs_from (c_heap st) js pos (c_heap st1)"
    unfolding program_link_def by blast
  have less: "jobs_from (c_heap st) js pos (c_heap st2)" if "job_handles (c_heap st2) \<subseteq> job_handles (c_heap st1)"
    using j(2) that by (auto simp: jobs_from_def)
  from c_exec_move[OF ok legal_args[OF L] talks C j(1) e] have m: "client_move X C op pos js' st1 st2" .
  show ?thesis
  proof (cases "op_call pos op")
    case (Some cop)
    with m obtain r js2 where "pred_option (\<lambda>i. i < length js') (op_job cop)"
      "client_exec (env_json X) C cop (js', c_sys st1) = (r, (js2, c_sys st2))" "r \<noteq> Hang"
      and j2: "jobs_at pos js2 (c_heap st2)" "job_handles (c_heap st2) \<subseteq> job_handles (c_heap st1)"
      by (auto simp: client_move_def)
    then have "client_step (env_json X) C (js', c_sys st1) (js2, c_sys st2)"
      by (intro client_call) simp_all
    with p have "program (env_json X) C (js, c_sys st) (js2, c_sys st2)" by (rule rtranclp.rtrancl_into_rtrancl)
    with j2 less show ?thesis unfolding program_link_def by blast
  next
    case None
    with m have sys: "c_sys st2 = c_sys st1" by (simp add: client_move_def)
    from c_exec_jobs[OF ok talks j(1) e None] show ?thesis
    proof (elim disjE exE conjE)
      fix a j0 assume new: "getUuid j0 = []" "blocks (c_heap st2) = (blocks (c_heap st1))(a \<mapsto> JobObj j0)"
      from program_snoc[OF p, of j0] have p2: "program (env_json X) C (js @ [j0], c_sys st) (js' @ [j0], c_sys st2)"
        "length js' = length js" by (simp_all add: sys)
      have "jobs_from (c_heap st) (js @ [j0]) (pos(a := length js')) (c_heap st2)"
        unfolding jobs_from_def
      proof
        fix x assume x: "x \<in> job_handles (c_heap st2)"
        show "blocks (c_heap st) x = Some (JobObj ((js @ [j0]) ! (pos(a := length js')) x)) \<or>
          getUuid ((js @ [j0]) ! (pos(a := length js')) x) = []"
        proof (cases "x = a")
          case True
          with new(1) p2(2) show ?thesis by simp
        next
          case False
          with x new(2) have "x \<in> job_handles (c_heap st1)" by (simp add: job_handles_def)
          with j p2(2) False show ?thesis
            by (fastforce simp: jobs_from_def nth_append job_handles_def dest: jobs_atD)
        qed
      qed
      with p2(1) jobs_at_new[OF j(1) new(2)] show ?thesis unfolding program_link_def by blast
    next
      assume "jobs_at pos js' (c_heap st2)" "job_handles (c_heap st2) \<subseteq> job_handles (c_heap st1)"
      with p sys less show ?thesis unfolding program_link_def by metis
    qed
  qed
qed

text \<open>A program, from a state that a C program can be in.\<close>

lemma c_calls_link:
  assumes "c_reachable X L st" "blocks (c_heap st) c = Some (ClientObj C)"
    and "(c_call X c)\<^sup>*\<^sup>* (L, st) y"
  shows "c_reachable X (fst y) (snd y) \<and> blocks (c_heap (snd y)) c = Some (ClientObj C) \<and> program_link X C st (snd y)"
  using assms(3)
proof (induction rule: rtranclp_induct)
  case base
  from c_reachable_ok[OF assms(1)] have "heap_ok (c_heap st)" by simp
  with assms(1,2) program_link_refl show ?case by simp
next
  case (step y z)
  obtain L1 st1 where y: "y = (L1, st1)" by fastforce
  with step.IH have ih: "c_reachable X L1 st1" "blocks (c_heap st1) c = Some (ClientObj C)" "program_link X C st st1"
    by simp_all
  from step.hyps(2) obtain op v st2 where c: "legal L1 op" "talks_to c op" "c_exec X op st1 = Some (Ret v, st2)"
    "z = (learn (c_heap st1) (c_heap st2) (op_frees op) L1, st2)" by (auto simp: y elim: c_callE)
  from c_reachable_ok[OF ih(1)] have ok: "heap_ok (c_heap st1)" "ledger_ok L1 (c_heap st1)" by auto
  note typed = c_reachable_typed[OF ih(1)]
  show ?case
    using c_step[OF ih(1) c(1,3)] client_stays[OF ok(1) typed ok(2) c(1) c(2) ih(2) c(3)]
      program_link_step[OF ih(3) ok(1) typed ok(2) c(1,2) ih(2) c(3)] by (simp add: c(4))
qed

section \<open>The interface linked to the library\<close>

text \<open>The constructor and the destructor of \<open>MQSSClient\<close>, in the state of a C program.\<close>

definition lift_net :: "('a, 'r) io \<Rightarrow> ('a sys, 'r) io" where
  "lift_net m = (\<lambda>w. case m (net w) of (r, n) \<Rightarrow> (r, w\<lparr>net := n\<rparr>))"

definition linked_env ::
  "('wr, 'wm, 'j) outside \<Rightarrow> (tm \<Rightarrow> int) \<Rightarrow> (('wr, 'wm) both, 'j) c_env" where
  "linked_env X mktime = \<lparr>env_json = ext_json X,
     env_ctor = (\<lambda>token url isHpc. lift_net (MQSSClient X token url isHpc)),
     env_destroy = (\<lambda>C w. w\<lparr>net := destroy_client X C (net w)\<rparr>), env_mktime = mktime\<rparr>"

lemma lift_net_run: "lift_net m w = (r, w') \<Longrightarrow> m (net w) = (r, net w') \<and> trace w' = trace w"
  by (cases "m (net w)") (auto simp: lift_net_def)

lemma linked_create:
  assumes "heap_ok (c_heap st)"
    and "c_exec (linked_env X mktime) (OnClient (OpCreateClient (Some token) (Some url) isHpc)) st =
      Some (Ret (VAddr c), st1)" "c \<noteq> 0"
  shows "\<exists>C. MQSSClient X (c_str token) (c_str url) isHpc (net (c_sys st)) = (Ret C, net (c_sys st1)) \<and>
    blocks (c_heap st1) c = Some (ClientObj C) \<and> trace (c_sys st1) = trace (c_sys st)"
proof -
  let ?ctor = "\<lambda>token url isHpc. lift_net (MQSSClient X token url isHpc)"
  from assms(2) have e: "MQSSClientCreateClient ?ctor (Some token) (Some url) isHpc st = Some (Ret c, st1)"
    by (auto simp: linked_env_def ret_as_Ret)
  from C_create_contains_exceptions[OF assms(1), of ?ctor "Some token" "Some url" isHpc] e assms(3) obtain C where
    "?ctor (c_str token) (c_str url) isHpc (c_sys st) = (Ret C, c_sys st1)"
    "blocks (c_heap st1) = (blocks (c_heap st))(c \<mapsto> ClientObj C)" by auto
  with lift_net_run show ?thesis by fastforce
qed

section \<open>Properties\<close>

text \<open>C4. Whatever a C program does with a client, in calls that are defined and return (with any number of jobs,
  created before or on the way, in any order, as long as it keeps to its handles), it is a program of the
  client: the trace is the history of the client's transport, a call with a missing argument leaves none, and
  every job in memory at the end is as it was at the start or was created without a uuid, up to the uuid of a
  response to a submission on its own path. The client itself stays in place.
\<close>

theorem C_program_is_client_program:
  assumes "c_reachable X L st" "json_laws (env_json X)"
    and "blocks (c_heap st) c = Some (ClientObj C)" "(c_call X c)\<^sup>*\<^sup>* (L, st) (L', st')"
  shows "\<exists>js js' evs. program (env_json X) C (js, c_sys st) (js', c_sys st') \<and>
    trace (c_sys st') = trace (c_sys st) @ evs \<and> replays (mClient C) evs (net (c_sys st)) (net (c_sys st')) \<and>
    (\<forall>a j. blocks (c_heap st') a = Some (JobObj j) \<longrightarrow>
       (\<exists>j0. (blocks (c_heap st) a = Some (JobObj j0) \<or> getUuid j0 = []) \<and> job_follows (env_json X) evs j0 j)) \<and>
    blocks (c_heap st') c = Some (ClientObj C)"
proof -
  from c_calls_link[OF assms(1,3,4)] have C: "blocks (c_heap st') c = Some (ClientObj C)"
    and "program_link X C st st'" by simp_all
  then obtain pos js js' where p: "program (env_json X) C (js, c_sys st) (js', c_sys st')"
    and j: "jobs_at pos js' (c_heap st')" "jobs_from (c_heap st) js pos (c_heap st')"
    unfolding program_link_def by blast
  from program_inv[OF assms(2) p] obtain evs where e: "trace (c_sys st') = trace (c_sys st) @ evs"
    "replays (mClient C) evs (net (c_sys st)) (net (c_sys st'))" "list_all2 (job_follows (env_json X) evs) js js'"
    by (auto simp: program_inv_def)
  have "\<exists>j0. (blocks (c_heap st) a = Some (JobObj j0) \<or> getUuid j0 = []) \<and> job_follows (env_json X) evs j0 job"
    if a: "blocks (c_heap st') a = Some (JobObj job)" for a job
  proof -
    from jobs_atD[OF j(1) a] e(3) have "job_follows (env_json X) evs (js ! pos a) job"
      by (auto simp: list_all2_conv_all_nth)
    moreover have "blocks (c_heap st) a = Some (JobObj (js ! pos a)) \<or> getUuid (js ! pos a) = []"
      using j(2) a by (auto simp: jobs_from_def job_handles_def)
    ultimately show ?thesis by blast
  qed
  with p e(1,2) C show ?thesis by blast
qed

text \<open>A C program linked to the library, end to end: after a client was made for a URL and a token, whatever the
  program does with it, every request goes to the host of that URL with that token (both as C strings),
  the first one being the constructor's, and the message queue is not touched.
\<close>

theorem C_rest_session:
  assumes "c_reachable (linked_env X mktime) L st"
    and "c_exec (linked_env X mktime) (OnClient (OpCreateClient (Some token) (Some url) False)) st =
      Some (Ret (VAddr c), st1)" "c \<noteq> 0"
    and "(c_call (linked_env X mktime) c)\<^sup>*\<^sup>* (learn (c_heap st) (c_heap st1) {} L, st1) (L2, st2)"
  shows "\<exists>rqs. rs_sent (fst (net (c_sys st2))) = rs_sent (fst (net (c_sys st))) @ rqs \<and> rqs \<noteq> [] \<and>
    list_all (confined (c_str token) (c_str url)) rqs \<and> snd (net (c_sys st2)) = snd (net (c_sys st))"
proof -
  let ?X = "linked_env X mktime" and ?op = "OnClient (OpCreateClient (Some token) (Some url) False)"
  have env: "env_json ?X = ext_json X" by (simp add: linked_env_def)
  from c_reachable_ok[OF assms(1)] have "heap_ok (c_heap st)" by simp
  from linked_create[OF this assms(2,3)] obtain C where
    C: "MQSSClient X (c_str token) (c_str url) False (net (c_sys st)) = (Ret C, net (c_sys st1))"
    "blocks (c_heap st1) c = Some (ClientObj C)" by blast
  have "legal L ?op" by (simp add: legal_def)
  from c_step[OF assms(1) this assms(2)] have "c_reachable ?X (learn (c_heap st) (c_heap st1) {} L) st1" by simp
  from c_calls_link[OF this C(2) assms(4)] obtain js js' where
    "program (ext_json X) C (js, c_sys st1) (js', c_sys st2)"
    unfolding program_link_def env by auto
  with C(1) show ?thesis by (rule rest_life)
qed

section \<open>Examples\<close>

text \<open>A program that creates a job and submits it; the server answers with a uuid.\<close>

definition new_job :: job where
  "new_job = CircuitJob (CircuitJobRequest ''c'' ''qasm'' ''R'' 5 False False)"

definition job_made :: "(string list, jv) c_state" where
  "job_made = (typed_made ''U'')\<lparr>c_heap := snd (new_obj (JobObj new_job) (c_heap (typed_made ''U'')))\<rparr>"

lemma job_made_facts:
  "c_exec (typed_env uuid_json) (OnJob (OpCreateCircuitJob (Some ''c'') (Some ''qasm'') (Some ''R'') 5 False False))
     (typed_made ''U'') = Some (Ret (VAddr 2), job_made)"
  "handles job_made 1 example_client 2 new_job" "blocks (c_heap (typed_made ''U'')) 2 = None"
  "c_sys job_made = c_sys (c_example ''U'')"
  by (auto simp: typed_env_def api_env_def typed_start_def typed_made_def job_made_def new_job_def example_heap_def
      on_heap_def created_def MQSSClientCreateCircuitJob_def wrap_new_def new_obj_def malloc_def Let_def
      handles_def heap_ok_def c_str_def)

lemma job_submitted:
  "\<exists>st. c_exec (typed_env uuid_json) (OnClient (OpSubmitJob 1 2)) job_made = Some (Ret (VInt 42), st) \<and>
     blocks (c_heap st) 2 = Some (JobObj (setUuid ''42'' new_job)) \<and> trace (c_sys st) \<noteq> []"
proof -
  have p: "call_post example_client (getPath new_job) d (c_sys job_made) =
     (Ret ''U'', \<lparr>net = [], trace = [EvPost (getPath new_job) (Ret ''U'')]\<rparr>)" for d :: jv
    by (simp add: job_made_facts(4) c_example_def call_post_def example_client_def example_sys_def)
  from SubmitJob_response[OF uuid_json_laws job_made_facts(2) p] obtain st where
    st: "MQSSClientSubmitJob uuid_json 1 2 job_made = Some (Ret (submit_code (Some ''42'')), st)"
    "c_sys st = \<lparr>net = [], trace = [EvPost (getPath new_job) (Ret ''U'')]\<rparr>"
    "blocks (c_heap st) = (blocks (c_heap job_made))(2 \<mapsto> JobObj (setUuid ''42'' new_job))"
    by (auto simp: uuid_responses)
  have "submit_code (Some ''42'') = 42" by code_simp
  with st show ?thesis by (simp add: typed_env_def ret_as_def)
qed

theorem C_program_is_client_program_witness:
  "\<exists>(st :: (string list, jv) c_state) evs resp. blocks (c_heap st) 2 = Some (JobObj (setUuid ''42'' new_job)) \<and> trace (c_sys st) = evs \<and>
     EvPost (getPath new_job) (Ret resp) \<in> set evs \<and> response_uuid uuid_json resp = Inr (Some ''42'')"
proof -
  let ?X = "typed_env uuid_json" and ?C = "example_client"
  let ?create = "OnJob (OpCreateCircuitJob (Some ''c'') (Some ''qasm'') (Some ''R'') 5 False False)"
  let ?submit = "OnClient (OpSubmitJob 1 2)"
  let ?L = "learn (c_heap (typed_start ''U'')) (c_heap (typed_made ''U'')) {} Map.empty"
  let ?L1 = "learn (c_heap (typed_made ''U'')) (c_heap job_made) {} ?L"
  obtain st where st: "c_exec ?X ?submit job_made = Some (Ret (VInt 42), st)"
    "blocks (c_heap st) 2 = Some (JobObj (setUuid ''42'' new_job))" using job_submitted by blast
  have "c_call ?X 1 (?L, typed_made ''U'') (?L1, job_made)"
    using c_called[of ?L ?create 1 ?X "typed_made ''U''" "VAddr 2" job_made] job_made_facts(1)
    by (simp add: legal_def talks_to_def)
  moreover have b: "blocks (c_heap job_made) 1 = Some (ClientObj example_client)"
    "blocks (c_heap job_made) 2 = Some (JobObj new_job)"
    using job_made_facts(2) by (simp_all add: handles_def)
  have "legal ?L1 ?submit"
    using typed_made_facts(3,4)[of "''U''"] job_made_facts(3) b by (simp add: legal_def learn_def del: One_nat_def)
  then have "c_call ?X 1 (?L1, job_made) (learn (c_heap job_made) (c_heap st) {} ?L1, st)"
    using c_called[of ?L1 ?submit 1 ?X job_made "VInt 42" st] st(1) by (simp add: talks_to_def)
  ultimately have steps: "(c_call ?X 1)\<^sup>*\<^sup>* (?L, typed_made ''U'') (learn (c_heap job_made) (c_heap st) {} ?L1, st)"
    by (meson converse_rtranclp_into_rtranclp r_into_rtranclp)
  have laws: "json_laws (env_json ?X)" by (simp add: typed_env_def uuid_json_laws)
  from C_program_is_client_program[OF typed_reached laws typed_made_facts(4) steps] st(2)
  obtain evs j0 where e: "trace (c_sys st) = trace (c_sys (typed_made ''U'')) @ evs"
    "blocks (c_heap (typed_made ''U'')) 2 = Some (JobObj j0) \<or> getUuid j0 = []"
    "job_follows (env_json ?X) evs j0 (setUuid ''42'' new_job)" by blast
  have "getUuid j0 = []" using e(2) job_made_facts(3) by simp
  then have "j0 \<noteq> setUuid ''42'' new_job" by auto
  with e(3) obtain u resp where u: "setUuid ''42'' new_job = setUuid u j0" "EvPost (getPath j0) (Ret resp) \<in> set evs"
    "response_uuid uuid_json resp = Inr (Some u)" by (auto simp: job_follows_def typed_env_def)
  have "getPath j0 = getPath new_job" "u = ''42''"
    using arg_cong[OF u(1), of getPath] arg_cong[OF u(1), of getUuid] by simp_all
  moreover have "trace (c_sys (typed_made ''U'')) = []"
    by (simp add: typed_made_facts(5) c_example_def example_sys_def)
  ultimately show ?thesis using st(2) e(1) u by auto
qed

definition linked_start :: "((transfer list, consumed list) both, jv) c_state" where
  "linked_start = \<lparr>c_heap = example_heap (\<lambda>k. False) False [],
     c_sys = \<lparr>net = (example_state [example_transfer 200], example_mq []), trace = []\<rparr>\<rparr>"

lemma linked_created:
  "\<exists>st. c_exec (linked_env example_outside fixed_mktime)
     (OnClient (OpCreateClient (Some ''t'') (Some (''https'' @ scheme_sep @ ''localhost/api'')) False)) linked_start =
     Some (Ret (VAddr 1), st)"
proof -
  obtain C s' where made: "MQSSClient example_outside ''t'' (''https'' @ scheme_sep @ ''localhost/api'') False
     (example_state [example_transfer 200], example_mq []) = (Ret C, s')" using example_made by blast
  have c: "c_str ''t'' = ''t''" by (simp add: c_str_def)
  have "MQSSClientCreateClient (env_ctor (linked_env example_outside fixed_mktime)) (Some ''t'')
      (Some (''https'' @ scheme_sep @ ''localhost/api'')) False linked_start =
    Some (Ret 1, linked_start\<lparr>c_sys := \<lparr>net = s', trace = []\<rparr>, c_heap := snd (new_obj (ClientObj C) (c_heap linked_start))\<rparr>)"
    unfolding MQSSClientCreateClient_def linked_env_def option.sel c c_str_wellformed[OF example_other_wellformed]
    using made by (simp add: linked_start_def lift_net_def c_new_def new_obj_def malloc_def example_heap_def Let_def)
  then show ?thesis by (simp add: ret_as_def)
qed

theorem C_rest_session_witness:
  "\<exists>(st :: ((transfer list, consumed list) both, jv) c_state) rqs. rs_sent (fst (net (c_sys st))) = rqs \<and> rqs \<noteq> [] \<and>
     (\<forall>rq \<in> set rqs. rq_headers rq = [''Authorization: Bearer t'', ''Content-Type: application/json''])"
proof -
  let ?X = "linked_env example_outside fixed_mktime"
  obtain st where st: "c_exec ?X (OnClient (OpCreateClient (Some ''t'')
      (Some (''https'' @ scheme_sep @ ''localhost/api'')) False)) linked_start = Some (Ret (VAddr 1), st)"
    using linked_created by blast
  have "heap_ok (c_heap linked_start)" "blocks (c_heap linked_start) = Map.empty"
    by (auto simp: linked_start_def example_heap_def heap_ok_def fun_eq_iff)
  then have r: "c_reachable ?X Map.empty linked_start" by (rule c_start)
  from C_rest_session[OF r st _ rtranclp.rtrancl_refl] obtain rqs where
    "rs_sent (fst (net (c_sys st))) = rs_sent (fst (net (c_sys linked_start))) @ rqs" "rqs \<noteq> []"
    "list_all (confined (c_str ''t'') (c_str (''https'' @ scheme_sep @ ''localhost/api''))) rqs" by auto
  then show ?thesis
    by (intro exI[of _ st] exI[of _ rqs])
      (auto simp: linked_start_def example_state_def list_all_iff confined_def bearer_headers_def c_str_def)
qed

end
