(* ===== verification/C_Tokens.thy ===== *)
theory C_Tokens
  imports C_Program
begin

text \<open>
  Where the tokens of a C program go, with any number of clients of either kind, created and released in
  any order: every request the process ever sends carries a token to the host it was given with.
\<close>

section \<open>Constructions, whatever they end in\<close>

lemma appendHeader_sent: "rs_sent (snd (appendHeader K header R s)) = rs_sent s"
  by (simp add: appendHeader_def bind_io_def on_curl_call)

definition sends_confined :: "string \<Rightarrow> string \<Rightarrow> 'w rest_state \<Rightarrow> 'w rest_state \<Rightarrow> bool" where
  "sends_confined token url s s' \<longleftrightarrow> (\<exists>rqs. rs_sent s' = rs_sent s @ rqs \<and> list_all (confined token url) rqs)"

lemma sends_confined_same: "rs_sent s' = rs_sent s \<Longrightarrow> sends_confined token url s s'"
  by (simp add: sends_confined_def)

lemma rest_for_sends: "rest_for token url R \<Longrightarrow> sends_only R s s' \<Longrightarrow> sends_confined token url s s'"
  using request_of_confined by (fastforce simp: sends_only_def sends_confined_def list_all_iff)

lemma MQSSRestClient_sends: "sends_confined token url s (snd (MQSSRestClient K J token url s))"
proof -
  obtain r s1 where n: "on_curl (normalizeUrl K url) s = (r, s1)" by fastforce
  note s1 = on_curl_sent[OF n]
  show ?thesis
  proof (cases r)
    case (Ret mUrl)
    let ?R0 = "\<lparr>rc_mUrl = mUrl, rc_pHeaders = []\<rparr>"
    obtain r2 s2 where a: "appendHeader K (''Authorization: Bearer '' @ token) ?R0 s1 = (r2, s2)" by fastforce
    have s2: "rs_sent s2 = rs_sent s" using appendHeader_sent a s1 by (metis snd_conv)
    show ?thesis
    proof (cases r2)
      case r2: (Ret R1)
      obtain r3 s3 where b: "appendHeader K ''Content-Type: application/json'' R1 s2 = (r3, s3)" by fastforce
      have s3: "rs_sent s3 = rs_sent s" using appendHeader_sent b s2 by (metis snd_conv)
      show ?thesis
      proof (cases r3)
        case r3: (Ret R)
        have "R = \<lparr>rc_mUrl = mUrl, rc_pHeaders = bearer_headers token\<rparr>"
          using appendHeader_Ret[OF a[unfolded r2]] appendHeader_Ret[OF b[unfolded r3]]
          by (simp add: bearer_headers_def)
        with normalizeUrl_base[OF n[unfolded Ret]] have "rest_for token url R" by (simp add: rest_for_def)
        moreover have "snd (MQSSRestClient K J token url s) = snd (rest_request K J R ''GET'' ''resources'' None s3)"
          using n Ret a r2 b r3 by (simp add: MQSSRestClient_def bind_io_def split: prod.splits outcome.splits)
        ultimately show ?thesis
          using rest_for_sends[OF _ rest_request_only, of token url R s3 K J "''GET''" "''resources''" None] s3
          by (simp add: sends_confined_def)
      qed (use n Ret a r2 b s3 in \<open>simp_all add: MQSSRestClient_def bind_io_def sends_confined_same\<close>)
    qed (use n Ret a s2 in \<open>simp_all add: MQSSRestClient_def bind_io_def sends_confined_same\<close>)
  qed (use n s1 in \<open>simp_all add: MQSSRestClient_def bind_io_def sends_confined_same\<close>)
qed

lemma MQSSClient_sends:
  "sends_confined token url (fst s) (fst (snd (MQSSClient X token url isHpc s)))"
proof (cases isHpc)
  case True
  then show ?thesis by (simp add: MQSSClient_def sends_confined_same split: prod.splits outcome.splits)
next
  case False
  with MQSSRestClient_sends[of token url "fst s" "ext_curl X" "ext_json X"] show ?thesis
    by (auto simp: MQSSClient_def split: prod.splits outcome.splits)
qed

section \<open>One call\<close>

text \<open>Whatever a call ends in, it follows the transport of a client in memory, or it constructs one, or
  releases one, or does nothing outside.\<close>

lemma call_method_sys:
  assumes "call_method m f st = Some (r, st')"
    and "\<And>a w r st'. f a (st\<lparr>c_sys := w\<rparr>) = Some (r, st') \<Longrightarrow> c_sys st' = w"
  shows "c_sys st' = snd (m (c_sys st))"
  using assms by (auto simp: call_method_def split: prod.splits outcome.splits)

lemma with_client_sys:
  assumes "with_client c f st = Some (r, st')"
  obtains C where "blocks (c_heap st) c = Some (ClientObj C)" "f C st = Some (r, st')"
  using assms by (auto simp: with_client_def split: option.splits block.splits)

lemma with_job_sys:
  assumes "with_job j f st = Some (r, st')"
  obtains job where "f job st = Some (r, st')"
  using assms by (auto simp: with_job_def split: option.splits block.splits job.splits)

definition follows_one :: "('s, 'j) c_state \<Rightarrow> ('s, 'j) c_state \<Rightarrow> bool" where
  "follows_one st st' \<longleftrightarrow> c_sys st' = c_sys st \<or>
     (\<exists>c C. blocks (c_heap st) c = Some (ClientObj C) \<and> follows C (c_sys st) (c_sys st'))"

lemma follows_one_same: "c_sys st' = c_sys st \<Longrightarrow> follows_one st st'"
  by (simp add: follows_one_def)

lemma follows_one_client:
  "blocks (c_heap st) c = Some (ClientObj C) \<Longrightarrow> c_sys st' = snd (m (c_sys st)) \<Longrightarrow>
     follows C (c_sys st) (snd (m (c_sys st))) \<Longrightarrow> follows_one st st'"
  by (auto simp: follows_one_def)

lemma calls_follow_one:
  "MQSSClientGetAllResources J c given n st = Some (r1, st') \<Longrightarrow> follows_one st st'"
  "MQSSClientGetResourceInfo J c name st = Some (r2, st') \<Longrightarrow> follows_one st st'"
  "MQSSClientGetNumberPendingJobs J c name st = Some (r3, st') \<Longrightarrow> follows_one st st'"
  "MQSSClientSubmitJob J c j st = Some (r4, st') \<Longrightarrow> follows_one st st'"
  "MQSSClientCancelJob c j st = Some (r5, st') \<Longrightarrow> follows_one st st'"
  "MQSSClientGetJobResult J c j wait timeout st = Some (r6, st') \<Longrightarrow> follows_one st st'"
proof -
  note defs = c_ret_def Let_def follows_one_same
  show "MQSSClientGetAllResources J c given n st = Some (r1, st') \<Longrightarrow> follows_one st st'"
    by (auto simp: MQSSClientGetAllResources_def defs split: if_splits prod.splits option.splits sum.splits
        elim!: with_client_sys dest!: call_method_sys intro!: follows_one_client follows_queries)
  show "MQSSClientGetResourceInfo J c name st = Some (r2, st') \<Longrightarrow> follows_one st st'"
    by (auto simp: MQSSClientGetResourceInfo_def defs split: if_splits option.splits
        elim!: with_client_sys dest!: call_method_sys dest!: c_new_sys intro!: follows_one_client follows_queries)
  show "MQSSClientGetNumberPendingJobs J c name st = Some (r3, st') \<Longrightarrow> follows_one st st'"
    by (auto simp: MQSSClientGetNumberPendingJobs_def defs split: if_splits
        elim!: with_client_sys dest!: call_method_sys intro!: follows_one_client follows_queries)
  show "MQSSClientSubmitJob J c j st = Some (r4, st') \<Longrightarrow> follows_one st st'"
    by (auto simp: MQSSClientSubmitJob_def defs split: if_splits option.splits sum.splits
        elim!: with_client_sys with_job_sys dest!: call_method_sys intro!: follows_one_client follows_queries)
  have cancel: "follows_one st (st\<lparr>c_sys := w\<rparr>)"
    if "blocks (c_heap st) c = Some (ClientObj C)" "cancelJob C job (c_sys st) = (x, w)" for C job x w
    using follows_one_client[OF that(1), of "st\<lparr>c_sys := w\<rparr>" "cancelJob C job"]
      follows_queries(6)[of C "c_sys st" job] that(2) by simp
  show "MQSSClientCancelJob c j st = Some (r5, st') \<Longrightarrow> follows_one st st'"
    by (auto simp: MQSSClientCancelJob_def defs split: if_splits prod.splits outcome.splits
        elim!: with_client_sys with_job_sys intro: cancel)
  show "MQSSClientGetJobResult J c j wait timeout st = Some (r6, st') \<Longrightarrow> follows_one st st'"
    by (auto simp: MQSSClientGetJobResult_def defs split: if_splits option.splits
        elim!: with_client_sys with_job_sys dest!: call_method_sys dest!: c_new_sys intro!: follows_one_client
          follows_getJobResult)
qed

lemma c_exec_follows_one:
  assumes "c_exec X op st = Some (r, st')"
    and "\<forall>token url isHpc. op \<noteq> OnClient (OpCreateClient token url isHpc)" "\<forall>c. op \<noteq> OnClient (OpFreeClient c)"
  shows "follows_one st st'"
proof -
  have ret: "\<exists>r'. x = Some (r', st')" if "ret_as f x = Some (r, st')" for f :: "'c \<Rightarrow> c_value" and x
    using that by (auto simp: ret_as_def split: option.splits outcome.splits)
  show ?thesis
    using assms by (cases op rule: op_args.cases)
      (auto dest!: ret on_heap_sys dest: calls_follow_one intro: follows_one_same)
qed

section \<open>The clients of a program\<close>

text \<open>A client in memory is a REST client for one of the pairs \<open>G\<close> of a token and a URL, or an HPC client.\<close>

definition known :: "('wr, 'wm, 'j) outside \<Rightarrow> (string \<times> string) set \<Rightarrow> (('wr, 'wm) both, 'j) mqss_client \<Rightarrow> bool" where
  "known X G C \<longleftrightarrow>
     (\<exists>token url R. (token, url) \<in> G \<and> rest_for token url R \<and>
        C = \<lparr>mIsHpc = False, mClient = first_transport (rest_transport (ext_curl X) (ext_json X) R)\<rparr>) \<or>
     (\<exists>H. C = \<lparr>mIsHpc = True, mClient = second_transport (hpc_transport (ext_amqp X) (ext_json X) H)\<rparr>)"

lemma known_mono: "known X G C \<Longrightarrow> G \<subseteq> G' \<Longrightarrow> known X G' C"
  unfolding known_def by blast

lemma known_made:
  assumes "MQSSClient X token url isHpc s = (Ret C, s')"
  shows "known X (if isHpc then {} else {(token, url)}) C"
proof (cases isHpc)
  case True
  with assms have "MQSSClient X token url True s = (Ret C, s')" by simp
  then obtain H where "C = \<lparr>mIsHpc = True, mClient = second_transport (hpc_transport (ext_amqp X) (ext_json X) H)\<rparr>"
    by (rule hpc_made)
  then show ?thesis unfolding known_def by blast
next
  case False
  with assms have "MQSSClient X token url False s = (Ret C, s')" by simp
  then obtain R where "C = \<lparr>mIsHpc = False, mClient = first_transport (rest_transport (ext_curl X) (ext_json X) R)\<rparr>"
    and "MQSSRestClient (ext_curl X) (ext_json X) token url (fst s) = (Ret R, fst s')" by (rule rest_made)
  with MQSSRestClient_base False show ?thesis unfolding known_def by fastforce
qed

definition all_known :: "('wr, 'wm, 'j) outside \<Rightarrow> (string \<times> string) set \<Rightarrow> (('wr, 'wm) both, 'j) c_state \<Rightarrow> bool" where
  "all_known X G st \<longleftrightarrow> (\<forall>a C. blocks (c_heap st) a = Some (ClientObj C) \<longrightarrow> known X G C)"

text \<open>Requests that carry a token of \<open>G\<close> to the host it was given with, sent between two states.\<close>

definition confined_to :: "(string \<times> string) set \<Rightarrow> http_request \<Rightarrow> bool" where
  "confined_to G rq \<longleftrightarrow> (\<exists>(token, url) \<in> G. confined token url rq)"

definition wire_sent :: "(('wr, 'wm) both, 'j) c_state \<Rightarrow> http_request list" where
  "wire_sent st = rs_sent (fst (net (c_sys st)))"

definition sends_known :: "(string \<times> string) set \<Rightarrow> (('wr, 'wm) both, 'j) c_state \<Rightarrow> (('wr, 'wm) both, 'j) c_state \<Rightarrow> bool" where
  "sends_known G st st' \<longleftrightarrow> (\<exists>rqs. wire_sent st' = wire_sent st @ rqs \<and> list_all (confined_to G) rqs)"

lemma sends_known_same: "fst (net (c_sys st')) = fst (net (c_sys st)) \<Longrightarrow> sends_known G st st'"
  by (simp add: sends_known_def wire_sent_def)

lemma sends_confined_known:
  assumes "sends_confined token url (fst (net (c_sys st))) (fst (net (c_sys st')))" "(token, url) \<in> G"
  shows "sends_known G st st'"
  using assms by (fastforce simp: sends_confined_def sends_known_def wire_sent_def confined_to_def list_all_iff)

lemma follows_known:
  assumes "known X G C" "follows C (c_sys st) (c_sys st')"
  shows "sends_known G st st'"
  using assms(1) unfolding known_def
proof (elim disjE exE conjE)
  fix token url R assume g: "(token, url) \<in> G" "rest_for token url R"
    and C: "C = \<lparr>mIsHpc = False, mClient = first_transport (rest_transport (ext_curl X) (ext_json X) R)\<rparr>"
  from assms(2) C obtain evs where
    "replays (first_transport (rest_transport (ext_curl X) (ext_json X) R)) evs (net (c_sys st)) (net (c_sys st'))"
    by (auto simp: follows_def)
  from replays_first[OF this] requests.rel_replays have "sends_only R (fst (net (c_sys st))) (fst (net (c_sys st')))"
    by blast
  from sends_confined_known[OF rest_for_sends[OF g(2) this] g(1)] show ?thesis .
next
  fix H assume "C = \<lparr>mIsHpc = True, mClient = second_transport (hpc_transport (ext_amqp X) (ext_json X) H)\<rparr>"
  with assms(2) obtain evs where
    "replays (second_transport (hpc_transport (ext_amqp X) (ext_json X) H)) evs (net (c_sys st)) (net (c_sys st'))"
    by (auto simp: follows_def)
  from replays_second[OF this] show ?thesis by (simp add: sends_known_same)
qed

lemma follows_one_known: "all_known X G st \<Longrightarrow> follows_one st st' \<Longrightarrow> sends_known G st st'"
  by (auto simp: follows_one_def all_known_def intro: sends_known_same follows_known)

section \<open>Constructing and releasing\<close>

lemma create_sends:
  assumes "c_exec (linked_env X mktime) (OnClient (OpCreateClient token url isHpc)) st = Some (r, st')"
  shows "c_sys st' = c_sys st \<or> (\<exists>t u. token = Some t \<and> url = Some u \<and>
    c_sys st' = snd (lift_net (MQSSClient X (c_str t) (c_str u) isHpc) (c_sys st)))"
  using assms by (auto simp: linked_env_def ret_as_def MQSSClientCreateClient_def c_ret_def dest!: c_new_sys
      split: option.splits outcome.splits if_splits prod.splits)

lemma lift_net_net: "net (snd (lift_net m w)) = snd (m (net w))"
  by (simp add: lift_net_def split: prod.splits)

text \<open>The pair a call introduces: the token and the URL of a REST client, as C strings.\<close>

fun credentials :: "c_op \<Rightarrow> (string \<times> string) set" where
  "credentials (OnClient (OpCreateClient (Some token) (Some url) False)) = {(c_str token, c_str url)}"
| "credentials _ = {}"

lemma hpc_sends: "fst (snd (MQSSClient X token url True s)) = fst s"
  by (simp add: MQSSClient_def split: prod.splits outcome.splits)

lemma create_sends_known:
  assumes "c_exec (linked_env X mktime) (OnClient (OpCreateClient token url isHpc)) st = Some (r, st')"
  shows "sends_known (credentials (OnClient (OpCreateClient token url isHpc))) st st'"
  using create_sends[OF assms]
proof (elim disjE exE conjE)
  fix t u assume o: "token = Some t" "url = Some u"
    and n: "c_sys st' = snd (lift_net (MQSSClient X (c_str t) (c_str u) isHpc) (c_sys st))"
  show ?thesis
  proof (cases isHpc)
    case True
    with n show ?thesis by (simp add: sends_known_same lift_net_net hpc_sends)
  next
    case False
    have "sends_confined (c_str t) (c_str u) (fst (net (c_sys st))) (fst (net (c_sys st')))"
      unfolding n lift_net_net by (rule MQSSClient_sends)
    with o False show ?thesis by (auto intro: sends_confined_known)
  qed
qed (simp add: sends_known_same)

lemma free_sends:
  assumes "c_exec (linked_env X mktime) (OnClient (OpFreeClient c)) st = Some (r, st')"
  shows "fst (net (c_sys st')) = fst (net (c_sys st))"
  using assms by (auto simp: linked_env_def MQSSClientFreeClient_def destroy_client_def
      split: if_splits option.splits block.splits)

text \<open>Every call, whatever it ends in.\<close>

lemma sends_known_mono: "sends_known G st st' \<Longrightarrow> G \<subseteq> G' \<Longrightarrow> sends_known G' st st'"
  unfolding sends_known_def confined_to_def by (fastforce simp: list_all_iff)

lemma c_exec_sends:
  assumes "all_known X G st" "c_exec (linked_env X mktime) op st = Some (r, st')"
  shows "sends_known (G \<union> credentials op) st st'"
proof -
  consider (create) token url isHpc where "op = OnClient (OpCreateClient token url isHpc)"
    | (release) c where "op = OnClient (OpFreeClient c)"
    | (other) "\<forall>token url isHpc. op \<noteq> OnClient (OpCreateClient token url isHpc)" "\<forall>c. op \<noteq> OnClient (OpFreeClient c)"
    by blast
  then show ?thesis
  proof cases
    case create
    with assms(2) create_sends_known have "sends_known (credentials op) st st'" by metis
    then show ?thesis by (rule sends_known_mono) simp
  next
    case release
    with assms(2) free_sends show ?thesis by (metis sends_known_same)
  next
    case other
    from follows_one_known[OF assms(1) c_exec_follows_one[OF assms(2) other]] show ?thesis
      by (rule sends_known_mono) simp
  qed
qed

text \<open>Every client in memory after a call was there before, or was made by it.\<close>

lemma create_known:
  assumes "heap_ok (c_heap st)" "all_known X G st"
    and "c_exec (linked_env X mktime) (OnClient (OpCreateClient token url isHpc)) st = Some (Ret v, st')"
  shows "all_known X (G \<union> credentials (OnClient (OpCreateClient token url isHpc))) st'"
proof -
  let ?G = "G \<union> credentials (OnClient (OpCreateClient token url isHpc))"
  let ?ctor = "\<lambda>token url isHpc. lift_net (MQSSClient X token url isHpc)"
  from assms(3) obtain a where e: "MQSSClientCreateClient ?ctor token url isHpc st = Some (Ret a, st')"
    by (auto simp: linked_env_def ret_as_Ret)
  from C_create_contains_exceptions[OF assms(1), of ?ctor token url isHpc] e consider
    (none) "blocks (c_heap st') = blocks (c_heap st)"
    | (made) C where "?ctor (c_str (the token)) (c_str (the url)) isHpc (c_sys st) = (Ret C, c_sys st')"
      "blocks (c_heap st') = (blocks (c_heap st))(a \<mapsto> ClientObj C)" "a \<noteq> 0" by (auto split: if_splits)
  then show ?thesis
  proof cases
    case none
    with assms(2) known_mono show ?thesis unfolding all_known_def by (metis sup_ge1)
  next
    case made
    from made(3) e have "token \<noteq> None \<and> url \<noteq> None"
      by (cases "token = None \<or> url = None") (auto simp: MQSSClientCreateClient_def c_ret_def)
    moreover from known_made lift_net_run[OF made(1)] have
      "known X (if isHpc then {} else {(c_str (the token), c_str (the url))}) C" by blast
    ultimately have "known X ?G C" by (cases isHpc) (auto elim: known_mono)
    with assms(2) made(2) known_mono[of X G _ ?G] show ?thesis unfolding all_known_def by auto
  qed
qed

lemma c_exec_known:
  assumes "heap_ok (c_heap st)" "heap_typed (c_heap st)" "all_known X G st"
    and "c_exec (linked_env X mktime) op st = Some (Ret v, st')"
  shows "all_known X (G \<union> credentials op) st'"
proof (cases "KClient \<in> op_makes op")
  case True
  then obtain token url isHpc where "op = OnClient (OpCreateClient token url isHpc)"
    by (cases op rule: op_makes.cases) auto
  with create_known[OF assms(1,3)] assms(4) show ?thesis by blast
next
  case False
  have "grows (op_makes op) (c_heap st) (c_heap st')"
    using c_exec_gives[OF assms(1,2), of op "linked_env X mktime"] assms(4) by (simp add: c_gives_def)
  with False have "blocks (c_heap st) a = Some (ClientObj C)" if "blocks (c_heap st') a = Some (ClientObj C)" for a C
    using that by (force simp: grows_def)
  then show ?thesis using assms(3) known_mono[of X G _ "G \<union> credentials op"] unfolding all_known_def by blast
qed

section \<open>Every history\<close>

text \<open>The calls a program made, in order, all of which returned, from empty memory and before any request.\<close>

inductive c_history ::
  "('wr, 'wm, 'j) outside \<Rightarrow> (tm \<Rightarrow> int) \<Rightarrow> c_op list \<Rightarrow> ledger \<Rightarrow> (('wr, 'wm) both, 'j) c_state \<Rightarrow> bool"
  for X mktime where
  history_start: "heap_ok (c_heap st) \<Longrightarrow> blocks (c_heap st) = Map.empty \<Longrightarrow> wire_sent st = [] \<Longrightarrow>
     c_history X mktime [] Map.empty st"
| history_call: "c_history X mktime ops L st \<Longrightarrow> legal L op \<Longrightarrow>
     c_exec (linked_env X mktime) op st = Some (Ret v, st') \<Longrightarrow>
     c_history X mktime (ops @ [op]) (learn (c_heap st) (c_heap st') (op_frees op) L) st'"

definition tokens_given :: "c_op list \<Rightarrow> (string \<times> string) set" where
  "tokens_given ops = (\<Union>op \<in> set ops. credentials op)"

lemma tokens_given_snoc: "tokens_given (ops @ [op]) = tokens_given ops \<union> credentials op"
  by (auto simp: tokens_given_def)

lemma sends_known_all:
  "list_all (confined_to G) (wire_sent st) \<Longrightarrow> G \<subseteq> G' \<Longrightarrow> sends_known G' st st' \<Longrightarrow>
     list_all (confined_to G') (wire_sent st')"
  by (fastforce simp: sends_known_def confined_to_def list_all_iff)

lemma c_history_inv:
  assumes "c_history X mktime ops L st"
  shows "c_reachable (linked_env X mktime) L st \<and> all_known X (tokens_given ops) st \<and>
    list_all (confined_to (tokens_given ops)) (wire_sent st)"
  using assms
proof (induction rule: c_history.induct)
  case (history_start st)
  then show ?case by (auto simp: all_known_def intro: c_start)
next
  case (history_call ops L st op v st')
  then have r: "c_reachable (linked_env X mktime) L st" and k: "all_known X (tokens_given ops) st"
    and s: "list_all (confined_to (tokens_given ops)) (wire_sent st)" by simp_all
  from c_reachable_ok[OF r] have "heap_ok (c_heap st)" by simp
  from c_exec_known[OF this c_reachable_typed[OF r] k history_call.hyps(3)]
    c_step[OF r history_call.hyps(2,3)] sends_known_all[OF s _ c_exec_sends[OF k history_call.hyps(3)]]
  show ?case by (simp add: tokens_given_snoc)
qed

lemma tokens_given_op:
  assumes "(t, u) \<in> tokens_given ops"
  shows "\<exists>token url. OnClient (OpCreateClient (Some token) (Some url) False) \<in> set ops \<and> t = c_str token \<and> u = c_str url"
proof -
  from assms obtain op where op: "op \<in> set ops" "(t, u) \<in> credentials op" by (auto simp: tokens_given_def)
  from this(2) show ?thesis by (cases op rule: credentials.cases) (use op(1) in auto)
qed

section \<open>Properties\<close>

text \<open>C5. Tokens of a C program linked to the library, over its whole history: whatever clients it makes of either
  kind, in whatever order it uses and releases them and whatever the last call ends in (a value, an exception
  across the boundary, waiting for ever, a construction that fails half way), every request the process
  has sent over HTTP carries a token to the host of the URL that was given with this token, for a call
  of \<open>MQSSClientCreateClient\<close> that the program made: no client sends another's token, none sends its own to
  another's server, and a client of the message queue sends nothing over HTTP.
\<close>

theorem C_tokens_confined:
  assumes "c_history X mktime ops L st" "c_exec (linked_env X mktime) op st = Some (r, st')"
  shows "\<forall>rq \<in> set (wire_sent st'). \<exists>token url.
    OnClient (OpCreateClient (Some token) (Some url) False) \<in> set (ops @ [op]) \<and>
    confined (c_str token) (c_str url) rq"
proof
  fix rq assume rq: "rq \<in> set (wire_sent st')"
  from c_history_inv[OF assms(1)] have k: "all_known X (tokens_given ops) st"
    and s: "list_all (confined_to (tokens_given ops)) (wire_sent st)" by simp_all
  from sends_known_all[OF s _ c_exec_sends[OF k assms(2)]] rq
  have "confined_to (tokens_given (ops @ [op])) rq" by (simp add: tokens_given_snoc list_all_iff)
  then obtain t u where "(t, u) \<in> tokens_given (ops @ [op])" "confined t u rq" by (auto simp: confined_to_def)
  with tokens_given_op[OF this(1)] show "\<exists>token url.
    OnClient (OpCreateClient (Some token) (Some url) False) \<in> set (ops @ [op]) \<and>
    confined (c_str token) (c_str url) rq" by blast
qed

section \<open>Examples\<close>

text \<open>A program that makes a client and then another one for another server.\<close>

definition two_start :: "((transfer list, consumed list) both, jv) c_state" where
  "two_start = linked_start\<lparr>c_sys :=
     \<lparr>net = (example_state [example_transfer 200, example_transfer 404], example_mq []), trace = []\<rparr>\<rparr>"

definition first_create :: c_op where
  "first_create = OnClient (OpCreateClient (Some ''t'') (Some (''https'' @ scheme_sep @ ''localhost/api'')) False)"

lemma two_created:
  "\<exists>st. c_exec (linked_env example_outside fixed_mktime) first_create two_start = Some (Ret (VAddr 1), st) \<and>
     length (wire_sent st) = 1"
proof -
  let ?K = example_curl and ?J = "ref_json [] :: jv json_api"
  from example_construction_two obtain R where R: "MQSSRestClient ?K ?J ''t'' (''https'' @ scheme_sep @ ''localhost/api'')
     (example_state [example_transfer 200, example_transfer 404]) =
       (Ret R, \<lparr>rs_curl = [example_transfer 404],
          rs_sent = [the_request ?K R ''GET'' ''resources'' None [example_transfer 200, example_transfer 404]]\<rparr>)" (is "_ = (_, ?s)")
    by blast
  let ?C = "\<lparr>mIsHpc = False, mClient = first_transport (rest_transport ?K ?J R)\<rparr>
    :: ((transfer list, consumed list) both, jv) mqss_client"
  have made: "MQSSClient example_outside ''t'' (''https'' @ scheme_sep @ ''localhost/api'') False
     (example_state [example_transfer 200, example_transfer 404], example_mq []) = (Ret ?C, (?s, example_mq []))"
    using R by (simp add: MQSSClient_def example_outside_def)
  have c: "c_str ''t'' = ''t''" by (simp add: c_str_def)
  let ?st = "two_start\<lparr>c_sys := \<lparr>net = (?s, example_mq []), trace = []\<rparr>, c_heap := snd (new_obj (ClientObj ?C) (c_heap two_start))\<rparr>"
  have "MQSSClientCreateClient (env_ctor (linked_env example_outside fixed_mktime)) (Some ''t'')
      (Some (''https'' @ scheme_sep @ ''localhost/api'')) False two_start = Some (Ret 1, ?st)"
    unfolding MQSSClientCreateClient_def linked_env_def option.sel c c_str_wellformed[OF example_other_wellformed]
    using made by (simp add: two_start_def linked_start_def lift_net_def c_new_def new_obj_def malloc_def
        example_heap_def Let_def)
  then have "c_exec (linked_env example_outside fixed_mktime) first_create two_start = Some (Ret (VAddr 1), ?st)"
    by (simp add: first_create_def ret_as_def)
  moreover have "length (wire_sent ?st) = 1" by (simp add: wire_sent_def)
  ultimately show ?thesis by blast
qed

definition second_create :: c_op where
  "second_create = OnClient (OpCreateClient (Some ''v'') (Some (''https'' @ scheme_sep @ ''other/api'')) False)"

theorem C_tokens_confined_witness:
  "\<exists>st r (st' :: ((transfer list, consumed list) both, jv) c_state).
     c_exec (linked_env example_outside fixed_mktime) second_create st = Some (r, st') \<and> wire_sent st' \<noteq> [] \<and>
     (\<forall>rq \<in> set (wire_sent st').
        hd (rq_headers rq) = ''Authorization: Bearer t'' \<and>
          url_host (rq_url rq) = url_host (c_str (''https'' @ scheme_sep @ ''localhost/api'')) \<or>
        hd (rq_headers rq) = ''Authorization: Bearer v'' \<and>
          url_host (rq_url rq) = url_host (c_str (''https'' @ scheme_sep @ ''other/api'')))"
proof -
  let ?X = "linked_env example_outside fixed_mktime"
  obtain st where st: "c_exec ?X first_create two_start = Some (Ret (VAddr 1), st)" "length (wire_sent st) = 1"
    using two_created by blast
  have "heap_ok (c_heap two_start)" "blocks (c_heap two_start) = Map.empty" "wire_sent two_start = []"
    by (auto simp: two_start_def linked_start_def example_heap_def heap_ok_def fun_eq_iff wire_sent_def example_state_def)
  then have "c_history example_outside fixed_mktime [] Map.empty two_start" by (rule history_start)
  moreover have "legal Map.empty first_create" by (simp add: legal_def first_create_def)
  ultimately obtain L where h: "c_history example_outside fixed_mktime [first_create] L st"
    using history_call[OF _ _ st(1), of "[]"] by auto
  from c_history_inv[OF h] c_reachable_ok have "heap_ok (c_heap st)" by blast
  from C_create_contains_exceptions[OF this] obtain x st' where
    "MQSSClientCreateClient (env_ctor ?X) (Some ''v'') (Some (''https'' @ scheme_sep @ ''other/api'')) False st = Some (x, st')"
    by blast
  then obtain r where e: "c_exec ?X second_create st = Some (r, st')"
    by (cases x) (simp_all add: second_create_def ret_as_def)
  have "wire_sent st' \<noteq> []"
    using create_sends_known[OF e[unfolded second_create_def]] st(2) by (auto simp: sends_known_def)
  with e C_tokens_confined[OF h e] show ?thesis
    by (intro exI[of _ st] exI[of _ r] exI[of _ st'])
      (fastforce simp: first_create_def second_create_def confined_def bearer_headers_def c_str_def)
qed

end
