(* ===== verification/Python_Api.thy ===== *)
theory Python_Api
  imports Job Resource "HOL-Library.Multiset"
begin

text \<open>
  The Python interface, \<open>bindings/\<close>: which attributes the Python classes have, with the C++ members
  they read and write, and their constructors. The methods of the client are in \<open>Python_Client\<close>. pybind11 is not part of
  the repository: its conversions between Python objects and C++ values are the fields of a record.
\<close>

section \<open>Conversions\<close>

record 'v py_casts =
  py_str :: "string \<Rightarrow> 'v"
  to_str :: "'v \<Rightarrow> string option"
  py_unsigned :: "u32 \<Rightarrow> 'v"
  to_unsigned :: "'v \<Rightarrow> u32 option"
  py_bool :: "bool \<Rightarrow> 'v"
  to_bool :: "'v \<Rightarrow> bool option"
  py_list :: "'v list \<Rightarrow> 'v"
  py_dict :: "('v \<times> 'v) list \<Rightarrow> 'v"
  py_int :: "int \<Rightarrow> 'v"
  py_gate :: "gate \<Rightarrow> 'v"
  py_resource :: "resource \<Rightarrow> 'v"
  py_result :: "job_result \<Rightarrow> 'v"
  py_none :: 'v
  py_size :: "u64 \<Rightarrow> 'v"
  to_size :: "'v \<Rightarrow> u64 option"
  py_job :: "nat \<Rightarrow> 'v"
  to_job :: "'v \<Rightarrow> nat option"

text \<open>What pybind11 promises: a C++ value that was given to Python converts back to itself. A job
  is passed by reference: \<open>to_job\<close> says which of the program's jobs a Python object holds.\<close>

definition py_laws :: "'v py_casts \<Rightarrow> bool" where
  "py_laws P \<longleftrightarrow> (\<forall>s. to_str P (py_str P s) = Some s) \<and> (\<forall>n. to_unsigned P (py_unsigned P n) = Some n) \<and>
     (\<forall>b. to_bool P (py_bool P b) = Some b) \<and> (\<forall>n. to_size P (py_size P n) = Some n) \<and>
     (\<forall>i. to_job P (py_job P i) = Some i)"

section \<open>Arguments\<close>

text \<open>
  A function registered with \<open>py::arg\<close> can be called as any Python function: positional arguments
  first, the others by keyword, those with a default may be left out. A call that does not fit raises
  \<open>TypeError\<close>, as does a value that cannot be converted.
\<close>

type_synonym 'v py_signature = "(string \<times> 'v option) list"

definition py_arguments ::
  "'v py_signature \<Rightarrow> 'v list \<Rightarrow> (string \<times> 'v) list \<Rightarrow> 'v list option" where
  "py_arguments sig pos kws =
     (let rest = drop (length pos) sig in
      if length pos \<le> length sig \<and> distinct (map fst kws) \<and> list_all (\<lambda>n. n \<in> set (map fst rest)) (map fst kws) \<and>
         list_all (\<lambda>(n, d). map_of kws n \<noteq> None \<or> d \<noteq> None) rest
      then Some (pos @ map (\<lambda>(n, d). case map_of kws n of Some v \<Rightarrow> v | None \<Rightarrow> the d) rest)
      else None)"

text \<open>The order of the keywords does not matter.\<close>

lemma py_arguments_mset:
  assumes "mset kws = mset kws'" "distinct (map fst kws')"
  shows "py_arguments sig pos kws = py_arguments sig pos kws'"
proof -
  have s: "set kws = set kws'" by (rule mset_eq_setD[OF assms(1)])
  have "mset (map fst kws) = mset (map fst kws')" unfolding mset_map assms(1) ..
  then have d: "distinct (map fst kws)" using assms(2) mset_eq_imp_distinct_iff by blast
  then have m: "map_of kws = map_of kws'" using s assms(2) by (simp add: map_of_inject_set)
  have "list_all Q (map fst kws) \<longleftrightarrow> list_all Q (map fst kws')" for Q
    by (simp add: list_all_iff s)
  with d assms(2) show ?thesis unfolding py_arguments_def m by simp
qed

section \<open>Attributes\<close>

datatype py_error = Attribute_error | Type_error | Translated exn

text \<open>\<open>Translated e\<close> is what pybind11 raises for the C++ exception \<open>e\<close>.

  An attribute: how it is read, and how it is written unless it is read-only. A value of the wrong type
  cannot be written.\<close>

type_synonym ('v, 'o) py_property = "('o \<Rightarrow> 'v) \<times> ('v \<Rightarrow> 'o \<Rightarrow> 'o option) option"

type_synonym ('v, 'o) py_properties = "(string \<times> ('v, 'o) py_property) list"

definition def_property :: "('a \<Rightarrow> 'v) \<Rightarrow> ('v \<Rightarrow> 'a option) \<Rightarrow> ('o \<Rightarrow> 'a) \<Rightarrow> ('a \<Rightarrow> 'o \<Rightarrow> 'o) \<Rightarrow> ('v, 'o) py_property" where
  "def_property to_py from_py getter setter =
     (\<lambda>x. to_py (getter x), Some (\<lambda>v x. map_option (\<lambda>a. setter a x) (from_py v)))"

definition def_property_readonly :: "('o \<Rightarrow> 'v) \<Rightarrow> ('v, 'o) py_property" where
  "def_property_readonly getter = (getter, None)"

definition py_getattr :: "('v, 'o) py_properties \<Rightarrow> 'o \<Rightarrow> string \<Rightarrow> py_error + 'v" where
  "py_getattr props x name =
     (case map_of props name of None \<Rightarrow> Inl Attribute_error | Some (g, s) \<Rightarrow> Inr (g x))"

definition py_setattr :: "('v, 'o) py_properties \<Rightarrow> string \<Rightarrow> 'v \<Rightarrow> 'o \<Rightarrow> py_error + 'o" where
  "py_setattr props name v x =
     (case map_of props name of
        None \<Rightarrow> Inl Attribute_error
      | Some (g, None) \<Rightarrow> Inl Attribute_error
      | Some (g, Some s) \<Rightarrow> (case s v x of None \<Rightarrow> Inl Type_error | Some y \<Rightarrow> Inr y))"

text \<open>A sequence of assignments to attributes of one object.\<close>

fun py_assign :: "('v, 'o) py_properties \<Rightarrow> (string \<times> 'v) list \<Rightarrow> 'o \<Rightarrow> py_error + 'o" where
  "py_assign props [] x = Inr x"
| "py_assign props ((name, v) # kvs) x =
     (case py_setattr props name v x of Inl e \<Rightarrow> Inl e | Inr y \<Rightarrow> py_assign props kvs y)"

section \<open>The classes\<close>

definition circuit_properties :: "'v py_casts \<Rightarrow> ('v, circuit_job) py_properties" where
  "circuit_properties P =
     [(''circuit'', def_property (py_str P) (to_str P) cj_mCircuit setCircuit),
      (''circuit_format'', def_property (py_str P) (to_str P) cj_mCircuitFormat setCircuitFormat),
      (''shots'', def_property (py_unsigned P) (to_unsigned P) cj_mShots setShots),
      (''resource_name'', def_property (py_str P) (to_str P) cj_mResourceName setResourceName),
      (''no_modify'', def_property (py_bool P) (to_bool P) cj_mNoModify setNoModify),
      (''queued'', def_property (py_bool P) (to_bool P) cj_mQueued setQueued)]"

definition hamiltonian_properties :: "'v py_casts \<Rightarrow> ('v, hamiltonian_job) py_properties" where
  "hamiltonian_properties P =
     [(''resource_name'', def_property (py_str P) (to_str P) hj_mResourceName setHamiltonianResourceName),
      (''interaction'', def_property (py_str P) (to_str P) hj_mInteractionStr setInteractionString),
      (''coefficients'', def_property (py_str P) (to_str P) hj_mCoefficientsStr setCoefficientsString)]"

definition result_properties :: "'v py_casts \<Rightarrow> ('v, job_result) py_properties" where
  "result_properties P =
     [(''results'', def_property_readonly (\<lambda>r. py_list P
         (map (\<lambda>m. py_dict P (map (\<lambda>(k, n). (py_str P k, py_unsigned P n)) m)) (jr_mResults r)))),
      (''timestamp_completed'', def_property_readonly (\<lambda>r. py_str P (jr_mTimestampCompleted r))),
      (''timestamp_submitted'', def_property_readonly (\<lambda>r. py_str P (jr_mTimestampSubmitted r))),
      (''timestamp_scheduled'', def_property_readonly (\<lambda>r. py_str P (jr_mTimestampScheduled r)))]"

definition resource_properties :: "'v py_casts \<Rightarrow> ('v, resource) py_properties" where
  "resource_properties P =
     [(''name'', def_property_readonly (\<lambda>r. py_str P (res_mName r))),
      (''qubit_count'', def_property_readonly (\<lambda>r. py_unsigned P (res_mQubitCount r))),
      (''online'', def_property_readonly (\<lambda>r. py_bool P (res_mOnline r))),
      (''coupling_map'', def_property_readonly (\<lambda>r. py_list P
         (map (\<lambda>row. py_list P (map (py_int P) row)) (res_mCouplingMap r)))),
      (''native_gateset'', def_property_readonly (\<lambda>r. py_list P (map (py_gate P) (res_mNativeGateset r))))]"

definition gate_properties :: "'v py_casts \<Rightarrow> ('v, gate) py_properties" where
  "gate_properties P =
     [(''name'', def_property_readonly (\<lambda>g. py_str P (gate_mName g))),
      (''qubit_number'', def_property_readonly (\<lambda>g. py_unsigned P (gate_mQubitNumber g))),
      (''parameter_number'', def_property_readonly (\<lambda>g. py_unsigned P (gate_mParameterNumber g))),
      (''supported_qubits'', def_property_readonly (\<lambda>g. py_list P
         (map (\<lambda>row. py_list P (map (py_unsigned P) row)) (gate_mSupportedQubits g))))]"

text \<open>
  The constructors, two overloads each: without arguments, and with all of them. \<open>junk\<close> are the
  values of the members the first leaves uninitialised.
\<close>

definition py_CircuitJobRequest ::
  "'v py_casts \<Rightarrow> u32 \<times> bool \<times> bool \<Rightarrow> 'v list \<Rightarrow> (string \<times> 'v) list \<Rightarrow> py_error + circuit_job" where
  "py_CircuitJobRequest P junk pos kws =
     (if pos = [] \<and> kws = [] then Inr (case junk of (n, m, q) \<Rightarrow> CircuitJobRequest_default n m q)
      else case py_arguments [(''circuit'', None), (''circuit_format'', None), (''resource_name'', None),
           (''shots'', None), (''no_modify'', None), (''queued'', None)] pos kws of
        Some [circuit, circuit_format, resource_name, shots, no_modify, queued] \<Rightarrow>
          (case (to_str P circuit, to_str P circuit_format, to_str P resource_name, to_unsigned P shots,
              to_bool P no_modify, to_bool P queued) of
             (Some c, Some f, Some r, Some n, Some m, Some q) \<Rightarrow> Inr (CircuitJobRequest c f r n m q)
           | _ \<Rightarrow> Inl Type_error)
      | _ \<Rightarrow> Inl Type_error)"

definition py_HamiltonianJobRequest ::
  "'v py_casts \<Rightarrow> 'v list \<Rightarrow> (string \<times> 'v) list \<Rightarrow> py_error + hamiltonian_job" where
  "py_HamiltonianJobRequest P pos kws =
     (if pos = [] \<and> kws = [] then Inr HamiltonianJobRequest_default
      else case py_arguments [(''resource_name'', None), (''interaction'', None), (''coefficients'', None)] pos kws of
        Some [resource_name, interaction, coefficients] \<Rightarrow>
          (case (to_str P resource_name, to_str P interaction, to_str P coefficients) of
             (Some r, Some i, Some c) \<Rightarrow> Inr (HamiltonianJobRequest r i c)
           | _ \<Rightarrow> Inl Type_error)
      | _ \<Rightarrow> Inl Type_error)"

section \<open>Attributes that can be written\<close>

text \<open>
  The contract of a class whose attributes are independent: a value of the attribute's type can be
  written and is read back, and writing it leaves the other attributes alone. \<open>canon name v\<close> says that
  \<open>v\<close> is such a value.
\<close>

locale py_attributes =
  fixes props :: "('v, 'o) py_properties" and canon :: "string \<Rightarrow> 'v \<Rightarrow> bool"
  assumes set_get: "canon n v \<Longrightarrow> \<exists>y. py_setattr props n v x = Inr y \<and> py_getattr props y n = Inr v"
    and set_other: "py_setattr props n v x = Inr y \<Longrightarrow> m \<noteq> n \<Longrightarrow> py_getattr props y m = py_getattr props x m"
begin

text \<open>Any sequence of such assignments to different attributes works, and leaves each attribute with the
  value assigned to it, or with the value it had.\<close>

lemma assign_get:
  assumes "list_all (\<lambda>(n, v). canon n v) kvs" "distinct (map fst kvs)"
  shows "\<exists>y. py_assign props kvs x = Inr y \<and>
    (\<forall>n. py_getattr props y n = (case map_of kvs n of None \<Rightarrow> py_getattr props x n | Some v \<Rightarrow> Inr v))"
  using assms
proof (induction kvs arbitrary: x)
  case (Cons kv kvs)
  obtain n v where kv: "kv = (n, v)" by fastforce
  with Cons.prems(1) obtain x1 where x1: "py_setattr props n v x = Inr x1" "py_getattr props x1 n = Inr v"
    using set_get[of n v x] by auto
  from Cons.prems have "list_all (\<lambda>(n, v). canon n v) kvs" "distinct (map fst kvs)" by simp_all
  from Cons.IH[OF this, of x1] obtain y where y: "py_assign props kvs x1 = Inr y"
    "\<forall>m. py_getattr props y m = (case map_of kvs m of None \<Rightarrow> py_getattr props x1 m | Some w \<Rightarrow> Inr w)"
    by blast
  have "map_of kvs n = None" using Cons.prems(2) kv by (simp add: map_of_eq_None_iff)
  with y x1 set_other[OF x1(1)] show ?case by (auto simp: kv split: option.splits)
qed simp

end

text \<open>The values of an attribute of a job: those that convert to C++ and back to themselves.\<close>

definition stable :: "('a \<Rightarrow> 'v) \<Rightarrow> ('v \<Rightarrow> 'a option) \<Rightarrow> 'v \<Rightarrow> bool" where
  "stable to_py from_py v \<longleftrightarrow> (case from_py v of None \<Rightarrow> False | Some a \<Rightarrow> to_py a = v)"

definition circuit_value :: "'v py_casts \<Rightarrow> string \<Rightarrow> 'v \<Rightarrow> bool" where
  "circuit_value P n v \<longleftrightarrow>
     (n \<in> {''circuit'', ''circuit_format'', ''resource_name''} \<and> stable (py_str P) (to_str P) v) \<or>
     (n = ''shots'' \<and> stable (py_unsigned P) (to_unsigned P) v) \<or>
     (n \<in> {''no_modify'', ''queued''} \<and> stable (py_bool P) (to_bool P) v)"

definition hamiltonian_value :: "'v py_casts \<Rightarrow> string \<Rightarrow> 'v \<Rightarrow> bool" where
  "hamiltonian_value P n v \<longleftrightarrow>
     n \<in> {''resource_name'', ''interaction'', ''coefficients''} \<and> stable (py_str P) (to_str P) v"

lemma stable_laws:
  assumes "py_laws P"
  shows "stable (py_str P) (to_str P) (py_str P s)" "stable (py_unsigned P) (to_unsigned P) (py_unsigned P n)"
    "stable (py_bool P) (to_bool P) (py_bool P b)"
  using assms by (simp_all add: stable_def py_laws_def)

lemmas setter_defs = setCircuit_def setCircuitFormat_def setResourceName_def setShots_def setNoModify_def
  setQueued_def setHamiltonianResourceName_def setInteractionString_def setCoefficientsString_def

lemmas py_attr_defs = py_getattr_def py_setattr_def def_property_def def_property_readonly_def setter_defs

text \<open>An attribute that is written leaves the others alone if its setter leaves their getters alone.\<close>

definition independent :: "('v, 'o) py_properties \<Rightarrow> bool" where
  "independent props \<longleftrightarrow> (\<forall>(n, g, w) \<in> set props. \<forall>(m, g', w') \<in> set props. m \<noteq> n \<longrightarrow>
     (\<forall>s v x y. w = Some s \<longrightarrow> s v x = Some y \<longrightarrow> g' y = g' x))"

lemma independent_other:
  assumes "independent props" "py_setattr props n v x = Inr y" "m \<noteq> n"
  shows "py_getattr props y m = py_getattr props x m"
proof (cases "map_of props m")
  case None
  then show ?thesis by (simp add: py_getattr_def)
next
  case (Some gw)
  then obtain g' w' where m: "map_of props m = Some (g', w')" by (cases gw) auto
  from assms(2) obtain g s where n: "map_of props n = Some (g, Some s)" "s v x = Some y"
    by (auto simp: py_setattr_def split: option.splits prod.splits)
  from assms(1) map_of_SomeD[OF n(1)] map_of_SomeD[OF m] assms(3) n(2) have "g' y = g' x"
    unfolding independent_def by fastforce
  with m show ?thesis by (simp add: py_getattr_def)
qed

lemma jobs_independent: "independent (circuit_properties P)" "independent (hamiltonian_properties P)"
  by (auto simp: independent_def circuit_properties_def hamiltonian_properties_def def_property_def setter_defs)

interpretation circuit: py_attributes "circuit_properties P" "circuit_value P" for P :: "'v py_casts"
proof
  show "\<exists>y. py_setattr (circuit_properties P) n v x = Inr y \<and> py_getattr (circuit_properties P) y n = Inr v"
    if "circuit_value P n v" for n v x
    using that unfolding circuit_value_def
    by (elim disjE conjE insertE emptyE)
      (auto simp: py_attr_defs circuit_properties_def stable_def split: option.splits)
qed (rule independent_other[OF jobs_independent(1)])

interpretation hamiltonian: py_attributes "hamiltonian_properties P" "hamiltonian_value P" for P :: "'v py_casts"
proof
  show "\<exists>y. py_setattr (hamiltonian_properties P) n v x = Inr y \<and> py_getattr (hamiltonian_properties P) y n = Inr v"
    if "hamiltonian_value P n v" for n v x
    using that unfolding hamiltonian_value_def
    by (elim disjE conjE insertE emptyE)
      (auto simp: py_attr_defs hamiltonian_properties_def stable_def split: option.splits)
qed (rule independent_other[OF jobs_independent(2)])

section \<open>Properties\<close>

lemma assign_uuid:
  "py_assign (circuit_properties P) kvs x = Inr y \<Longrightarrow> mUuid y = mUuid x"
proof (induction kvs arbitrary: x)
  case (Cons kv kvs)
  then obtain x1 where x1: "py_setattr (circuit_properties P) (fst kv) (snd kv) x = Inr x1"
    "py_assign (circuit_properties P) kvs x1 = Inr y"
    by (cases kv) (auto split: sum.splits)
  from x1(1) have "mUuid x1 = mUuid x"
    by (auto simp: py_setattr_def circuit_properties_def def_property_def setter_defs
        split: if_splits option.splits)
  with Cons.IH[OF x1(2)] show ?case by simp
qed simp

lemma circuit_getattr:
  assumes "py_laws P"
  shows "py_getattr (circuit_properties P) j ''circuit'' = Inr (py_str P s) \<longleftrightarrow> cj_mCircuit j = s"
    "py_getattr (circuit_properties P) j ''circuit_format'' = Inr (py_str P s) \<longleftrightarrow> cj_mCircuitFormat j = s"
    "py_getattr (circuit_properties P) j ''resource_name'' = Inr (py_str P s) \<longleftrightarrow> cj_mResourceName j = s"
    "py_getattr (circuit_properties P) j ''shots'' = Inr (py_unsigned P n) \<longleftrightarrow> cj_mShots j = n"
    "py_getattr (circuit_properties P) j ''no_modify'' = Inr (py_bool P b) \<longleftrightarrow> cj_mNoModify j = b"
    "py_getattr (circuit_properties P) j ''queued'' = Inr (py_bool P b) \<longleftrightarrow> cj_mQueued j = b"
proof -
  have "\<And>s. to_str P (py_str P s) = Some s" "\<And>n. to_unsigned P (py_unsigned P n) = Some n"
    "\<And>b. to_bool P (py_bool P b) = Some b" using assms by (simp_all add: py_laws_def)
  then have "inj (py_str P)" "inj (py_unsigned P)" "inj (py_bool P)"
    by (metis injI option.inject)+
  note inj = this[THEN inj_eq]
  show "py_getattr (circuit_properties P) j ''circuit'' = Inr (py_str P s) \<longleftrightarrow> cj_mCircuit j = s"
    "py_getattr (circuit_properties P) j ''circuit_format'' = Inr (py_str P s) \<longleftrightarrow> cj_mCircuitFormat j = s"
    "py_getattr (circuit_properties P) j ''resource_name'' = Inr (py_str P s) \<longleftrightarrow> cj_mResourceName j = s"
    "py_getattr (circuit_properties P) j ''shots'' = Inr (py_unsigned P n) \<longleftrightarrow> cj_mShots j = n"
    "py_getattr (circuit_properties P) j ''no_modify'' = Inr (py_bool P b) \<longleftrightarrow> cj_mNoModify j = b"
    "py_getattr (circuit_properties P) j ''queued'' = Inr (py_bool P b) \<longleftrightarrow> cj_mQueued j = b"
    by (simp_all add: py_getattr_def circuit_properties_def def_property_def inj)
qed

text \<open>C37. A circuit job built in Python from \<open>CircuitJobRequest()\<close> by assigning its six attributes, in any order,
  is the job that the constructor makes when it is called with the six values by keyword, in any order, or by
  position: nothing of the uninitialised members is left.
\<close>

theorem py_circuit_job_any_order:
  assumes "py_laws P"
    and "mset kvs = mset [(''circuit'', py_str P c), (''circuit_format'', py_str P f),
      (''resource_name'', py_str P r), (''shots'', py_unsigned P n), (''no_modify'', py_bool P m),
      (''queued'', py_bool P q)]"
  shows "bind_sum (py_CircuitJobRequest P junk [] []) (py_assign (circuit_properties P) kvs) =
      py_CircuitJobRequest P junk [] kvs \<and>
    py_CircuitJobRequest P junk [] kvs = Inr (CircuitJobRequest c f r n m q) \<and>
    py_CircuitJobRequest P junk
      [py_str P c, py_str P f, py_str P r, py_unsigned P n, py_bool P m, py_bool P q] [] =
      Inr (CircuitJobRequest c f r n m q)"
proof -
  let ?kvs = "[(''circuit'', py_str P c), (''circuit_format'', py_str P f), (''resource_name'', py_str P r),
      (''shots'', py_unsigned P n), (''no_modify'', py_bool P m), (''queued'', py_bool P q)]"
  let ?x = "case junk of (n, m, q) \<Rightarrow> CircuitJobRequest_default n m q"
  have s: "set kvs = set ?kvs" by (rule mset_eq_setD[OF assms(2)])
  have "mset (map fst kvs) = mset (map fst ?kvs)" unfolding mset_map assms(2) ..
  moreover have "distinct (map fst ?kvs)" by simp
  ultimately have d: "distinct (map fst kvs)" using mset_eq_imp_distinct_iff by blast
  have "list_all (\<lambda>(n, v). circuit_value P n v) kvs"
    unfolding list_all_iff s by (simp add: circuit_value_def stable_laws[OF assms(1)])
  from circuit.assign_get[OF this d, of ?x] obtain y where
    y: "py_assign (circuit_properties P) kvs ?x = Inr y"
    "\<And>k v. map_of kvs k = Some v \<Longrightarrow> py_getattr (circuit_properties P) y k = Inr v" by auto
  have "py_getattr (circuit_properties P) y k = Inr v" if "(k, v) \<in> set ?kvs" for k v
    using y(2) that d unfolding s[symmetric] by simp
  then have "cj_mCircuit y = c" "cj_mCircuitFormat y = f" "cj_mResourceName y = r" "cj_mShots y = n"
    "cj_mNoModify y = m" "cj_mQueued y = q"
    unfolding circuit_getattr[OF assms(1), symmetric] by simp_all
  moreover have "mUuid y = []" using assign_uuid[OF y(1)] by (simp add: CircuitJobRequest_default_def split: prod.splits)
  ultimately have made: "y = CircuitJobRequest c f r n m q" by (simp add: CircuitJobRequest_def)
  have conv: "\<And>s. to_str P (py_str P s) = Some s" "\<And>n. to_unsigned P (py_unsigned P n) = Some n"
    "\<And>b. to_bool P (py_bool P b) = Some b" using assms(1) by (simp_all add: py_laws_def)
  have "length kvs = 6" using arg_cong[OF assms(2), of size] by simp
  then have "kvs \<noteq> []" by force
  moreover have "py_arguments sig [] kvs = py_arguments sig [] ?kvs" for sig
    by (rule py_arguments_mset[OF assms(2)]) simp
  ultimately have "py_CircuitJobRequest P junk [] kvs = Inr (CircuitJobRequest c f r n m q)"
    by (simp add: py_CircuitJobRequest_def py_arguments_def[of _ _ ?kvs] conv)
  moreover have "py_CircuitJobRequest P junk
      [py_str P c, py_str P f, py_str P r, py_unsigned P n, py_bool P m, py_bool P q] [] =
      Inr (CircuitJobRequest c f r n m q)"
    by (simp add: py_CircuitJobRequest_def py_arguments_def conv)
  ultimately show ?thesis using y(1) made by (simp add: py_CircuitJobRequest_def)
qed

text \<open>What Python got from the server cannot be changed: every attribute of a result, a resource or a gate
  is read-only.\<close>

theorem py_results_read_only:
  "py_setattr (result_properties P) name v r = Inl Attribute_error \<and>
   py_setattr (resource_properties P) name v x = Inl Attribute_error \<and>
   py_setattr (gate_properties P) name v g = Inl Attribute_error"
  by (simp add: py_setattr_def result_properties_def resource_properties_def gate_properties_def
      def_property_readonly_def)

section \<open>Examples\<close>

datatype pyv = PvStr string | PvInt int | PvBool bool | PvList "pyv list" | PvDict "(pyv \<times> pyv) list" | PvGate gate
  | PvResource resource | PvResult job_result | PvNone | PvJob nat

definition example_casts :: "pyv py_casts" where
  "example_casts = \<lparr>py_str = PvStr, to_str = (\<lambda>v. case v of PvStr s \<Rightarrow> Some s | _ \<Rightarrow> None),
     py_unsigned = (\<lambda>n. PvInt (uint n)),
     to_unsigned = (\<lambda>v. case v of PvInt i \<Rightarrow> if 0 \<le> i \<and> i < 2 ^ 32 then Some (word_of_int i) else None | _ \<Rightarrow> None),
     py_bool = PvBool, to_bool = (\<lambda>v. case v of PvBool b \<Rightarrow> Some b | _ \<Rightarrow> None),
     py_list = PvList, py_dict = PvDict, py_int = PvInt, py_gate = PvGate,
     py_resource = PvResource, py_result = PvResult, py_none = PvNone, py_size = (\<lambda>n. PvInt (uint n)),
     to_size = (\<lambda>v. case v of PvInt i \<Rightarrow> if 0 \<le> i \<and> i < 2 ^ 64 then Some (word_of_int i) else None | _ \<Rightarrow> None),
     py_job = PvJob, to_job = (\<lambda>v. case v of PvJob i \<Rightarrow> Some i | _ \<Rightarrow> None)\<rparr>"

lemma example_casts_laws: "py_laws example_casts"
proof -
  have "uint n < 4294967296" for n :: u32 using uint_lt2p[of n] by simp
  moreover have "uint n < 18446744073709551616" for n :: u64 using uint_lt2p[of n] by simp
  ultimately show ?thesis by (simp add: py_laws_def example_casts_def)
qed

lemma example_casts_simps:
  "py_str example_casts = PvStr" "py_bool example_casts = PvBool" "py_job example_casts = PvJob"
  "py_unsigned example_casts n = PvInt (uint n)" "py_size example_casts m = PvInt (uint m)"
  by (simp_all add: example_casts_def)

theorem py_circuit_job_any_order_witness:
  "py_CircuitJobRequest example_casts (77, True, False) []
     [(''queued'', PvBool True), (''shots'', PvInt 5), (''circuit'', PvStr ''OPENQASM''), (''no_modify'', PvBool False),
      (''circuit_format'', PvStr ''qasm''), (''resource_name'', PvStr ''QExa'')] =
     Inr (CircuitJobRequest ''OPENQASM'' ''qasm'' ''QExa'' 5 False True)"
  using py_circuit_job_any_order[OF example_casts_laws, of
      "[(''queued'', PvBool True), (''shots'', PvInt 5), (''circuit'', PvStr ''OPENQASM''), (''no_modify'', PvBool False),
        (''circuit_format'', PvStr ''qasm''), (''resource_name'', PvStr ''QExa'')]"
      "''OPENQASM''" "''qasm''" "''QExa''" 5 False True "(77, True, False)",
      THEN conjunct2, THEN conjunct1]
  by (simp add: example_casts_simps)

end
