(* ===== verification/Python_Client.thy ===== *)
theory Python_Client
  imports Python_Api Client_New Client_Program
begin

text \<open>
  \<open>bindings/client.cpp\<close>: the class \<open>MQSSClient\<close> as Python sees it. A call from Python is turned into
  an operation of the client, and what the operation returns or throws into a Python value or
  exception; so whatever is proved of the programs of \<open>Client_Program\<close> holds for Python programs.
\<close>

section \<open>Construction\<close>

definition py_MQSSClient ::
  "'v py_casts \<Rightarrow> ('wr, 'wm, 'j) outside \<Rightarrow> 'v list \<Rightarrow> (string \<times> 'v) list \<Rightarrow>
     (('wr, 'wm) both, py_error + (('wr, 'wm) both, 'j) mqss_client) io" where
  "py_MQSSClient P X pos kws =
     (case py_arguments [(''token'', Some (py_str P [])), (''url_or_queue'', Some (py_str P MQP_DEFAULT_URL)),
          (''is_hpc'', Some (py_bool P False))] pos kws of
        Some [token, url_or_queue, is_hpc] \<Rightarrow>
          (case (to_str P token, to_str P url_or_queue, to_bool P is_hpc) of
             (Some t, Some u, Some h) \<Rightarrow>
               (\<lambda>w. case MQSSClient X t u h w of
                  (Ret C, w') \<Rightarrow> (Ret (Inr C), w')
                | (Exc e, w') \<Rightarrow> (Ret (Inl (Translated e)), w')
                | (Hang, w') \<Rightarrow> (Hang, w'))
           | _ \<Rightarrow> ret_io (Inl Type_error))
      | _ \<Rightarrow> ret_io (Inl Type_error))"

section \<open>The methods\<close>

text \<open>Each method: its name, its arguments with their defaults, and the operation for converted arguments.\<close>

definition one_argument :: "('a \<Rightarrow> client_op) \<Rightarrow> ('v \<Rightarrow> 'a option) \<Rightarrow> 'v list \<Rightarrow> client_op option" where
  "one_argument f cast vs = (case vs of [v] \<Rightarrow> map_option f (cast v) | _ \<Rightarrow> None)"

definition results_arguments :: "'v py_casts \<Rightarrow> 'v list \<Rightarrow> client_op option" where
  "results_arguments P vs =
     (case vs of
        [job, wait, timeout] \<Rightarrow>
          (case (to_job P job, to_bool P wait, to_size P timeout) of
             (Some i, Some b, Some n) \<Rightarrow> Some (JobOutcome i b n)
           | _ \<Rightarrow> None)
      | _ \<Rightarrow> None)"

definition client_methods ::
  "'v py_casts \<Rightarrow> (string \<times> 'v py_signature \<times> ('v list \<Rightarrow> client_op option)) list" where
  "client_methods P =
     [(''resource'', [(''resource'', None)], one_argument ResourceInfo (to_str P)),
      (''submit_job'', [(''job_request'', None)], one_argument Submit (to_job P)),
      (''cancel_job'', [(''job'', None)], one_argument Cancel (to_job P)),
      (''job_status'', [(''job'', None)], one_argument Status (to_job P)),
      (''job_results'', [(''job'', None), (''wait'', Some (py_bool P False)), (''timeout'', Some (py_size P 100))],
         results_arguments P),
      (''pending_job_count'', [(''resource'', None)], one_argument PendingJobs (to_str P))]"

text \<open>What a Python program does with a client: read \<open>resources\<close>, or call a method.\<close>

datatype 'v py_call = ReadResources | CallMethod string "'v list" "(string \<times> 'v) list"

fun py_operation :: "'v py_casts \<Rightarrow> 'v py_call \<Rightarrow> py_error + client_op" where
  "py_operation P ReadResources = Inr AllResources"
| "py_operation P (CallMethod name pos kws) =
     (case map_of (client_methods P) name of
        None \<Rightarrow> Inl Attribute_error
      | Some (sig, cast) \<Rightarrow>
          (case py_arguments sig pos kws of
             None \<Rightarrow> Inl Type_error
           | Some vs \<Rightarrow> (case cast vs of None \<Rightarrow> Inl Type_error | Some op \<Rightarrow> Inr op)))"

section \<open>What comes back\<close>

datatype 'v py_end = Value 'v | Raised py_error | Blocked_forever

definition py_optional :: "'v py_casts \<Rightarrow> ('a \<Rightarrow> 'v) \<Rightarrow> 'a option \<Rightarrow> 'v" where
  "py_optional P cast x = (case x of None \<Rightarrow> py_none P | Some a \<Rightarrow> cast a)"

definition py_value :: "('a \<Rightarrow> 'v) \<Rightarrow> job list \<Rightarrow> 'a outcome \<times> 's sys \<Rightarrow> 'v py_end \<times> 's program_state" where
  "py_value cast js x =
     (case x of
        (Ret a, w) \<Rightarrow> (Value (cast a), (js, w))
      | (Exc e, w) \<Rightarrow> (Raised (Translated e), (js, w))
      | (Hang, w) \<Rightarrow> (Blocked_forever, (js, w)))"

fun py_exec ::
  "'v py_casts \<Rightarrow> 'j json_api \<Rightarrow> ('s, 'j) mqss_client \<Rightarrow> client_op \<Rightarrow> 's program_state \<Rightarrow>
     'v py_end \<times> 's program_state" where
  "py_exec P J C AllResources (js, w) =
     py_value (\<lambda>rs. py_list P (map (py_resource P) rs)) js (getAllResources J C w)"
| "py_exec P J C (ResourceInfo name) (js, w) =
     py_value (py_optional P (py_resource P)) js (getResourceInfo J C name w)"
| "py_exec P J C (PendingJobs name) (js, w) = py_value (py_int P) js (getNumberPendingJobs J C name w)"
| "py_exec P J C (Submit i) (js, w) =
     (case submitJob J C (js ! i) w of
        (Ret (u, job), w') \<Rightarrow> (Value (py_optional P (py_str P) u), (js[i := job], w'))
      | (Exc e, w') \<Rightarrow> (Raised (Translated e), (js, w'))
      | (Hang, w') \<Rightarrow> (Blocked_forever, (js, w')))"
| "py_exec P J C (Cancel i) (js, w) = py_value (\<lambda>u. py_none P) js (cancelJob C (js ! i) w)"
| "py_exec P J C (Status i) (js, w) = py_value (py_str P) js (getJobStatus J C (js ! i) w)"
| "py_exec P J C (JobOutcome i wait timeout) (js, w) =
     py_value (py_optional P (py_result P)) js (getJobResult J C (js ! i) wait timeout w)"

text \<open>A value that holds none of the program's jobs is not converted to a \<open>JobRequest&\<close>.\<close>

definition py_do ::
  "'v py_casts \<Rightarrow> 'j json_api \<Rightarrow> ('s, 'j) mqss_client \<Rightarrow> 'v py_call \<Rightarrow> 's program_state \<Rightarrow>
     'v py_end \<times> 's program_state" where
  "py_do P J C call x =
     (case py_operation P call of
        Inl e \<Rightarrow> (Raised e, x)
      | Inr op \<Rightarrow>
          if pred_option (\<lambda>i. i < length (fst x)) (op_job op) then py_exec P J C op x
          else (Raised Type_error, x))"

text \<open>A program that goes on after an exception; it ends with the calls, or in one that does not return.\<close>

fun py_run ::
  "'v py_casts \<Rightarrow> 'j json_api \<Rightarrow> ('s, 'j) mqss_client \<Rightarrow> 'v py_call list \<Rightarrow> 's program_state \<Rightarrow>
     'v py_end list \<times> 's program_state" where
  "py_run P J C [] x = ([], x)"
| "py_run P J C (call # calls) x =
     (case py_do P J C call x of
        (r, y) \<Rightarrow>
          if r = Blocked_forever then ([r], y)
          else case py_run P J C calls y of (rs, z) \<Rightarrow> (r # rs, z))"

section \<open>Python programs are client programs\<close>

lemma py_exec_client:
  assumes "client_exec J C op x = (r, y)"
  shows "\<exists>r'. py_exec P J C op x = (r', y) \<and> (r' = Blocked_forever \<longleftrightarrow> r = Hang) \<and>
    (\<forall>e. r' = Raised (Translated e) \<longleftrightarrow> r = Exc e)"
  using assms by (cases x; cases op)
    (auto simp: keep_jobs_def py_value_def split: prod.splits outcome.splits)

text \<open>The calls that are turned into an operation, on a program with \<open>n\<close> jobs.\<close>

definition fits :: "'v py_casts \<Rightarrow> nat \<Rightarrow> 'v py_call \<Rightarrow> bool" where
  "fits P n call \<longleftrightarrow>
     (case py_operation P call of Inl e \<Rightarrow> False | Inr op \<Rightarrow> pred_option (\<lambda>i. i < n) (op_job op))"

lemma py_do_cases:
  obtains e where "\<not> fits P (length (fst x)) call" "py_do P J C call x = (Raised e, x)"
  | op r r' y where "fits P (length (fst x)) call" "py_operation P call = Inr op"
      "pred_option (\<lambda>i. i < length (fst x)) (op_job op)" "client_exec J C op x = (r, y)"
      "py_do P J C call x = (r', y)" "r' = Blocked_forever \<longleftrightarrow> r = Hang"
      "\<forall>e. r' = Raised (Translated e) \<longleftrightarrow> r = Exc e"
proof (cases "py_operation P call")
  case (Inl e)
  with that(1) show thesis by (simp add: fits_def py_do_def)
next
  case (Inr op)
  obtain r y where e: "client_exec J C op x = (r, y)" by (metis prod.collapse)
  from py_exec_client[OF e, of P] obtain r' where "py_exec P J C op x = (r', y)"
    "r' = Blocked_forever \<longleftrightarrow> r = Hang" "\<forall>e. r' = Raised (Translated e) \<longleftrightarrow> r = Exc e" by blast
  with Inr e that show thesis
    by (cases "pred_option (\<lambda>i. i < length (fst x)) (op_job op)") (auto simp: fits_def py_do_def)
qed

lemma client_exec_jobs:
  assumes "client_exec J C op x = (r, y)"
  shows "length (fst y) = length (fst x)"
  using assms by (cases x; cases op) (auto dest!: keep_jobs_snd split: prod.splits outcome.splits)

lemma py_do_jobs: "py_do P J C call x = (r, y) \<Longrightarrow> length (fst y) = length (fst x)"
  by (cases rule: py_do_cases[of P x call J C]) (auto dest: client_exec_jobs)

lemma py_run_program:
  assumes "py_run P J C calls x = (rs, y)" "Blocked_forever \<notin> set rs"
  shows "program J C x y \<and> length rs = length calls"
  using assms
proof (induction calls arbitrary: x rs)
  case (Cons call calls)
  obtain r z where d: "py_do P J C call x = (r, z)" by (metis prod.collapse)
  with Cons.prems obtain rs' where rs: "r \<noteq> Blocked_forever" "py_run P J C calls z = (rs', y)" "rs = r # rs'"
    by (auto split: prod.splits if_splits)
  with Cons.IH[OF rs(2)] Cons.prems(2) have ih: "program J C z y" "length rs' = length calls" by auto
  have "program J C x z"
  proof (cases rule: py_do_cases[of P x call J C])
    case 1
    with d show ?thesis by simp
  next
    case (2 op r2 r' y')
    with d rs(1) have "client_step J C x z" by (auto intro: client_call)
    then show ?thesis by blast
  qed
  with ih rs(3) show ?case by simp
qed simp

text \<open>Calls that are refused might as well not have been made.\<close>

lemma py_run_fitting:
  assumes "py_run P J C calls x = (rs, y)" "Blocked_forever \<notin> set rs"
  shows "\<exists>rs'. py_run P J C (filter (fits P (length (fst x))) calls) x = (rs', y)"
  using assms
proof (induction calls arbitrary: x rs)
  case (Cons call calls)
  obtain r z where d: "py_do P J C call x = (r, z)" by (metis prod.collapse)
  with Cons.prems obtain rs' where rs: "r \<noteq> Blocked_forever" "py_run P J C calls z = (rs', y)" "rs = r # rs'"
    by (auto split: prod.splits if_splits)
  with Cons.IH[OF rs(2)] Cons.prems(2) obtain rs2 where
    ih: "py_run P J C (filter (fits P (length (fst z))) calls) z = (rs2, y)" by auto
  have len: "length (fst z) = length (fst x)" using py_do_jobs[OF d] .
  show ?case
  proof (cases rule: py_do_cases[of P x call J C])
    case 1
    with d ih show ?thesis by simp
  next
    case 2
    with d ih rs(1) len show ?thesis by auto
  qed
qed simp

section \<open>Properties\<close>


text \<open>The arguments of \<open>job_results\<close>: the job by position or by keyword, \<open>wait\<close> and \<open>timeout\<close> by keyword in any
  order or not at all; then they are \<open>False\<close> and 100.
\<close>

definition keyword :: "string \<Rightarrow> ('a \<Rightarrow> 'v) \<Rightarrow> 'a option \<Rightarrow> (string \<times> 'v) list" where
  "keyword n cast x = (case x of None \<Rightarrow> [] | Some a \<Rightarrow> [(n, cast a)])"

definition given :: "'a \<Rightarrow> 'a option \<Rightarrow> 'a" where
  "given d x = (case x of None \<Rightarrow> d | Some a \<Rightarrow> a)"

lemma py_job_results_operation:
  assumes "py_laws P"
    and "mset kws = mset (keyword ''wait'' (py_bool P) wait @ keyword ''timeout'' (py_size P) timeout)"
  shows "py_operation P (CallMethod ''job_results'' [py_job P i] kws) =
      Inr (JobOutcome i (given False wait) (given 100 timeout))"
    and "py_operation P (CallMethod ''job_results'' [] ((''job'', py_job P i) # kws)) =
      Inr (JobOutcome i (given False wait) (given 100 timeout))"
proof -
  let ?kws = "keyword ''wait'' (py_bool P) wait @ keyword ''timeout'' (py_size P) timeout"
  have c: "\<And>b. to_bool P (py_bool P b) = Some b" "\<And>n. to_size P (py_size P n) = Some n"
    "\<And>i. to_job P (py_job P i) = Some i" using assms(1) by (simp_all add: py_laws_def)
  have a: "py_arguments sig pos kws = py_arguments sig pos ?kws" for sig pos
    by (rule py_arguments_mset[OF assms(2)]) (simp add: keyword_def split: option.splits)
  have b: "py_arguments sig pos ((''job'', py_job P i) # kws) = py_arguments sig pos ((''job'', py_job P i) # ?kws)" for sig pos
    by (rule py_arguments_mset) (use assms(2) in \<open>simp_all add: keyword_def split: option.splits\<close>)
  show "py_operation P (CallMethod ''job_results'' [py_job P i] kws) =
      Inr (JobOutcome i (given False wait) (given 100 timeout))"
    by (simp add: client_methods_def a)
      (cases wait; cases timeout; simp add: keyword_def given_def py_arguments_def results_arguments_def c)
  show "py_operation P (CallMethod ''job_results'' [] ((''job'', py_job P i) # kws)) =
      Inr (JobOutcome i (given False wait) (given 100 timeout))"
    by (simp add: client_methods_def b)
      (cases wait; cases timeout; simp add: keyword_def given_def py_arguments_def results_arguments_def c)
qed

text \<open>C36. \<open>job_results\<close> called from Python on a job of the program, with the job by position or by keyword and
  with \<open>wait\<close> and \<open>timeout\<close> by keyword in any order or not at all, is \<open>getJobResult\<close> on this job, not waiting
  and with 100 seconds unless told otherwise; Python gets the result object, \<open>None\<close> for none, or the
  exception, and no job changes. So waiting without a timeout sleeps at most 100 seconds and asks at
  most 50 times.
\<close>

theorem py_job_results_call:
  assumes "py_laws P" "i < length js"
    and "mset kws = mset (keyword ''wait'' (py_bool P) wait @ keyword ''timeout'' (py_size P) timeout)"
  shows "py_do P J C (CallMethod ''job_results'' [py_job P i] kws) (js, w) =
      py_value (py_optional P (py_result P)) js (getJobResult J C (js ! i) (given False wait) (given 100 timeout) w) \<and>
    py_do P J C (CallMethod ''job_results'' [] ((''job'', py_job P i) # kws)) (js, w) =
      py_do P J C (CallMethod ''job_results'' [py_job P i] kws) (js, w) \<and>
    (wait = Some True \<and> timeout = None \<longrightarrow>
      (\<exists>r w' evs. py_do P J C (CallMethod ''job_results'' [py_job P i] kws) (js, w) = (r, (js, w')) \<and>
         trace w' = trace w @ evs \<and> slept evs \<le> 100 \<and> gets (status_url (js ! i)) evs \<le> 50))"
proof -
  have e: "py_do P J C (CallMethod ''job_results'' [py_job P i] kws) (js, w) =
      py_value (py_optional P (py_result P)) js (getJobResult J C (js ! i) (given False wait) (given 100 timeout) w)"
    "py_do P J C (CallMethod ''job_results'' [] ((''job'', py_job P i) # kws)) (js, w) =
      py_do P J C (CallMethod ''job_results'' [py_job P i] kws) (js, w)"
    using assms(2) by (simp_all add: py_do_def py_job_results_operation[OF assms(1,3)] del: py_operation.simps)
  obtain x v where x: "getJobResult J C (js ! i) True 100 w = (x, v)" by fastforce
  then obtain r where "py_value (py_optional P (py_result P)) js (x, v) = (r, (js, v))"
    by (cases x) (simp_all add: py_value_def)
  moreover from getJobResult_bounds[OF x] obtain evs where
    "trace v = trace w @ evs" "slept evs \<le> 100" "gets (status_url (js ! i)) evs \<le> 50" by fastforce
  ultimately show ?thesis using e x by (auto simp: given_def)
qed

section \<open>Examples\<close>

definition py_example_calls :: "pyv py_call list" where
  "py_example_calls =
     [CallMethod ''submit'' [PvJob 0] [], CallMethod ''submit_job'' [] [(''job_request'', PvJob 0)],
      CallMethod ''submit_job'' [PvJob 0] [(''job_request'', PvJob 0)], CallMethod ''job_status'' [PvJob 3] []]"

lemma py_example_operations:
  "map (py_operation example_casts) py_example_calls =
     [Inl Attribute_error, Inr (Submit 0), Inl Type_error, Inr (Status 3)]"
  by (simp add: py_example_calls_def client_methods_def py_arguments_def one_argument_def example_casts_def)

lemma py_example_run:
  "\<exists>w'. py_run example_casts rest_json (rest_mqss example_curl rest_json example_rest) py_example_calls
      ([example_job], rest_sys [example_transfer 201]) =
     ([Raised Attribute_error, Value (PvStr ''42''), Raised Type_error, Raised Type_error],
      ([setUuid ''42'' example_job], w')) \<and> map rq_url (rs_sent (net w')) = [''http://h/job'']"
proof -
  obtain w' where w': "submitJob rest_json (rest_mqss example_curl rest_json example_rest) example_job
      (rest_sys [example_transfer 201]) = (Ret (Some ''42'', setUuid ''42'' example_job), w')"
    "map rq_url (rs_sent (net w')) = [''http://h/job'']"
    using rest_submitted by (elim exE conjE)
  show ?thesis using py_example_operations w'
    by (simp add: py_example_calls_def py_do_def py_optional_def example_casts_simps del: py_operation.simps)
qed


theorem py_job_results_call_witness:
  "py_do example_casts (ref_json []) example_client
      (CallMethod ''job_results'' [] [(''job'', PvJob 0), (''timeout'', PvInt 7), (''wait'', PvBool True)])
      ([example_job], example_sys []) =
    py_value (py_optional example_casts PvResult) [example_job]
      (getJobResult (ref_json []) example_client example_job True 7 (example_sys []))"
proof -
  have kws: "mset [(''timeout'', PvInt 7), (''wait'', PvBool True)] =
      mset (keyword ''wait'' (py_bool example_casts) (Some True) @ keyword ''timeout'' (py_size example_casts) (Some 7))"
    by (simp add: keyword_def example_casts_simps)
  have casts: "py_job example_casts 0 = PvJob 0" "py_result example_casts = PvResult"
    by (simp_all add: example_casts_def)
  from py_job_results_call[OF example_casts_laws _ kws, of 0 "[example_job]" "ref_json []" example_client "example_sys []"]
  show ?thesis by (simp add: given_def casts)
qed

end
