(* ===== verification/Unit_Tests.thy ===== *)
theory Unit_Tests
  imports Client_Props Job_Props
begin

text \<open>
  The repository's own unit tests, \<open>tests/unit/c++\<close>, run on the model: the same jobs, the same
  answers of the mock transport (here a script of answers), the same expectations. They show no
  general property, only that the definitions compute what the tests of the code expect.
\<close>

section \<open>The mock\<close>

definition mock_json :: "jv json_api" where
  "mock_json = ref_json
     [(''{\"uuid\":\"12345\"}'', JObj [(''uuid'', JStr ''12345'')]),
      (''{\"status\":\"ok\"}'', JObj [(''status'', JStr ''ok'')]),
      (''{\"status\":\"COMPLETED\"}'', JObj [(''status'', JStr ''COMPLETED'')]),
      (''{\"status\":\"RUNNING\"}'', JObj [(''status'', JStr ''RUNNING'')]),
      (''{\"status\":\"FAILED\"}'', JObj [(''status'', JStr ''FAILED'')]),
      (''{\"status\":\"CANCELLED\"}'', JObj [(''status'', JStr ''CANCELLED'')]),
      (''{}'', JObj []),
      (''{\"num_pending_jobs\":42}'', JObj [(''num_pending_jobs'', JNum 42)]),
      (''{\"ERROR\" : \"Not Found\"}'', JObj [(''ERROR'', JStr ''Not Found'')]),
      (''{\"10\":200}'', JObj [(''10'', JNum 200)]),
      (''[{\"10\":100},{\"10\":200}]'', JArr [JObj [(''10'', JNum 100)], JObj [(''10'', JNum 200)]]),
      (''kResultResponse'', JObj [(''result'', JStr ''{\"10\":200}''),
         (''timestamp_completed'', JStr ''2026-05-26 11:26:07.615381''),
         (''timestamp_scheduled'', JStr ''2026-05-26 08:07:40.026325''),
         (''timestamp_submitted'', JStr ''2026-05-25 08:52:14.503964'')]),
      (''kResultArrayResponse'', JObj [(''result'', JStr ''[{\"10\":100},{\"10\":200}]''),
         (''timestamp_completed'', JStr ''2026-05-26 11:26:07.615381''),
         (''timestamp_scheduled'', JStr ''2026-05-26 08:07:40.026325''),
         (''timestamp_submitted'', JStr ''2026-05-25 08:52:14.503964'')]),
      (''kResourceResponse'', JObj
        [(''connectivity'', JStr ''[[0, 2], [2, 0], [1, 2], [2, 1], [2, 3], [3, 2], [2, 4], [4, 2]]''),
         (''instructions'', JStr ''[(\"r\",{(0,):None, (1,):None, (2,):None, (3,):None,(4,):None})]''),
         (''name'', JStr ''Fake-Resource2''), (''online'', JBool False), (''qubits'', JNum 5)]),
      (''kAllResourcesResponse'', JObj
        [(''Fake-Resource1'', JObj [(''connectivity'', JStr ''None''), (''instructions'', JStr ''None''),
            (''name'', JStr ''Fake-Resource1''), (''online'', JBool False), (''qubits'', JNum 20)]),
         (''Fake-Resource2'', JObj
           [(''connectivity'', JStr ''[[0, 2], [2, 0], [1, 2], [2, 1], [2, 3], [3, 2], [2, 4], [4, 2]]''),
            (''instructions'', JStr ''[(\"r\",{(0,):None})]''),
            (''name'', JStr ''Fake-Resource2''), (''online'', JBool False), (''qubits'', JNum 5)])])]"

definition mock_client :: "bool \<Rightarrow> (string list, jv) mqss_client" where
  "mock_client isHpc = \<lparr>mIsHpc = isHpc, mClient = script_transport\<rparr>"

definition test_circuit_job :: job where
  "test_circuit_job = CircuitJob (CircuitJobRequest
     ''OPENQASM 2.0; include qelib1.inc; qreg q[2]; creg c[2]; h q[0]; cx q[0], q[1]; measure q -> c;''
     ''qasm'' ''mock-resource'' 100 False False)"

definition test_hamiltonian_job :: job where
  "test_hamiltonian_job = HamiltonianJob (HamiltonianJobRequest ''mock-resource'' ''Z0 Z1 X0 X1'' ''0.5 0.3'')"

text \<open>The value of a call and the transport calls it made, for a script of answers.\<close>

definition run_mock :: "(string list sys, 'a) io \<Rightarrow> string list \<Rightarrow> 'a outcome \<times> event list" where
  "run_mock m answers = (case m (example_sys answers) of (r, w) \<Rightarrow> (r, trace w))"


abbreviation mock :: "(string list, jv) mqss_client" where
  "mock \<equiv> mock_client False"

abbreviation submitted_job :: "job \<Rightarrow> job" where
  "submitted_job \<equiv> setUuid ''12345''"

section \<open>Submitting and cancelling\<close>

text \<open>\<open>SubmitJobSuccess\<close>, \<open>SubmitJobWithExplicitHpcTransport\<close>, \<open>SubmitHamiltonianJobSuccess\<close>: the uuid is
  returned and stored, after one \<open>post\<close> on the job's path.\<close>

lemma test_SubmitJobSuccess:
  "map (\<lambda>(isHpc, job). run_mock (submitJob mock_json (mock_client isHpc) job) [''{\"uuid\":\"12345\"}''])
     [(False, test_circuit_job), (True, test_circuit_job), (False, test_hamiltonian_job)] =
   [(Ret (Some ''12345'', submitted_job test_circuit_job), [EvPost ''job'' (Ret ''{\"uuid\":\"12345\"}'')]),
    (Ret (Some ''12345'', submitted_job test_circuit_job), [EvPost ''job'' (Ret ''{\"uuid\":\"12345\"}'')]),
    (Ret (Some ''12345'', submitted_job test_hamiltonian_job), [EvPost ''hamiltonian_job'' (Ret ''{\"uuid\":\"12345\"}'')])]"
  by code_simp

text \<open>\<open>SubmitJobEmptyResponse\<close>, \<open>SubmitJobInvalidJson\<close>, \<open>SubmitJobMissingUuid\<close>, for both kinds of job: no
  uuid, and the job is as it was.\<close>

lemma test_SubmitJob_no_uuid:
  "list_all (\<lambda>(job, answer). fst (run_mock (submitJob mock_json mock job) [answer]) = Ret (None, job))
     (List.product [test_circuit_job, test_hamiltonian_job] ['''', ''not-json'', ''{\"status\":\"ok\"}''])"
  by code_simp

text \<open>\<open>CancelJob\<close>, \<open>CancelHamiltonianJob\<close>.\<close>

lemma test_CancelJob:
  "map (\<lambda>job. run_mock (cancelJob mock (submitted_job job)) [''''])
     [test_circuit_job, test_hamiltonian_job] =
   [(Ret (), [EvDel ''job/12345'' (Ret ())]), (Ret (), [EvDel ''hamiltonian_job/12345'' (Ret ())])]"
  by code_simp

section \<open>The status\<close>

text \<open>\<open>GetJobStatusCompleted\<close>, \<open>GetJobStatusFailed\<close>, \<open>GetHamiltonianJobStatusCompleted\<close>.\<close>

lemma test_GetJobStatus:
  "map (\<lambda>(job, answer). run_mock (getJobStatus mock_json mock (submitted_job job)) [answer])
     [(test_circuit_job, ''{\"status\":\"COMPLETED\"}''), (test_circuit_job, ''{\"status\":\"FAILED\"}''),
      (test_hamiltonian_job, ''{\"status\":\"COMPLETED\"}'')] =
   [(Ret ''COMPLETED'', [EvGet ''job/12345/status'' (Ret ''{\"status\":\"COMPLETED\"}'')]),
    (Ret ''FAILED'', [EvGet ''job/12345/status'' (Ret ''{\"status\":\"FAILED\"}'')]),
    (Ret ''COMPLETED'', [EvGet ''hamiltonian_job/12345/status'' (Ret ''{\"status\":\"COMPLETED\"}'')])]"
  by code_simp

text \<open>\<open>GetJobStatusEmptyResponse\<close>, \<open>GetJobStatusInvalidJson\<close>, \<open>GetJobStatusMissingField\<close>, for both kinds.\<close>

lemma test_GetJobStatus_unknown:
  "list_all (\<lambda>(job, answer). fst (run_mock (getJobStatus mock_json mock (submitted_job job)) [answer]) = Ret '''')
     (List.product [test_circuit_job, test_hamiltonian_job] ['''', ''bad-json'', ''{}''])"
  by code_simp

section \<open>The result\<close>

declare waitForJobResult.simps [code]

text \<open>\<open>GetJobResultSuccess\<close>, \<open>GetJobResultArraySuccess\<close>: waiting asks for the status once and then for the
  result; here with the counts the answers hold.\<close>

lemma test_GetJobResultSuccess:
  "map (\<lambda>answer. run_mock (getJobResult mock_json mock (submitted_job test_circuit_job) True 100)
     [''{\"status\":\"COMPLETED\"}'', answer]) [''kResultResponse'', ''kResultArrayResponse''] =
   map (\<lambda>(answer, counts). (Ret (Some (JobResult_members counts ''2026-05-26 11:26:07.615381''
       ''2026-05-25 08:52:14.503964'' ''2026-05-26 08:07:40.026325'')),
     [EvGet ''job/12345/status'' (Ret ''{\"status\":\"COMPLETED\"}''), EvGet ''job/12345/result'' (Ret answer)]))
     [(''kResultResponse'', [[(''10'', 200)]]), (''kResultArrayResponse'', [[(''10'', 100)], [(''10'', 200)]])]"
  by code_simp

text \<open>\<open>GetJobResultEmptyResponse\<close>, \<open>GetJobResultInvalidJson\<close>.\<close>

lemma test_GetJobResult_none:
  "list_all (\<lambda>answer. fst (run_mock (getJobResult mock_json mock (submitted_job test_circuit_job) False 100) [answer]) =
      Ret None) ['''', ''invalid-json'']"
  by code_simp

text \<open>\<open>WaitForJobResultWithZeroTimeoutDoesNotPoll\<close>, and \<open>WaitForJobResultStopsAtTimeout\<close> for the timeouts 1, 2
  and 3: as many queries as \<open>(timeout + 1) / 2\<close>, as many seconds as the timeout.\<close>

lemma test_WaitForJobResultStopsAtTimeout:
  "map (\<lambda>timeout. run_mock (getJobResult mock_json mock (submitted_job test_circuit_job) True timeout)
     (replicate 3 ''{\"status\":\"RUNNING\"}'')) [0, 1, 2, 3] =
   (let ask = EvGet ''job/12345/status'' (Ret ''{\"status\":\"RUNNING\"}'')
    in [(Ret None, []), (Ret None, [ask, EvSleep 1]), (Ret None, [ask, EvSleep 2]),
        (Ret None, [ask, EvSleep 2, ask, EvSleep 1])])"
  by code_simp

text \<open>\<open>WaitForJobResultStopsOnTerminalOrMissingStatus\<close>: the job has no uuid.\<close>

lemma test_WaitForJobResultStops:
  "list_all (\<lambda>answer. run_mock (getJobResult mock_json mock test_circuit_job True 1) [answer] =
      (Ret None, [EvGet ''job//status'' (Ret answer)]))
     [''{\"status\":\"FAILED\"}'', ''{\"status\":\"CANCELLED\"}'', '''']"
  by code_simp

section \<open>Pending jobs\<close>

text \<open>\<open>GetNumberPendingJobsSuccess\<close>, and the three tests of answers without a number.\<close>

lemma test_GetNumberPendingJobs:
  "run_mock (getNumberPendingJobs mock_json mock ''mock-resource'') [''{\"num_pending_jobs\":42}''] =
     (Ret 42, [EvGet ''resources/mock-resource/num_pending_jobs'' (Ret ''{\"num_pending_jobs\":42}'')])"
  by code_simp

lemma test_GetNumberPendingJobs_unknown:
  "list_all (\<lambda>answer. fst (run_mock (getNumberPendingJobs mock_json mock ''mock-resource'') [answer]) = Ret (- 1))
     ['''', ''invalid-json'', ''{}'']"
  by code_simp

section \<open>Resources\<close>

text \<open>\<open>GetAllResources\<close>, \<open>GetResourceInfoReturnsResource\<close>, \<open>ResourceFieldsAreParsedCorrectly\<close>: with every
  field of the resource, of which the tests look at some.\<close>

lemma test_GetAllResources:
  "case fst (run_mock (getAllResources mock_json mock) [''kAllResourcesResponse'']) of
     Ret rs \<Rightarrow> map res_mName rs = [''Fake-Resource1'', ''Fake-Resource2''] | _ \<Rightarrow> False"
  by code_simp

lemma test_GetResourceInfo:
  "run_mock (getResourceInfo mock_json mock ''Fake-Resource2'') [''kResourceResponse''] =
     (Ret (Some (Resource_members ''Fake-Resource2'' 5 False
        [[0, 2], [2, 0], [1, 2], [2, 1], [2, 3], [3, 2], [2, 4], [4, 2]]
        [\<lparr>gate_mName = ''r'', gate_mQubitNumber = 1, gate_mParameterNumber = 2,
           gate_mSupportedQubits = [[0], [1], [2], [3], [4]]\<rparr>])),
      [EvGet ''resources/Fake-Resource2'' (Ret ''kResourceResponse'')])"
  by code_simp

text \<open>\<open>GetResourceInfoReturnsNulloptForUnknownResource\<close> (a text that is no JSON), \<open>GetResourceInfoReturnsNotAccepted\<close>,
  \<open>GetResourceInfoReturnsError\<close>.\<close>

lemma test_GetResourceInfo_none:
  "list_all (\<lambda>answer. fst (run_mock (getResourceInfo mock_json mock ''mock-resource'') [answer]) = Ret None)
     [''{\"RESOURCE NOT FOUND\"}'', '''', ''{\"ERROR\" : \"Not Found\"}'']"
  by code_simp

end
