(* ===== verification/Spec2Isabelle.thy ===== *)
theory Spec2Isabelle
  imports Resource_Props Hpc_Jobs C_Tokens Python_Client Unit_Tests
begin

text \<open>
  \<^bold>\<open>The MQSS client: a model of its C++ sources with the theorems that make it correct.\<close>

  The program lets a caller list quantum resources, submit jobs and fetch their results. A
  \<open>MQSSClient\<close> (\<open>src/client.cpp\<close>) turns each operation into one call of a transport, \<open>get\<close>,
  \<open>post\<close> or \<open>del\<close> of \<open>MQSSBaseClient\<close>, and reads the JSON text it gets back. There are two
  transports: HTTP through libcurl (\<open>src/clients/rest_client.cpp\<close>) and, on an HPC node, messages
  through RabbitMQ (\<open>src/clients/hpc_client.cpp\<close> over \<open>rabbitmq_client.cpp\<close>). A C API
  (\<open>src/c_bindings\<close>) wraps the client, with handles to C++ objects and \<open>malloc\<close>ed arrays, and a Python module
  (\<open>bindings/\<close>) exposes its classes.

  \<^bold>\<open>Conventions.\<close> Machine integers are words (\<open>u32\<close>, \<open>u64\<close>) or, for \<open>int\<close>, integers with the
  conversion written out (\<open>size_to_int\<close>, \<open>sint\<close>). A pure function that may throw returns
  \<open>exn + 'a\<close>. A call against the outside world is a function from a state to an outcome
  (\<open>Ret\<close>, \<open>Exc\<close>, or \<open>Hang\<close> for a call that never returns) and a state. A C function adds undefined
  behaviour as the value \<open>None\<close>. Strings are lists of bytes. What is not under the repository
  is a parameter: nlohmann::json (\<open>json_api\<close>, with its documented laws in \<open>json_laws\<close>), libcurl
  (\<open>curl_api\<close>), librabbitmq (\<open>amqp_api\<close>), the operating system and the uuid generator (\<open>os_api\<close>),
  and \<open>mktime\<close>. The traces and logs in the states are history: no operation reads them.

  \<^bold>\<open>Theories and what they model.\<close>
  \<^item> \<open>Prelude\<close>: exceptions, results, outcomes, loops that stop at the first throw (\<open>mapE\<close>).
    \<open>Std_String\<close>: \<open>find\<close>, \<open>c_str\<close>, \<open>std::stoi\<close>, \<open>std::to_string\<close>. \<open>Regex\<close>: the \<open>std::regex\<close> search the
    patterns need, with soundness and completeness against the language of a pattern and the
    locale \<open>token_scanner\<close> (reading back a printed sequence). \<open>Ordered_Map\<close>: \<open>std::map\<close> (locale
    \<open>ordered_map\<close>, interpreted on \<open>map_insert\<close>). \<open>Json\<close>: the JSON library's interface.
  \<^item> \<open>Resource\<close>: \<open>resource.h\<close>, \<open>resource.cpp\<close>. \<open>Resource_Format\<close>: the server's text format and that
    the patterns read it back. \<open>Resource_Props\<close>: what holds for every text.
  \<^item> \<open>Job\<close>, \<open>Job_Props\<close>: \<open>job.h\<close>, \<open>job.cpp\<close>: payloads, and results against a specification.
  \<^item> \<open>Transport\<close>: \<open>MQSSBaseClient\<close> and the locale \<open>quiet_transport\<close> (queries keep runtime errors to
    themselves), interpreted on the REST client, the HPC client and a scripted transport.
  \<^item> \<open>Client\<close>: every operation of \<open>client.cpp\<close> over any transport. \<open>Client_Facts\<close>: each query as one
    call and a pure reading; exceptions. \<open>Polling\<close>: the wait for a result as a run of the state
    machine \<open>poll_step\<close>, with its bounds. \<open>Client_Props\<close>: submission and resource queries.
  \<^item> \<open>Url\<close>, \<open>Rest_Client\<close>: \<open>rest_client.cpp\<close>. \<open>Rabbitmq\<close>: \<open>rabbitmq_client.cpp\<close>, its reachable states
    and invariants. \<open>Hpc_Client\<close>: \<open>hpc_client.cpp\<close>. \<open>Client_New\<close>: the constructor of \<open>MQSSClient\<close>.
  \<^item> \<open>C_Heap\<close>: the C heap (locale \<open>allocator\<close>, interpreted on \<open>malloc\<close> and \<open>free\<close>, which may run out
    of memory at any allocation). \<open>C_Resource\<close>, \<open>C_Job\<close>, \<open>Timestamp\<close>, \<open>C_Client\<close>: \<open>src/c_bindings\<close>.
    \<open>C_Sessions\<close>: C programs from the server's answer to what they read, call after call: the counts of a
    result and giving all memory back, its three times, and a resource with its gates, of which exactly
    the objects behind the handles stay in memory. \<open>C_Api\<close>: the C interface as one set of operations, one
    datatype per header of \<open>include/mqss-c\<close>, the programs that keep to their handles, and the two cases
    in which one of their calls is undefined (the C functions cast every job to \<open>CircuitJobRequest\<close>, and a time beyond
    the range of the clock overflows). \<open>C_Types\<close>: every object in the memory of such a program is well formed and
    every value it is given has the shape the function promises (type soundness). \<open>C_Program\<close>: such a program, with
    the jobs it makes and releases, is a program of the client; linked to the library, it sends its
    token only to the host of its URL. \<open>C_Tokens\<close>: programs with any number of clients, made and released in any
    order, and calls that end in an exception or never: no token reaches a server it was not given for.
  \<^item> \<open>Python_Api\<close>: \<open>bindings/\<close>, the arguments of a Python call, the attributes of the Python classes and the
    constructors of the jobs, with pybind11's conversions as a parameter (locale \<open>py_attributes\<close>: attributes
    that can be written are independent, interpreted on both kinds of job). \<open>Python_Client\<close>: the
    constructor and the methods of \<open>bindings/client.cpp\<close> with their default arguments; Python programs
    as programs of the client.
  \<^item> \<open>End_To_End\<close>: the client composed with its transports. \<open>Hpc_Session\<close>: sequences of calls in HPC
    mode, and which message each call gets from a queue that keeps order, whatever the service behind it does. \<open>Client_Program\<close>: any
    sequence of the client's public operations on any number of jobs; its trace as the history of the
    transport, as the requests on the wire, and as the exchanges with the broker.
    Its locales \<open>transport_relation\<close> and \<open>transport_log\<close> lift what each call of a transport does to its state and
    adds to its log to every program (interpreted on both transports). \<open>Client_Life\<close>: clients from the constructor through any program to the destructor: where a REST
    client sends its token, and what an HPC client does at the broker.
    \<open>Hpc_Jobs\<close>: which uuid a submission over the queue stores, in particular after a lost wait.
  \<^item> \<open>Unit_Tests\<close>: the repository's unit tests, run on the model.

  \<^bold>\<open>Termination and fuel.\<close> No definition uses fuel. The polling loop is a partial function; it is
  shown to return for every positive poll interval (the code uses 2). All other loops run over
  lists. A call that blocks is the outcome \<open>Hang\<close>, and it is shown where it can come from.

  \<^bold>\<open>Not modelled.\<close> How pybind11 converts values and into which Python classes it translates exceptions, the Python
  package, the build files, tests and docs. Failing allocations inside C++ containers, except
  where the code handles them (the write callback, \<open>new\<close> and \<open>malloc\<close> in the C API). The results of
  \<open>curl_easy_setopt\<close>, which the code ignores. \<open>std::get_time\<close> for formats other than the one used;
  for that one a field takes as many digits as in libstdc++, where other libraries may differ on malformed dates.
  The layout of objects that would tell what a wrong cast does: it is undefined. Threads: the program starts none.
\<close>

end
